(* ===== verification/OZ_Prelude.thy ===== *)
theory OZ_Prelude
  imports Main "HOL-Library.Signed_Division"
begin

text \<open>
  Shared vocabulary of the OneZox development: the Go language features the services rely on
  (fixed-width integers, error values with wrapping, string functions of the package strings,
  decimal formatting), and the generic lemmas on them. Every component theory imports it.

  Conventions used throughout the development:
  \<^item> a Go \<^verbatim>\<open>string\<close> is a byte sequence, so it is an Isabelle \<^typ>\<open>string\<close>;
  \<^item> a nillable pointer is an \<open>option\<close>;
  \<^item> a Go \<^verbatim>\<open>error\<close> interface value is an \<open>go_error option\<close>, and a function that returns
    \<^verbatim>\<open>(T, error)\<close> with a zero \<^verbatim>\<open>T\<close> on error returns \<open>go_error + 'a\<close>;
  \<^item> \<^verbatim>\<open>int\<close>, \<^verbatim>\<open>int64\<close> and \<^verbatim>\<open>time.Duration\<close> (nanoseconds) are \<^typ>\<open>int\<close> with the
    wrap-around of 64-bit arithmetic written out by \<open>wrap64\<close>;
  \<^item> an external service (Redis, CockroachDB, etcd, Vault, a provider's HTTP endpoint) is a record of
    operations over a world of type \<open>'w\<close> that the caller threads, or an argument of the function;
  \<^item> log lines, trace spans and context cancellation leave no trace in the model: none of them
    feeds back into a decision of the modelled code other than as an error an operation returns.
\<close>

named_theorems go_simps \<open>unfolding rules of the Go library functions\<close>

section \<open>Machine integers\<close>

definition in_int64 :: "int \<Rightarrow> bool" where
  "in_int64 k \<longleftrightarrow> - (2 ^ 63) \<le> k \<and> k < 2 ^ 63"

definition wrap64 :: "int \<Rightarrow> int" where
  "wrap64 k = (k + 2 ^ 63) mod 2 ^ 64 - 2 ^ 63"

definition in_int32 :: "int \<Rightarrow> bool" where
  "in_int32 k \<longleftrightarrow> - (2 ^ 31) \<le> k \<and> k < 2 ^ 31"

definition wrap32 :: "int \<Rightarrow> int" where
  "wrap32 k = (k + 2 ^ 31) mod 2 ^ 32 - 2 ^ 31"

type_synonym int32 = int
type_synonym duration = int

definition nsPerSecond :: int where
  "nsPerSecond = 1000000000"

definition nsPerMillisecond :: int where
  "nsPerMillisecond = 1000000"

text \<open>\<^verbatim>\<open>Duration.Milliseconds()\<close> is an integer division, which truncates towards zero in Go.\<close>

definition Milliseconds :: "duration \<Rightarrow> int" where
  "Milliseconds d = d sdiv nsPerMillisecond"

text \<open>
  \<^verbatim>\<open>int64(d.Seconds())\<close>: the float64 of whole and fractional seconds, truncated. The detour
  through a float64 is exact on whole seconds and on durations below \<open>2\<^sup>2\<^sup>2\<close> seconds; it is modelled
  by the truncating division.
\<close>

definition wholeSeconds :: "duration \<Rightarrow> int" where
  "wholeSeconds d = d sdiv nsPerSecond"

section \<open>Errors\<close>

text \<open>
  The dynamic types an \<^verbatim>\<open>error\<close> value can have in the modelled code: \<^verbatim>\<open>io.EOF\<close>, a package's
  sentinel (package and text), \<^verbatim>\<open>errors.New\<close> or \<^verbatim>\<open>fmt.Errorf\<close> without \<^verbatim>\<open>%w\<close>, \<^verbatim>\<open>fmt.Errorf\<close> with one
  \<^verbatim>\<open>%w\<close> (text before, wrapped error, text after), a gRPC status, and the typed errors of
  provider-gateway: \<^verbatim>\<open>stream.FallbackError\<close>, \<^verbatim>\<open>stream.UpstreamError\<close>, the adapters' own
  \<^verbatim>\<open>UpstreamError\<close> and \<^verbatim>\<open>adapters.ErrUnknownProvider\<close>.
\<close>

datatype FallbackReason =
    FALLBACK_REASON_QUOTA_EXHAUSTED
  | FALLBACK_REASON_BREAKER_OPEN

datatype grpc_code =
    OK | InvalidArgument | NotFound | PermissionDenied | FailedPrecondition
  | Internal | Unavailable | Unauthenticated

datatype go_error =
    EOF
  | Sentinel string string
  | ErrorString string
  | Wrap string go_error string
  | StatusError grpc_code string
  | FallbackError FallbackReason string
  | StreamUpstreamError go_error
  | AdapterUpstreamError string int string
  | ErrUnknownProvider string

type_synonym 'a result = "go_error + 'a"

text \<open>A call that can panic, where the source has a panic or an unchecked type assertion.\<close>

datatype 'a call = Panic string | Returned 'a

section \<open>Decimal formatting\<close>

definition digit_char :: "nat \<Rightarrow> char" where
  "digit_char d = (char_of (48 + d) :: char)"

fun show_nat :: "nat \<Rightarrow> string" where
  "show_nat n = (if n < 10 then [digit_char n] else show_nat (n div 10) @ [digit_char (n mod 10)])"

declare show_nat.simps [simp del]

text \<open>The verb \<^verbatim>\<open>%d\<close> on a signed integer.\<close>

definition show_int :: "int \<Rightarrow> string" where
  "show_int k = (if k < 0 then CHR ''-'' # show_nat (nat (- k)) else show_nat (nat k))"

fun FallbackReason_String :: "FallbackReason \<Rightarrow> string" where
  "FallbackReason_String FALLBACK_REASON_QUOTA_EXHAUSTED = ''FALLBACK_REASON_QUOTA_EXHAUSTED''"
| "FallbackReason_String FALLBACK_REASON_BREAKER_OPEN = ''FALLBACK_REASON_BREAKER_OPEN''"

text \<open>The method \<^verbatim>\<open>Error()\<close>. The verb \<^verbatim>\<open>%q\<close> quotes a string; on the provider names it is
  used for, quoting adds the two quotation marks.\<close>

definition quoted :: "string \<Rightarrow> string" where
  "quoted s = CHR 0x22 # s @ [CHR 0x22]"

fun error_text :: "go_error \<Rightarrow> string" where
  "error_text EOF = ''EOF''"
| "error_text (Sentinel _ t) = t"
| "error_text (ErrorString t) = t"
| "error_text (Wrap p e s) = p @ error_text e @ s"
| "error_text (StatusError _ t) = t"
| "error_text (FallbackError r _) = ''fallback: '' @ FallbackReason_String r"
| "error_text (StreamUpstreamError e) = error_text e"
| "error_text (AdapterUpstreamError a st body) =
     a @ '' adapter: upstream returned status '' @ show_int st @ '': '' @ body"
| "error_text (ErrUnknownProvider p) = ''no adapter registered for provider '' @ quoted p"

text \<open>\<^verbatim>\<open>errors.Is\<close> and \<^verbatim>\<open>errors.As\<close> walk the chain that \<^verbatim>\<open>Unwrap\<close> gives.\<close>

fun errors_Is :: "go_error \<Rightarrow> go_error \<Rightarrow> bool" where
  "errors_Is (Wrap p e s) t \<longleftrightarrow> Wrap p e s = t \<or> errors_Is e t"
| "errors_Is (StreamUpstreamError e) t \<longleftrightarrow> StreamUpstreamError e = t \<or> errors_Is e t"
| "errors_Is e t \<longleftrightarrow> e = t"

fun errors_As_Fallback :: "go_error \<Rightarrow> (FallbackReason \<times> string) option" where
  "errors_As_Fallback (FallbackError r p) = Some (r, p)"
| "errors_As_Fallback (Wrap _ e _) = errors_As_Fallback e"
| "errors_As_Fallback (StreamUpstreamError e) = errors_As_Fallback e"
| "errors_As_Fallback _ = None"

fun errors_As_StreamUpstream :: "go_error \<Rightarrow> go_error option" where
  "errors_As_StreamUpstream (StreamUpstreamError e) = Some e"
| "errors_As_StreamUpstream (Wrap _ e _) = errors_As_StreamUpstream e"
| "errors_As_StreamUpstream _ = None"

section \<open>The package strings\<close>

text \<open>\<^verbatim>\<open>strings.Cut\<close> around a one-byte separator: the text before, the text after, found or not.\<close>

definition strings_Cut :: "string \<Rightarrow> char \<Rightarrow> string \<times> string \<times> bool" where
  "strings_Cut s c =
     (let before = takeWhile (\<lambda>x. x \<noteq> c) s
      in if length before < length s then (before, drop (Suc (length before)) s, True)
         else (s, [], False))"

definition strings_HasPrefix :: "string \<Rightarrow> string \<Rightarrow> bool" where
  "strings_HasPrefix s p \<longleftrightarrow> take (length p) s = p"

definition strings_TrimPrefix :: "string \<Rightarrow> string \<Rightarrow> string" where
  "strings_TrimPrefix s p = (if strings_HasPrefix s p then drop (length p) s else s)"

fun strings_Join :: "string list \<Rightarrow> string \<Rightarrow> string" where
  "strings_Join [] sep = []"
| "strings_Join [s] sep = s"
| "strings_Join (s # t # ts) sep = s @ sep @ strings_Join (t # ts) sep"

definition ascii_lower :: "char \<Rightarrow> char" where
  "ascii_lower c =
     (if 65 \<le> (of_char c :: nat) \<and> (of_char c :: nat) \<le> 90 then char_of ((of_char c :: nat) + 32) else c)"

text \<open>
  \<^verbatim>\<open>strings.EqualFold\<close> against the pure ASCII text \<^verbatim>\<open>bearer\<close> and a space: the two non-ASCII code
  points that fold to ASCII letters (the Kelvin sign and the long s) fold to none of these letters.
\<close>

definition strings_EqualFold :: "string \<Rightarrow> string \<Rightarrow> bool" where
  "strings_EqualFold s t \<longleftrightarrow> map ascii_lower s = map ascii_lower t"

text \<open>The line feed, which Isabelle strings write as a character code.\<close>

abbreviation newline :: char where
  "newline \<equiv> CHR 0x0A"

section \<open>The package strconv\<close>

definition digit_value :: "char \<Rightarrow> nat option" where
  "digit_value c = (let n = (of_char c :: nat) in if 48 \<le> n \<and> n \<le> 57 then Some (n - 48) else None)"

fun parse_digits :: "nat \<Rightarrow> string \<Rightarrow> nat option" where
  "parse_digits acc [] = Some acc"
| "parse_digits acc (c # cs) =
     (case digit_value c of None \<Rightarrow> None | Some d \<Rightarrow> parse_digits (10 * acc + d) cs)"

text \<open>An optional sign and at least one decimal digit, in the range of a 64-bit \<^verbatim>\<open>int\<close>.\<close>

definition Atoi_syntax_error :: "string \<Rightarrow> go_error" where
  "Atoi_syntax_error s = Wrap (''strconv.Atoi: parsing '' @ quoted s @ '': '') (Sentinel ''strconv'' ''invalid syntax'') []"

definition Atoi_range_error :: "string \<Rightarrow> go_error" where
  "Atoi_range_error s = Wrap (''strconv.Atoi: parsing '' @ quoted s @ '': '') (Sentinel ''strconv'' ''value out of range'') []"

definition strconv_Atoi :: "string \<Rightarrow> int result" where
  "strconv_Atoi s =
     (let neg = (s \<noteq> [] \<and> hd s = CHR ''-'');
          ds = (if s \<noteq> [] \<and> (hd s = CHR ''-'' \<or> hd s = CHR ''+'') then tl s else s)
      in if ds = [] then Inl (Atoi_syntax_error s)
         else case parse_digits 0 ds of
                None \<Rightarrow> Inl (Atoi_syntax_error s)
              | Some n \<Rightarrow>
                  (let k = (if neg then - int n else int n)
                   in if in_int64 k then Inr k else Inl (Atoi_range_error s)))"

section \<open>Facts on integers\<close>

lemma in_int64_wrap64: "in_int64 (wrap64 k)"
proof -
  have "0 \<le> (k + 2 ^ 63) mod 2 ^ 64" "(k + 2 ^ 63) mod 2 ^ 64 < (2 :: int) ^ 64"
    by simp_all
  then show ?thesis
    unfolding in_int64_def wrap64_def by simp
qed

lemma wrap64_id: "in_int64 k \<Longrightarrow> wrap64 k = k"
  by (simp add: in_int64_def wrap64_def)

lemma wrap64_diff_id: "0 \<le> a \<Longrightarrow> 0 \<le> b \<Longrightarrow> in_int64 a \<Longrightarrow> in_int64 b \<Longrightarrow> wrap64 (a - b) = a - b"
  by (rule wrap64_id) (simp add: in_int64_def)

lemma sdiv_pos_eq_div: "0 \<le> (a :: int) \<Longrightarrow> 0 < b \<Longrightarrow> a sdiv b = a div b"
  by (cases "a = 0") (simp_all add: signed_divide_int_def)

lemma Milliseconds_nonneg [simp]: "0 \<le> d \<Longrightarrow> 0 \<le> Milliseconds d"
  by (simp add: Milliseconds_def nsPerMillisecond_def sdiv_pos_eq_div)

section \<open>Facts on formatting\<close>

lemma digit_char_inj: "i < 10 \<Longrightarrow> j < 10 \<Longrightarrow> digit_char i = digit_char j \<Longrightarrow> i = j"
proof -
  assume ij: "i < 10" "j < 10" and eq: "digit_char i = digit_char j"
  from eq have "(of_char (digit_char i) :: nat) = of_char (digit_char j)" by simp
  with ij show ?thesis by (simp add: digit_char_def)
qed

lemma digit_char_neq: "i < 10 \<Longrightarrow> digit_char i \<noteq> CHR ''-''" "i < 10 \<Longrightarrow> digit_char i \<noteq> CHR '':''"
proof -
  assume i: "i < 10"
  have "(of_char (digit_char i) :: nat) = 48 + i" using i by (simp add: digit_char_def)
  then show "digit_char i \<noteq> CHR ''-''" by auto
next
  assume i: "i < 10"
  have "(of_char (digit_char i) :: nat) = 48 + i" using i by (simp add: digit_char_def)
  then show "digit_char i \<noteq> CHR '':''" using i by auto
qed

lemma digit_char_eval [go_simps]:
  "digit_char 0 = CHR ''0''" "digit_char (Suc 0) = CHR ''1''" "digit_char 1 = CHR ''1''" "digit_char 2 = CHR ''2''"
  "digit_char 3 = CHR ''3''" "digit_char 4 = CHR ''4''" "digit_char 5 = CHR ''5''"
  "digit_char 6 = CHR ''6''" "digit_char 7 = CHR ''7''" "digit_char 8 = CHR ''8''"
  "digit_char 9 = CHR ''9''"
  by code_simp+

lemma show_nat_ne_Nil [simp]: "show_nat n \<noteq> []" "[] \<noteq> show_nat n"
  by (subst show_nat.simps, simp)+

lemma show_nat_chars: "c \<in> set (show_nat n) \<Longrightarrow> \<exists>d < 10. c = digit_char d"
proof (induction n rule: show_nat.induct)
  case (1 n)
  show ?case
  proof (cases "n < 10")
    case True
    with "1.prems" show ?thesis by (auto simp: show_nat.simps [of n])
  next
    case False
    with "1.prems" have "c \<in> set (show_nat (n div 10)) \<or> c = digit_char (n mod 10)"
      by (auto simp: show_nat.simps [of n])
    with "1.IH" [OF False] show ?thesis
      by (metis mod_less_divisor zero_less_numeral)
  qed
qed

lemma show_nat_inj: "show_nat m = show_nat n \<Longrightarrow> m = n"
proof (induction m arbitrary: n rule: show_nat.induct)
  case (1 m)
  consider (both) "m < 10" "n < 10" | (left) "m < 10" "\<not> n < 10" | (right) "\<not> m < 10" "n < 10"
    | (neither) "\<not> m < 10" "\<not> n < 10" by blast
  then show ?case
  proof cases
    case both
    with "1.prems" have "digit_char m = digit_char n"
      by (simp add: show_nat.simps [of m] show_nat.simps [of n])
    with both show ?thesis using digit_char_inj by blast
  next
    case left
    with "1.prems" show ?thesis by (simp add: show_nat.simps [of m] show_nat.simps [of n])
  next
    case right
    with "1.prems" show ?thesis by (simp add: show_nat.simps [of m] show_nat.simps [of n])
  next
    case neither
    with "1.prems" have "show_nat (m div 10) = show_nat (n div 10)"
      and d: "digit_char (m mod 10) = digit_char (n mod 10)"
      by (simp_all add: show_nat.simps [of m] show_nat.simps [of n])
    then have "m div 10 = n div 10" using "1.IH" neither(1) by blast
    moreover have "m mod 10 = n mod 10" using d digit_char_inj by simp
    ultimately show ?thesis by (metis mult_div_mod_eq)
  qed
qed

lemma show_nat_no_minus: "CHR ''-'' \<notin> set (show_nat n)"
  using show_nat_chars digit_char_neq(1) by metis

lemma show_nat_no_colon: "CHR '':'' \<notin> set (show_nat n)"
  using show_nat_chars digit_char_neq(2) by metis

lemma show_int_no_colon: "CHR '':'' \<notin> set (show_int k)"
  by (simp add: show_int_def show_nat_no_colon)

lemma show_int_inj: "show_int j = show_int k \<Longrightarrow> j = k"
proof -
  assume eq: "show_int j = show_int k"
  have hd: "CHR ''-'' # xs \<noteq> show_nat n" "show_nat n \<noteq> CHR ''-'' # xs" for xs n
    using show_nat_no_minus [of n] by (metis list.set_intros(1))+
  from eq show ?thesis
    by (auto simp: show_int_def hd split: if_splits dest: show_nat_inj)
qed

section \<open>Facts on strings\<close>

lemma strings_Cut_found: "c \<in> set s \<Longrightarrow> \<exists>a b. strings_Cut s c = (a, b, True) \<and> s = a @ c # b \<and> c \<notin> set a"
proof -
  assume "c \<in> set s"
  then obtain a b where s: "s = a @ c # b" and a: "c \<notin> set a"
    by (meson split_list_first)
  then have "takeWhile (\<lambda>x. x \<noteq> c) s = a"
    by (simp add: takeWhile_append)
  with s a show ?thesis by (simp add: strings_Cut_def)
qed

lemma strings_Cut_not_found: "c \<notin> set s \<Longrightarrow> strings_Cut s c = (s, [], False)"
proof -
  assume "c \<notin> set s"
  then have "takeWhile (\<lambda>x. x \<noteq> c) s = s" by (induction s) auto
  then show ?thesis by (simp add: strings_Cut_def Let_def del: takeWhile_eq_all_conv)
qed

lemma strings_Cut_append: "c \<notin> set a \<Longrightarrow> strings_Cut (a @ c # b) c = (a, b, True)"
proof -
  assume "c \<notin> set a"
  then have "takeWhile (\<lambda>x. x \<noteq> c) (a @ c # b) = a" by (auto simp: takeWhile_append)
  then show ?thesis by (simp add: strings_Cut_def)
qed

text \<open>Two ways to split a text at the first occurrence of a separator agree.\<close>

lemma separator_split_unique:
  fixes c :: char
  assumes "c \<notin> set a" "c \<notin> set a'" "a @ c # b = a' @ c # b'"
  shows "a = a' \<and> b = b'"
proof -
  have "strings_Cut (a @ c # b) c = strings_Cut (a' @ c # b') c" using assms(3) by simp
  then show ?thesis using assms(1,2) by (simp add: strings_Cut_append)
qed

lemma errors_Is_refl [simp]: "errors_Is e e"
  by (cases e) simp_all

lemmas strings_simps [go_simps] = strings_HasPrefix_def strings_TrimPrefix_def strings_EqualFold_def

lemma of_char_digit_char: "d < 10 \<Longrightarrow> (of_char (digit_char d) :: nat) = 48 + d"
  by (simp add: digit_char_def)

lemma digit_value_digit_char: "d < 10 \<Longrightarrow> digit_value (digit_char d) = Some d"
  by (simp add: digit_value_def Let_def of_char_digit_char)

lemma parse_digits_append:
  "parse_digits acc (xs @ ys) = (case parse_digits acc xs of None \<Rightarrow> None | Some a \<Rightarrow> parse_digits a ys)"
  by (induction xs arbitrary: acc) (simp_all split: option.splits)

lemma parse_show_nat: "parse_digits 0 (show_nat n) = Some n"
proof (induction n rule: show_nat.induct)
  case (1 n)
  show ?case
  proof (cases "n < 10")
    case True
    then show ?thesis by (simp add: show_nat.simps [of n] digit_value_digit_char)
  next
    case False
    then show ?thesis
      using 1 by (simp add: show_nat.simps [of n] parse_digits_append digit_value_digit_char)
  qed
qed

text \<open>Printing and parsing an integer.\<close>

lemma strconv_Atoi_show_int: "in_int64 k \<Longrightarrow> strconv_Atoi (show_int k) = Inr k"
proof -
  assume k: "in_int64 k"
  have "hd (show_nat n) \<in> set (show_nat n)" for n by simp
  then obtain d where "d < 10" "hd (show_nat (nat k)) = digit_char d" using show_nat_chars by blast
  moreover have "digit_char d \<noteq> CHR ''+''" if "d < 10" for d
  proof
    assume "digit_char d = CHR ''+''"
    then have "(of_char (digit_char d) :: nat) = of_char (CHR ''+'')" by simp
    with that show False by (simp add: of_char_digit_char)
  qed
  ultimately have "hd (show_nat (nat k)) \<noteq> CHR ''-''" "hd (show_nat (nat k)) \<noteq> CHR ''+''"
    using digit_char_neq(1) by simp_all
  with k show ?thesis by (simp add: strconv_Atoi_def show_int_def Let_def parse_show_nat)
qed

end
