(* ===== verification/Resumption.thy ===== *)
theory Resumption
  imports OZ_Prelude
begin

text \<open>
  Programs over a shared world whose atomic actions other programs can interleave with. The services of
  control-plane run in several replicas and serve requests concurrently, and each of their operations is a
  sequence of calls to a database, to etcd and to Vault; every such call is one atomic action. An operation
  is therefore written once, as a resumption: it either returns, or it performs an action on the current
  world and continues. \<open>run\<close> is its execution without interference, \<open>conc_step\<close> interleaves a pool of
  them.

  The rules for \<open>guar\<close> establish what each single action of a program may do to the world, whatever the
  other programs did in between; \<open>conc_guar\<close> lifts it to every interleaving.
\<close>

section \<open>Programs\<close>

datatype ('w, 'a) prog = Ret 'a | Step "'w \<Rightarrow> ('w, 'a) prog \<times> 'w"

definition act :: "('w \<Rightarrow> 'a \<times> 'w) \<Rightarrow> ('w, 'a) prog" where
  "act f = Step (\<lambda>w. map_prod Ret id (f w))"

primrec bindP :: "('w, 'a) prog \<Rightarrow> ('a \<Rightarrow> ('w, 'b) prog) \<Rightarrow> ('w, 'b) prog" where
  "bindP (Ret a) k = k a"
| "bindP (Step f) k = Step (\<lambda>w. map_prod (\<lambda>p. bindP p k) id (f w))"

primrec run :: "('w, 'a) prog \<Rightarrow> 'w \<Rightarrow> 'a \<times> 'w" where
  "run (Ret a) = (\<lambda>w. (a, w))"
| "run (Step f) = (\<lambda>w. case map_prod run id (f w) of (g, w') \<Rightarrow> g w')"

text \<open>The continuation after a call that returned an error or a value.\<close>

definition bindE :: "('w, 'a result) prog \<Rightarrow> (go_error \<Rightarrow> ('w, 'b) prog) \<Rightarrow> ('a \<Rightarrow> ('w, 'b) prog) \<Rightarrow> ('w, 'b) prog" where
  "bindE p h k = bindP p (\<lambda>r. case r of Inl e \<Rightarrow> h e | Inr a \<Rightarrow> k a)"

text \<open>The continuation after a call that returns only an error.\<close>

definition bindO :: "('w, go_error option) prog \<Rightarrow> (go_error \<Rightarrow> ('w, 'b) prog) \<Rightarrow> ('w, 'b) prog \<Rightarrow> ('w, 'b) prog" where
  "bindO p h k = bindP p (\<lambda>r. case r of Some e \<Rightarrow> h e | None \<Rightarrow> k)"

lemma run_act [simp]: "run (act f) w = f w"
  by (cases "f w") (simp add: act_def)

lemma run_bindP [simp]: "run (bindP p k) w = (case run p w of (a, w') \<Rightarrow> run (k a) w')"
proof (induction p arbitrary: w)
  case (Step f)
  obtain p' w' where f: "f w = (p', w')" by fastforce
  then have "(p', w') \<in> range f" by (metis rangeI)
  with Step [of "f w" p'] f show ?case by simp
qed simp

lemma run_bindE [simp]:
  "run (bindE p h k) w = (case run p w of (Inl e, w') \<Rightarrow> run (h e) w' | (Inr a, w') \<Rightarrow> run (k a) w')"
  by (simp add: bindE_def split: prod.splits sum.splits)

lemma run_bindO [simp]:
  "run (bindO p h k) w = (case run p w of (Some e, w') \<Rightarrow> run (h e) w' | (None, w') \<Rightarrow> run k w')"
  by (simp add: bindO_def split: prod.splits option.splits)

section \<open>Interleaving\<close>

inductive conc_step ::
  "('w, 'a) prog list \<times> 'w \<Rightarrow> ('w, 'a) prog list \<times> 'w \<Rightarrow> bool" where
  conc_step: "i < length ps \<Longrightarrow> ps ! i = Step f \<Longrightarrow> f w = (p, w') \<Longrightarrow> conc_step (ps, w) (ps[i := p], w')"

inductive_cases conc_stepE: "conc_step (ps, w) c"

definition conc_reaches :: "('w, 'a) prog list \<times> 'w \<Rightarrow> ('w, 'a) prog list \<times> 'w \<Rightarrow> bool" where
  "conc_reaches = conc_step\<^sup>*\<^sup>*"

text \<open>An executable scheduler: the listed programs take one action each, in that order.\<close>

fun conc_run :: "nat list \<Rightarrow> ('w, 'a) prog list \<times> 'w \<Rightarrow> ('w, 'a) prog list \<times> 'w" where
  "conc_run [] c = c"
| "conc_run (i # is) (ps, w) =
     conc_run is
       (if i < length ps
        then (case ps ! i of Ret _ \<Rightarrow> (ps, w) | Step f \<Rightarrow> (case f w of (p, w') \<Rightarrow> (ps[i := p], w')))
        else (ps, w))"

lemma conc_run_reaches: "conc_reaches c (conc_run is c)"
proof (induction "is" c rule: conc_run.induct)
  case (2 i js ps w)
  let ?c = "if i < length ps
        then (case ps ! i of Ret _ \<Rightarrow> (ps, w) | Step f \<Rightarrow> (case f w of (p, w') \<Rightarrow> (ps[i := p], w')))
        else (ps, w)"
  have "conc_step\<^sup>*\<^sup>* (ps, w) ?c"
    by (auto split: prog.splits prod.splits intro!: r_into_rtranclp conc_step)
  with 2 show ?case by (simp add: conc_reaches_def)
qed (simp add: conc_reaches_def)

section \<open>Guarantees\<close>

inductive guar :: "('w \<Rightarrow> 'w \<Rightarrow> bool) \<Rightarrow> ('w, 'a) prog \<Rightarrow> bool" for G where
  guar_Ret: "guar G (Ret a)"
| guar_Step: "(\<And>w. G w (snd (f w))) \<Longrightarrow> (\<And>w. guar G (fst (f w))) \<Longrightarrow> guar G (Step f)"

inductive_cases guar_StepE: "guar G (Step f)"

declare guar_Ret [simp, intro]

lemma guar_act [intro]: "(\<And>w. G w (snd (f w))) \<Longrightarrow> guar G (act f)"
  unfolding act_def by (rule guar_Step) simp_all

text \<open>
  The continuation need only be safe for the values that the first program can return; \<open>returns\<close> is an
  upper bound of them, for any interference.
\<close>

inductive returns :: "('a \<Rightarrow> bool) \<Rightarrow> ('w, 'a) prog \<Rightarrow> bool" for P where
  returns_Ret: "P a \<Longrightarrow> returns P (Ret a)"
| returns_Step: "(\<And>w. returns P (fst (f w))) \<Longrightarrow> returns P (Step f)"

lemma returns_True [simp]: "returns (\<lambda>_. True) p"
proof (induction p)
  case (Step f)
  have "returns (\<lambda>_. True) (fst (f w))" for w
    using Step [of "f w" "fst (f w)"] by (cases "f w") (metis fsts.intros fst_conv rangeI)
  then show ?case by (rule returns_Step)
qed (simp add: returns_Ret)

lemma returns_act: "(\<And>w. P (fst (f w))) \<Longrightarrow> returns P (act f)"
  unfolding act_def by (rule returns_Step) (simp add: returns_Ret)

lemma guar_bindP_returns:
  "guar G p \<Longrightarrow> returns P p \<Longrightarrow> (\<And>a. P a \<Longrightarrow> guar G (k a)) \<Longrightarrow> guar G (bindP p k)"
proof (induction rule: guar.induct)
  case (guar_Ret a)
  then show ?case by (auto elim: returns.cases)
next
  case (guar_Step f)
  from guar_Step.prems(1) have r: "\<And>w. returns P (fst (f w))" by (auto elim: returns.cases)
  show ?case
    by (simp, rule guar.guar_Step) (simp_all add: guar_Step.hyps guar_Step.IH r guar_Step.prems(2))
qed

lemma guar_bindP [intro]: "guar G p \<Longrightarrow> (\<And>a. guar G (k a)) \<Longrightarrow> guar G (bindP p k)"
  by (rule guar_bindP_returns [where P = "\<lambda>_. True"]) simp_all

lemma guar_bindE: "guar G p \<Longrightarrow> (\<And>e. guar G (h e)) \<Longrightarrow> (\<And>a. guar G (k a)) \<Longrightarrow> guar G (bindE p h k)"
  unfolding bindE_def by (rule guar_bindP) (simp_all split: sum.splits)

lemma guar_bindE_returns:
  "guar G p \<Longrightarrow> returns (\<lambda>r. \<forall>a. r = Inr a \<longrightarrow> P a) p \<Longrightarrow> (\<And>e. guar G (h e)) \<Longrightarrow> (\<And>a. P a \<Longrightarrow> guar G (k a)) \<Longrightarrow>
     guar G (bindE p h k)"
  unfolding bindE_def
  by (rule guar_bindP_returns [where P = "\<lambda>r. \<forall>a. r = Inr a \<longrightarrow> P a"]) (auto split: sum.splits)

lemma guar_bindO: "guar G p \<Longrightarrow> (\<And>e. guar G (h e)) \<Longrightarrow> guar G k \<Longrightarrow> guar G (bindO p h k)"
  unfolding bindO_def by (rule guar_bindP) (simp_all split: option.splits)

lemma guar_mono: "guar G p \<Longrightarrow> (\<And>w w'. G w w' \<Longrightarrow> H w w') \<Longrightarrow> guar H p"
  by (induction rule: guar.induct) (auto intro: guar.intros)

text \<open>If every program of the pool guarantees \<open>G\<close>, every interleaving goes through worlds related by \<open>G\<close>.\<close>

lemma conc_guar_step:
  assumes "conc_step (ps, w) (ps', w')" "\<forall>p \<in> set ps. guar G p"
  shows "G w w' \<and> (\<forall>p \<in> set ps'. guar G p)"
proof -
  from assms(1) obtain i f p where s: "i < length ps" "ps ! i = Step f" "f w = (p, w')" "ps' = ps[i := p]"
    by (auto elim: conc_stepE)
  have "guar G (Step f)" using assms(2) s(1,2) by (metis nth_mem)
  then have "G w (snd (f w))" "guar G (fst (f w))" by (auto elim: guar_StepE)
  with s assms(2) show ?thesis
    using set_update_subset_insert [of ps i p] by auto
qed

lemma conc_guar:
  assumes "conc_reaches (ps, w) (ps', w')" "\<forall>p \<in> set ps. guar G p"
  shows "G\<^sup>*\<^sup>* w w' \<and> (\<forall>p \<in> set ps'. guar G p)"
  using assms(1) unfolding conc_reaches_def
proof (induction rule: rtranclp_induct2)
  case refl
  then show ?case using assms(2) by simp
next
  case (step ps1 w1 ps2 w2)
  then show ?case using conc_guar_step [of ps1 w1 ps2 w2 G] by (auto intro: rtranclp.rtrancl_into_rtrancl)
qed

text \<open>Running a program alone is one of the interleavings.\<close>

lemma run_guar: "guar G p \<Longrightarrow> G\<^sup>*\<^sup>* w (snd (run p w))"
proof (induction arbitrary: w rule: guar.induct)
  case (guar_Step f)
  have "G\<^sup>*\<^sup>* w (snd (f w))" using guar_Step(1) by blast
  moreover have "G\<^sup>*\<^sup>* (snd (f w)) (snd (run (fst (f w)) (snd (f w))))" using guar_Step.IH by blast
  ultimately show ?case by (cases "f w") simp
qed simp

end
