(* ===== verification/Json.thy ===== *)
theory Json
  imports OZ_Prelude
begin

text \<open>
  The package \<^verbatim>\<open>encoding/json\<close> as far as the services use it: \<^verbatim>\<open>json.Valid\<close>, the text that \<^verbatim>\<open>Marshal\<close> writes for strings, integers, lists and
  structs, and the values that \<^verbatim>\<open>Unmarshal\<close> reads, with its treatment of UTF-8, its escapes and its limit on nesting. Numbers are kept as
  literals. The main result is that reading a printed value gives it back.
\<close>

section \<open>Model\<close>

abbreviation byte :: "char \<Rightarrow> nat" where
  "byte c \<equiv> of_char c"

subsection \<open>UTF-8\<close>

text \<open>
  The length of the encoded rune at the head of a string, as \<^verbatim>\<open>utf8.DecodeRune\<close> accepts it; 0 stands for an invalid byte, which Go
  reports as \<^verbatim>\<open>RuneError\<close> of width 1.
\<close>

definition cont_byte :: "char \<Rightarrow> bool" where
  "cont_byte c \<longleftrightarrow> 128 \<le> byte c \<and> byte c \<le> 191"

definition second_byte :: "char \<Rightarrow> char \<Rightarrow> bool" where
  "second_byte a b \<longleftrightarrow>
     (if byte a = 224 then 160 \<le> byte b \<and> byte b \<le> 191
      else if byte a = 237 then 128 \<le> byte b \<and> byte b \<le> 159
      else if byte a = 240 then 144 \<le> byte b \<and> byte b \<le> 191
      else if byte a = 244 then 128 \<le> byte b \<and> byte b \<le> 143
      else cont_byte b)"

definition utf8_width :: "char \<Rightarrow> nat" where
  "utf8_width a =
     (if byte a < 128 then 1 else if byte a < 194 then 0 else if byte a < 224 then 2 else if byte a < 240 then 3
      else if byte a < 245 then 4 else 0)"

definition utf8_size :: "string \<Rightarrow> nat" where
  "utf8_size s =
     (case s of
        [] \<Rightarrow> 0
      | a # r \<Rightarrow>
          (let n = utf8_width a
           in if n \<le> 1 then n
              else if n \<le> length s \<and> second_byte a (hd r) \<and> (\<forall>b \<in> set (take (n - 2) (tl r)). cont_byte b) then n else 0))"

lemma utf8_size_le: "utf8_size s \<le> length s"
  by (cases s) (auto simp: utf8_size_def Let_def utf8_width_def)

function utf8_valid :: "string \<Rightarrow> bool" where
  "utf8_valid s = (if s = [] then True else if utf8_size s = 0 then False else utf8_valid (drop (utf8_size s) s))"
  by auto

termination
  by (relation "measure length") auto

declare utf8_valid.simps [simp del]

text \<open>\<^verbatim>\<open>utf8.EncodeRune\<close> on a code point that is not a surrogate.\<close>

definition EncodeRune :: "nat \<Rightarrow> string" where
  "EncodeRune r =
     (if r < 128 then [char_of r]
      else if r < 2048 then [char_of (192 + r div 64), char_of (128 + r mod 64)]
      else if r < 65536 then [char_of (224 + r div 4096), char_of (128 + r div 64 mod 64), char_of (128 + r mod 64)]
      else [char_of (240 + r div 262144), char_of (128 + r div 4096 mod 64), char_of (128 + r div 64 mod 64), char_of (128 + r mod 64)])"

definition RuneError :: nat where "RuneError = 65533"

subsection \<open>Strings\<close>

definition hex_digit :: "nat \<Rightarrow> char" where
  "hex_digit d = (if d < 10 then char_of (48 + d) else char_of (87 + d))"

definition unhex :: "char \<Rightarrow> nat option" where
  "unhex c =
     (if 48 \<le> byte c \<and> byte c \<le> 57 then Some (byte c - 48)
      else if 97 \<le> byte c \<and> byte c \<le> 102 then Some (byte c - 87)
      else if 65 \<le> byte c \<and> byte c \<le> 70 then Some (byte c - 55) else None)"

abbreviation quote_char :: char where "quote_char \<equiv> CHR 0x22"
abbreviation backslash :: char where "backslash \<equiv> CHR 0x5C"

text \<open>The bytes below 128 that are written as they are, with HTML escaping on.\<close>

definition htmlSafe :: "char \<Rightarrow> bool" where
  "htmlSafe c \<longleftrightarrow> 32 \<le> byte c \<and> c \<notin> {quote_char, backslash, CHR ''<'', CHR ''>'', CHR ''&''}"

definition escape_byte :: "char \<Rightarrow> string" where
  "escape_byte c =
     (if c = backslash \<or> c = quote_char then [backslash, c]
      else if byte c = 8 then [backslash, CHR ''b'']
      else if byte c = 12 then [backslash, CHR ''f'']
      else if byte c = 10 then [backslash, CHR ''n'']
      else if byte c = 13 then [backslash, CHR ''r'']
      else if byte c = 9 then [backslash, CHR ''t'']
      else backslash # ''u00'' @ [hex_digit (byte c div 16), hex_digit (byte c mod 16)])"

function quote_body :: "string \<Rightarrow> string" where
  "quote_body s =
     (case s of
        [] \<Rightarrow> []
      | a # r \<Rightarrow>
          if byte a < 128 then (if htmlSafe a then [a] else escape_byte a) @ quote_body r
          else if utf8_size s = 0 then backslash # ''ufffd'' @ quote_body r
          else
            (let rune = take (utf8_size s) s
             in (if map byte rune = [226, 128, 168] then backslash # ''u2028''
                 else if map byte rune = [226, 128, 169] then backslash # ''u2029'' else rune)
                @ quote_body (drop (utf8_size s) s)))"
  by pat_completeness auto

termination
  by (relation "measure length") (auto simp: utf8_size_def)

declare quote_body.simps [simp del]

definition json_string :: "string \<Rightarrow> string" where
  "json_string s = quote_char # quote_body s @ [quote_char]"

text \<open>Four hexadecimal digits after a backslash and a \<^verbatim>\<open>u\<close>.\<close>

fun getu4 :: "string \<Rightarrow> (nat \<times> string) option" where
  "getu4 (a # b # c # d # r) =
     (case (unhex a, unhex b, unhex c, unhex d) of
        (Some h, Some i, Some j, Some k) \<Rightarrow> Some (h * 4096 + i * 256 + j * 16 + k, r)
      | _ \<Rightarrow> None)"
| "getu4 _ = None"

text \<open>The second half of a surrogate pair, if it follows.\<close>

definition getu4_escape :: "string \<Rightarrow> (nat \<times> string) option" where
  "getu4_escape s = (case s of a # b # r \<Rightarrow> if a = backslash \<and> b = CHR ''u'' then getu4 r else None | _ \<Rightarrow> None)"

definition unicode_escape :: "string \<Rightarrow> (string \<times> string) option" where
  "unicode_escape s =
     (case getu4 s of
        None \<Rightarrow> None
      | Some (rr, r) \<Rightarrow>
          if 55296 \<le> rr \<and> rr < 57344 then
            (case getu4_escape r of
               Some (rr1, r1) \<Rightarrow>
                 if rr < 56320 \<and> 56320 \<le> rr1 \<and> rr1 < 57344
                 then Some (EncodeRune ((rr - 55296) * 1024 + (rr1 - 56320) + 65536), r1) else Some (EncodeRune RuneError, r)
             | None \<Rightarrow> Some (EncodeRune RuneError, r))
          else Some (EncodeRune rr, r))"

definition simple_escape :: "char \<Rightarrow> char option" where
  "simple_escape c =
     (if c = quote_char \<or> c = backslash \<or> c = CHR ''/'' then Some c
      else if c = CHR ''b'' then Some (char_of (8 :: nat)) else if c = CHR ''f'' then Some (char_of (12 :: nat))
      else if c = CHR ''n'' then Some (char_of (10 :: nat)) else if c = CHR ''r'' then Some (char_of (13 :: nat))
      else if c = CHR ''t'' then Some (char_of (9 :: nat)) else None)"

lemma getu4_length: "getu4 s = Some (n, r) \<Longrightarrow> length r < length s"
  by (cases s rule: getu4.cases) (auto split: option.splits)

lemma unicode_escape_length: "unicode_escape s = Some (t, r) \<Longrightarrow> length r < length s"
  by (force simp: unicode_escape_def getu4_escape_def split: option.splits prod.splits if_splits list.splits dest: getu4_length)

text \<open>The rest of a string literal after its opening quote: its value and what follows it.\<close>

definition prepend :: "string \<Rightarrow> (string \<times> 'r) option \<Rightarrow> (string \<times> 'r) option" where
  "prepend t = map_option (\<lambda>(v, r). (t @ v, r))"

function unquote :: "string \<Rightarrow> (string \<times> string) option" where
  "unquote s =
     (case s of
        [] \<Rightarrow> None
      | a # r \<Rightarrow>
          if a = quote_char then Some ([], r)
          else if a = backslash then
            (case r of
               [] \<Rightarrow> None
             | c # r1 \<Rightarrow>
                 if c = CHR ''u'' then (case unicode_escape r1 of None \<Rightarrow> None | Some (t, r2) \<Rightarrow> prepend t (unquote r2))
                 else (case simple_escape c of None \<Rightarrow> None | Some x \<Rightarrow> prepend [x] (unquote r1)))
          else if byte a < 32 then None
          else if utf8_size s = 0 then prepend (EncodeRune RuneError) (unquote r)
          else prepend (take (utf8_size s) s) (unquote (drop (utf8_size s) s)))"
  by pat_completeness auto

termination
  by (relation "measure length") (auto dest: unicode_escape_length)

declare unquote.simps [simp del]

subsection \<open>Numbers\<close>

definition is_digit :: "char \<Rightarrow> bool" where
  "is_digit c \<longleftrightarrow> 48 \<le> byte c \<and> byte c \<le> 57"

definition digits1 :: "string \<Rightarrow> (string \<times> string) option" where
  "digits1 s = (let ds = takeWhile is_digit s in if ds = [] then None else Some (ds, drop (length ds) s))"

definition scan_int :: "string \<Rightarrow> (string \<times> string) option" where
  "scan_int s = (case s of c # r \<Rightarrow> if c = CHR ''0'' then Some ([c], r) else digits1 s | [] \<Rightarrow> None)"

definition scan_sign :: "char set \<Rightarrow> string \<Rightarrow> string \<times> string" where
  "scan_sign cs s = (case s of c # r \<Rightarrow> if c \<in> cs then ([c], r) else ([], s) | [] \<Rightarrow> ([], []))"

definition scan_frac :: "string \<Rightarrow> (string \<times> string) option" where
  "scan_frac s = (case s of c # r \<Rightarrow> if c = CHR ''.'' then prepend [c] (digits1 r) else Some ([], s) | [] \<Rightarrow> Some ([], []))"

definition scan_exp :: "string \<Rightarrow> (string \<times> string) option" where
  "scan_exp s =
     (case s of
        c # r \<Rightarrow>
          if c = CHR ''e'' \<or> c = CHR ''E'' then (case scan_sign {CHR ''+'', CHR ''-''} r of (sg, r1) \<Rightarrow> prepend (c # sg) (digits1 r1))
          else Some ([], s)
      | [] \<Rightarrow> Some ([], []))"

definition scan_number :: "string \<Rightarrow> (string \<times> string) option" where
  "scan_number s =
     (case scan_sign {CHR ''-''} s of
        (sg, s0) \<Rightarrow>
          (case scan_int s0 of
             None \<Rightarrow> None
           | Some (i, s1) \<Rightarrow>
               (case scan_frac s1 of
                  None \<Rightarrow> None
                | Some (f, s2) \<Rightarrow> (case scan_exp s2 of None \<Rightarrow> None | Some (e, s3) \<Rightarrow> Some (sg @ i @ f @ e, s3)))))"

subsection \<open>Values\<close>

datatype json =
    JsonNull
  | JsonBool bool
  | JsonNum string
  | JsonStr string
  | JsonArr "json list"
  | JsonObj "(string \<times> json) list"

definition skip_ws :: "string \<Rightarrow> string" where
  "skip_ws = dropWhile (\<lambda>c. byte c \<in> {32, 9, 13, 10})"

definition scan_literal :: "string \<Rightarrow> json \<Rightarrow> string \<Rightarrow> (json \<times> string) option" where
  "scan_literal lit v s = (if strings_HasPrefix s lit then Some (v, drop (length lit) s) else None)"

text \<open>
  The parser. \<open>d\<close> is how many more levels of nesting are allowed; the first argument is fuel, of which one more than the length
  of the text is always enough (\<open>parse_fuel\<close>).
\<close>

fun parse_value :: "nat \<Rightarrow> nat \<Rightarrow> string \<Rightarrow> (json \<times> string) option"
  and parse_elems :: "nat \<Rightarrow> nat \<Rightarrow> string \<Rightarrow> (json list \<times> string) option"
  and parse_members :: "nat \<Rightarrow> nat \<Rightarrow> string \<Rightarrow> ((string \<times> json) list \<times> string) option" where
  "parse_value 0 d s = None"
| "parse_value (Suc n) d s =
     (case skip_ws s of
        [] \<Rightarrow> None
      | c # r \<Rightarrow>
          if c = quote_char then map_option (\<lambda>(t, r1). (JsonStr t, r1)) (unquote r)
          else if c = CHR ''['' then
            if d = 0 then None
            else (case skip_ws r of
                    [] \<Rightarrow> None
                  | e # r1 \<Rightarrow> if e = CHR '']'' then Some (JsonArr [], r1)
                              else map_option (\<lambda>(vs, r2). (JsonArr vs, r2)) (parse_elems n (d - 1) r))
          else if c = CHR ''{'' then
            if d = 0 then None
            else (case skip_ws r of
                    [] \<Rightarrow> None
                  | e # r1 \<Rightarrow> if e = CHR ''}'' then Some (JsonObj [], r1)
                              else map_option (\<lambda>(ms, r2). (JsonObj ms, r2)) (parse_members n (d - 1) r))
          else if c = CHR ''n'' then scan_literal ''null'' JsonNull (c # r)
          else if c = CHR ''t'' then scan_literal ''true'' (JsonBool True) (c # r)
          else if c = CHR ''f'' then scan_literal ''false'' (JsonBool False) (c # r)
          else map_option (\<lambda>(lit, r1). (JsonNum lit, r1)) (scan_number (c # r)))"
| "parse_elems 0 d s = None"
| "parse_elems (Suc n) d s =
     (case parse_value n d s of
        None \<Rightarrow> None
      | Some (v, r) \<Rightarrow>
          (case skip_ws r of
             [] \<Rightarrow> None
           | c # r1 \<Rightarrow>
               if c = CHR '','' then map_option (\<lambda>(vs, r2). (v # vs, r2)) (parse_elems n d r1)
               else if c = CHR '']'' then Some ([v], r1) else None))"
| "parse_members 0 d s = None"
| "parse_members (Suc n) d s =
     (case skip_ws s of
        [] \<Rightarrow> None
      | q # r0 \<Rightarrow>
          if q \<noteq> quote_char then None
          else
            (case unquote r0 of
               None \<Rightarrow> None
             | Some (k, r) \<Rightarrow>
                 (case skip_ws r of
                    [] \<Rightarrow> None
                  | c # r1 \<Rightarrow>
                      if c \<noteq> CHR '':'' then None
                      else
                        (case parse_value n d r1 of
                           None \<Rightarrow> None
                         | Some (v, r2) \<Rightarrow>
                             (case skip_ws r2 of
                                [] \<Rightarrow> None
                              | e # r3 \<Rightarrow>
                                  if e = CHR '','' then map_option (\<lambda>(ms, r4). ((k, v) # ms, r4)) (parse_members n d r3)
                                  else if e = CHR ''}'' then Some ([(k, v)], r3) else None)))))"

definition maxNestingDepth :: nat where "maxNestingDepth = 10000"

definition json_parse :: "string \<Rightarrow> json option" where
  "json_parse s =
     (case parse_value (2 * length s + 2) maxNestingDepth s of
        Some (v, r) \<Rightarrow> if skip_ws r = [] then Some v else None
      | None \<Rightarrow> None)"

definition json_Valid :: "string \<Rightarrow> bool" where
  "json_Valid s \<longleftrightarrow> json_parse s \<noteq> None"

text \<open>What \<^verbatim>\<open>Marshal\<close> writes.\<close>

fun json_print :: "json \<Rightarrow> string" where
  "json_print JsonNull = ''null''"
| "json_print (JsonBool b) = (if b then ''true'' else ''false'')"
| "json_print (JsonNum lit) = lit"
| "json_print (JsonStr s) = json_string s"
| "json_print (JsonArr vs) = ''['' @ strings_Join (map json_print vs) '','' @ '']''"
| "json_print (JsonObj ms) = ''{'' @ strings_Join (map (\<lambda>(k, v). json_string k @ '':'' @ json_print v) ms) '','' @ ''}''"

subsection \<open>Structs\<close>

text \<open>
  The keys of an object are matched to the fields of a struct up to case. Two runes beyond ASCII, the long s and the Kelvin sign,
  fold to ASCII letters; the names of fields are ASCII.
\<close>

definition ascii_upper :: "char \<Rightarrow> char" where
  "ascii_upper c = (if 97 \<le> byte c \<and> byte c \<le> 122 then char_of (byte c - 32) else c)"

fun foldName :: "string \<Rightarrow> string" where
  "foldName [] = []"
| "foldName (a # r) =
     (if byte a = 197 \<and> map byte (take 1 r) = [191] then CHR ''S'' # foldName (drop 1 r)
      else if byte a = 226 \<and> map byte (take 2 r) = [132, 170] then CHR ''K'' # foldName (drop 2 r)
      else ascii_upper a # foldName r)"

declare foldName.simps [simp del]

fun json_kind :: "json \<Rightarrow> string" where
  "json_kind JsonNull = ''null''"
| "json_kind (JsonBool b) = ''bool''"
| "json_kind (JsonNum lit) = ''number''"
| "json_kind (JsonStr s) = ''string''"
| "json_kind (JsonArr vs) = ''array''"
| "json_kind (JsonObj ms) = ''object''"

text \<open>
  A decoder stores a value over an old one, as \<^verbatim>\<open>Unmarshal\<close> does into a pointer. A null leaves strings, numbers and structs alone. After an error
  Go goes on with the other fields and returns the first error, and so the result is that error. Its text is modelled without the
  path of the field.
\<close>

type_synonym 'a json_dec = "json \<Rightarrow> 'a \<Rightarrow> 'a result"

definition type_error :: "string \<Rightarrow> string \<Rightarrow> go_error" where
  "type_error goType val = ErrorString (''json: cannot unmarshal '' @ val @ '' into Go value of type '' @ goType)"

definition dec_string :: "string \<Rightarrow> string json_dec" where
  "dec_string goType v x =
     (case v of JsonNull \<Rightarrow> Inr x | JsonStr s \<Rightarrow> Inr s | _ \<Rightarrow> Inl (type_error goType (json_kind v)))"

definition dec_int :: "string \<Rightarrow> (int \<Rightarrow> bool) \<Rightarrow> int json_dec" where
  "dec_int goType fits v x =
     (case v of
        JsonNull \<Rightarrow> Inr x
      | JsonNum lit \<Rightarrow>
          (case strconv_Atoi lit of
             Inr k \<Rightarrow> if fits k then Inr k else Inl (type_error goType (''number '' @ lit))
           | Inl _ \<Rightarrow> Inl (type_error goType (''number '' @ lit)))
      | _ \<Rightarrow> Inl (type_error goType (json_kind v)))"

text \<open>A pointer is nil after a null; otherwise what it points to is decoded, a new zero value if it was nil.\<close>

definition dec_ptr :: "'a json_dec \<Rightarrow> 'a \<Rightarrow> 'a option json_dec" where
  "dec_ptr dec zero v x =
     (case v of
        JsonNull \<Rightarrow> Inr None
      | _ \<Rightarrow> (case dec v (case x of None \<Rightarrow> zero | Some y \<Rightarrow> y) of Inl e \<Rightarrow> Inl e | Inr y \<Rightarrow> Inr (Some y)))"

text \<open>
  The elements of a slice are decoded over the old ones as far as there are any. What a shortened slice leaves behind in its capacity,
  which only a third member of the same name could bring back, is not modelled.
\<close>

fun dec_elems :: "'a json_dec \<Rightarrow> 'a \<Rightarrow> json list \<Rightarrow> 'a list \<Rightarrow> 'a list result" where
  "dec_elems dec zero [] xs = Inr []"
| "dec_elems dec zero (v # vs) xs =
     (case dec v (case xs of [] \<Rightarrow> zero | x # _ \<Rightarrow> x) of
        Inl e \<Rightarrow> Inl e
      | Inr y \<Rightarrow> (case dec_elems dec zero vs (tl xs) of Inl e \<Rightarrow> Inl e | Inr ys \<Rightarrow> Inr (y # ys)))"

definition dec_slice :: "string \<Rightarrow> 'a json_dec \<Rightarrow> 'a \<Rightarrow> 'a list json_dec" where
  "dec_slice goType dec zero v xs =
     (case v of JsonNull \<Rightarrow> Inr [] | JsonArr vs \<Rightarrow> dec_elems dec zero vs xs | _ \<Rightarrow> Inl (type_error goType (json_kind v)))"

text \<open>A field of a struct: its name and how a value is stored in it.\<close>

type_synonym 'r json_field = "string \<times> 'r json_dec"

definition in_field :: "string \<Rightarrow> 'a json_dec \<Rightarrow> ('r \<Rightarrow> 'a) \<Rightarrow> ('a \<Rightarrow> 'r \<Rightarrow> 'r) \<Rightarrow> 'r json_field" where
  "in_field name dec get upd = (name, \<lambda>v r. case dec v (get r) of Inl e \<Rightarrow> Inl e | Inr x \<Rightarrow> Inr (upd x r))"

fun dec_members :: "'r json_field list \<Rightarrow> (string \<times> json) list \<Rightarrow> 'r \<Rightarrow> 'r result" where
  "dec_members fields [] r = Inr r"
| "dec_members fields ((k, v) # ms) r =
     (case find (\<lambda>f. foldName (fst f) = foldName k) fields of
        None \<Rightarrow> dec_members fields ms r
      | Some f \<Rightarrow> (case snd f v r of Inl e \<Rightarrow> Inl e | Inr r1 \<Rightarrow> dec_members fields ms r1))"

definition dec_struct :: "string \<Rightarrow> 'r json_field list \<Rightarrow> 'r json_dec" where
  "dec_struct goType fields v r =
     (case v of JsonNull \<Rightarrow> Inr r | JsonObj ms \<Rightarrow> dec_members fields ms r | _ \<Rightarrow> Inl (type_error goType (json_kind v)))"

definition json_Unmarshal :: "'a json_dec \<Rightarrow> 'a \<Rightarrow> string \<Rightarrow> 'a result" where
  "json_Unmarshal dec zero data =
     (case json_parse data of None \<Rightarrow> Inl (Sentinel ''json'' ''syntax error'') | Some v \<Rightarrow> dec v zero)"

section \<open>Facts\<close>

subsection \<open>Reading consumes\<close>

lemma prepend_Some: "prepend t o1 = Some (v, r) \<longleftrightarrow> (\<exists>v1. o1 = Some (v1, r) \<and> v = t @ v1)"
  by (auto simp: prepend_def)

lemma unquote_step:
  "unquote [] = None"
  "unquote (quote_char # r) = Some ([], r)"
  "unquote [backslash] = None"
  "unquote (backslash # CHR ''u'' # r) = (case unicode_escape r of None \<Rightarrow> None | Some (t, r2) \<Rightarrow> prepend t (unquote r2))"
  "c \<noteq> CHR ''u'' \<Longrightarrow> unquote (backslash # c # r) = (case simple_escape c of None \<Rightarrow> None | Some x \<Rightarrow> prepend [x] (unquote r))"
  by (subst unquote.simps; simp)+

lemma unquote_plain:
  assumes "a \<noteq> quote_char" "a \<noteq> backslash"
  shows "unquote (a # r) =
    (if byte a < 32 then None
     else if utf8_size (a # r) = 0 then prepend (EncodeRune RuneError) (unquote r)
     else prepend (take (utf8_size (a # r)) (a # r)) (unquote (drop (utf8_size (a # r)) (a # r))))"
  using assms by (subst unquote.simps) simp

lemma unquote_length: "unquote s = Some (t, r) \<Longrightarrow> length r < length s"
proof (induction "length s" arbitrary: s t r rule: less_induct)
  case less
  show ?case
  proof (cases s)
    case Nil
    with less.prems show ?thesis by (simp add: unquote_step)
  next
    case (Cons a s1)
    consider "a = quote_char" | c r1 where "a = backslash" "s1 = c # r1" | "a = backslash" "s1 = []" | "a \<noteq> quote_char" "a \<noteq> backslash"
      by (cases s1) auto
    then show ?thesis
    proof cases
      case (2 c r1)
      show ?thesis
      proof (cases "c = CHR ''u''")
        case True
        with less.prems 2 Cons obtain x r2 t1 where u: "unicode_escape r1 = Some (x, r2)" "unquote r2 = Some (t1, r)"
          by (auto simp: unquote_step prepend_Some split: option.splits)
        with less.hyps [OF _ u(2)] unicode_escape_length [OF u(1)] 2 Cons show ?thesis by simp
      next
        case False
        with less.prems 2 Cons obtain t1 where "unquote r1 = Some (t1, r)"
          by (auto simp: unquote_step prepend_Some split: option.splits)
        with less.hyps [of r1 t1 r] 2 Cons show ?thesis by simp
      qed
    next
      case 4
      with less.prems Cons obtain n t1 where "0 < n" "unquote (drop n s) = Some (t1, r)"
        by (auto simp: unquote_plain prepend_Some split: if_splits) (metis drop0 drop_Suc_Cons zero_less_Suc)
      with less.hyps [of "drop n s" t1 r] Cons show ?thesis by simp
    qed (use less.prems Cons in \<open>auto simp: unquote_step\<close>)
  qed
qed

lemma digits1_Some: "digits1 s = Some (ds, r) \<longleftrightarrow> ds = takeWhile is_digit s \<and> r = dropWhile is_digit s \<and> ds \<noteq> []"
  by (auto simp: digits1_def Let_def dropWhile_eq_drop)

lemma scan_parts:
  "scan_sign cs s = (a, r) \<Longrightarrow> s = a @ r"
  "scan_int s = Some (a, r) \<Longrightarrow> s = a @ r \<and> a \<noteq> []"
  "scan_frac s = Some (a, r) \<Longrightarrow> s = a @ r"
  "scan_exp s = Some (a, r) \<Longrightarrow> s = a @ r"
proof -
  show sign: "scan_sign cs s = (a, r) \<Longrightarrow> s = a @ r" for cs s a r by (auto simp: scan_sign_def split: list.splits if_splits)
  have d: "digits1 s = Some (a, r) \<Longrightarrow> s = a @ r \<and> a \<noteq> []" for s a r
    unfolding digits1_Some by (metis takeWhile_dropWhile_id)
  show "scan_int s = Some (a, r) \<Longrightarrow> s = a @ r \<and> a \<noteq> []"
    by (auto simp: scan_int_def split: list.splits if_splits dest: d)
  show "scan_frac s = Some (a, r) \<Longrightarrow> s = a @ r"
    by (auto simp: scan_frac_def prepend_Some split: list.splits if_splits dest: d)
  show "scan_exp s = Some (a, r) \<Longrightarrow> s = a @ r"
    by (auto simp: scan_exp_def prepend_Some split: list.splits if_splits prod.splits dest!: d sign)
qed

lemma scan_number_split: "scan_number s = Some (l, r) \<Longrightarrow> s = l @ r \<and> l \<noteq> []"
  by (auto simp: scan_number_def split: prod.splits option.splits dest!: scan_parts)

lemma skip_ws_length: "length (skip_ws s) \<le> length s"
  by (simp add: skip_ws_def length_dropWhile_le)

lemma skip_ws_Cons: "skip_ws s = c # r \<Longrightarrow> length r < length s"
  using skip_ws_length [of s] by simp

lemma parse_lengths:
  "(\<forall>d s v r. parse_value n d s = Some (v, r) \<longrightarrow> length r < length s) \<and>
   (\<forall>d s vs r. parse_elems n d s = Some (vs, r) \<longrightarrow> length r < length s) \<and>
   (\<forall>d s ms r. parse_members n d s = Some (ms, r) \<longrightarrow> length r < length s)"
proof (induction n)
  case (Suc n)
  then have v: "parse_value n d s = Some (v, r) \<Longrightarrow> length r < length s"
    and e: "parse_elems n d s = Some (vs, r) \<Longrightarrow> length r < length s"
    and m: "parse_members n d s = Some (ms, r) \<Longrightarrow> length r < length s" for d s v vs ms r by blast+
  have num: "scan_number t = Some (lit, x) \<Longrightarrow> length x < length t" for t lit x using scan_number_split by fastforce
  note drops = skip_ws_Cons unquote_length num v e m
  show ?case
    by (intro conjI allI impI; simp only: parse_value.simps parse_elems.simps parse_members.simps)
      (force simp: scan_literal_def split: list.splits if_splits option.splits prod.splits dest!: drops)+
qed simp

lemmas parse_value_length = parse_lengths [THEN conjunct1, rule_format]
lemmas parse_elems_length = parse_lengths [THEN conjunct2, THEN conjunct1, rule_format]
lemmas parse_members_length = parse_lengths [THEN conjunct2, THEN conjunct2, rule_format]

text \<open>Enough fuel: beyond twice the length of the text, the result does not depend on it.\<close>

lemma parse_fuel_Suc:
  "(\<forall>d s. 2 * length s < n \<longrightarrow> parse_value (Suc n) d s = parse_value n d s) \<and>
   (\<forall>d s. Suc (2 * length s) < n \<longrightarrow> parse_elems (Suc n) d s = parse_elems n d s) \<and>
   (\<forall>d s. Suc (2 * length s) < n \<longrightarrow> parse_members (Suc n) d s = parse_members n d s)"
proof (induction n)
  case (Suc n)
  then have v: "2 * length s < n \<Longrightarrow> parse_value (Suc n) d s = parse_value n d s"
    and e: "Suc (2 * length s) < n \<Longrightarrow> parse_elems (Suc n) d s = parse_elems n d s"
    and m: "Suc (2 * length s) < n \<Longrightarrow> parse_members (Suc n) d s = parse_members n d s" for d s by blast+
  have val: "parse_value (Suc (Suc n)) d s = parse_value (Suc n) d s" if "2 * length s < Suc n" for d s
  proof (cases "skip_ws s")
    case (Cons c r)
    with that have "Suc (2 * length r) < n" using skip_ws_Cons [OF Cons] by linarith
    from e [OF this] m [OF this] Cons show ?thesis by (simp only: parse_value.simps list.case)
  qed simp
  have elems: "parse_elems (Suc (Suc n)) d s = parse_elems (Suc n) d s" if len: "Suc (2 * length s) < Suc n" for d s
  proof -
    have "parse_elems (Suc n) d r1 = parse_elems n d r1" if "parse_value n d s = Some (x, r)" "skip_ws r = c # r1" for x r c r1
      using parse_value_length [OF that(1)] skip_ws_Cons [OF that(2)] len by (intro e) linarith
    moreover have "parse_value (Suc n) d s = parse_value n d s" using len by (intro v) linarith
    ultimately show ?thesis
      by (simp only: parse_elems.simps(2)) (auto simp del: parse_value.simps parse_elems.simps split: option.splits list.splits)
  qed
  have members: "parse_members (Suc (Suc n)) d s = parse_members (Suc n) d s" if len: "Suc (2 * length s) < Suc n" for d s
  proof -
    have "parse_value (Suc n) d r1 = parse_value n d r1"
      if "skip_ws s = q # r0" "unquote r0 = Some (k, r)" "skip_ws r = c # r1" for q r0 k r c r1
      using skip_ws_Cons [OF that(1)] unquote_length [OF that(2)] skip_ws_Cons [OF that(3)] len by (intro v) linarith
    moreover have "parse_members (Suc n) d r3 = parse_members n d r3"
      if "skip_ws s = q # r0" "unquote r0 = Some (k, r)" "skip_ws r = c # r1" "parse_value n d r1 = Some (x, r2)" "skip_ws r2 = f # r3"
      for q r0 k r c r1 x r2 f r3
      using skip_ws_Cons [OF that(1)] unquote_length [OF that(2)] skip_ws_Cons [OF that(3)] parse_value_length [OF that(4)]
        skip_ws_Cons [OF that(5)] len by (intro m) linarith
    ultimately show ?thesis
      by (simp only: parse_members.simps(2)) (auto simp del: parse_value.simps parse_members.simps split: option.splits list.splits)
  qed
  from val elems members show ?case by blast
qed simp

lemma parse_fuel:
  assumes "2 * length s < n" "n \<le> m"
  shows "parse_value m d s = parse_value n d s"
  using assms(2)
proof (induction m rule: dec_induct)
  case (step m)
  with assms(1) parse_fuel_Suc [of m] show ?case by simp
qed simp

subsection \<open>Strings\<close>

lemma byte_lt: "byte c < 256"
  by (rule nat_of_char_less_256)

lemma unhex_hex_digit: "d < 16 \<Longrightarrow> unhex (hex_digit d) = Some d"
  by (auto simp: unhex_def hex_digit_def)

lemma EncodeRune_ascii: "byte c < 128 \<Longrightarrow> EncodeRune (byte c) = [c]"
  by (simp add: EncodeRune_def)

lemma unquote_escape_byte:
  assumes "byte c < 128" "\<not> htmlSafe c"
  shows "unquote (escape_byte c @ r) = prepend [c] (unquote r)"
proof -
  consider "c = backslash \<or> c = quote_char" | "byte c = 8" | "byte c = 12" | "byte c = 10" | "byte c = 13" | "byte c = 9"
    | "escape_byte c = backslash # ''u00'' @ [hex_digit (byte c div 16), hex_digit (byte c mod 16)]"
    by (cases "c = backslash \<or> c = quote_char"; cases "byte c \<in> {8, 12, 10, 13, 9}") (auto simp: escape_byte_def)
  then show ?thesis
  proof cases
    case 7
    have z: "unhex CHR ''0'' = Some 0" by (simp add: unhex_def)
    have "byte c div 16 < 16" using byte_lt [of c] by linarith
    then have "getu4 (''00'' @ [hex_digit (byte c div 16), hex_digit (byte c mod 16)] @ r) = Some (byte c, r)"
      by (simp add: unhex_hex_digit z)
    with 7 assms(1) show ?thesis by (simp add: unquote_step unicode_escape_def EncodeRune_ascii)
  qed (auto simp: escape_byte_def unquote_step simple_escape_def, (metis char_of_char)+)
qed

lemma utf8_size_take:
  assumes "utf8_size s = n" "n \<noteq> 0"
  shows "utf8_size (take n s @ t) = n"
proof (cases s)
  case Nil
  with assms show ?thesis by (simp add: utf8_size_def)
next
  case (Cons a r)
  show ?thesis
  proof (cases "n = 1")
    case True
    with assms Cons show ?thesis by (auto simp: utf8_size_def Let_def split: if_splits)
  next
    case False
    with assms Cons have n: "n = utf8_width a" "1 < n" "n \<le> length s" "second_byte a (hd r)" "\<forall>b \<in> set (take (n - 2) (tl r)). cont_byte b"
      by (auto simp: utf8_size_def Let_def split: if_splits)
    then obtain b r1 where r: "r = b # r1" using Cons by (cases r) auto
    have "take (n - 2) (take (n - 2) r1 @ t) = take (n - 2) r1" using n r Cons by simp
    moreover have "take n s @ t = a # b # take (n - 2) r1 @ t" using n r Cons by (cases n; cases "n - 1") auto
    ultimately show ?thesis using n r Cons by (simp add: utf8_size_def Let_def)
  qed
qed

lemma utf8_size_ascii: "byte a < 128 \<Longrightarrow> utf8_size (a # r) = 1"
  by (simp add: utf8_size_def utf8_width_def Let_def)

lemma utf8_size_multi:
  assumes "128 \<le> byte a" "utf8_size (a # r) \<noteq> 0"
  shows "2 \<le> utf8_size (a # r)"
  using assms by (auto simp: utf8_size_def utf8_width_def Let_def split: if_splits)

lemma separators:
  "map byte t = [226, 128, 168] \<Longrightarrow> unquote (backslash # ''u2028'' @ r) = prepend t (unquote r)"
  "map byte t = [226, 128, 169] \<Longrightarrow> unquote (backslash # ''u2029'' @ r) = prepend t (unquote r)"
proof -
  have h: "unhex CHR ''2'' = Some 2" "unhex CHR ''0'' = Some 0" "unhex CHR ''8'' = Some 8" "unhex CHR ''9'' = Some 9" by (simp_all add: unhex_def)
  have e: "map byte (EncodeRune 8232) = [226, 128, 168]" "map byte (EncodeRune 8233) = [226, 128, 169]" by (simp_all add: EncodeRune_def)
  have inj: "map byte t = map byte u \<Longrightarrow> t = u" for t u by (metis inj_of_char inj_map_eq_map)
  show "map byte t = [226, 128, 168] \<Longrightarrow> unquote (backslash # ''u2028'' @ r) = prepend t (unquote r)"
    using inj [of t "EncodeRune 8232"] by (simp add: e unquote_step unicode_escape_def h)
  show "map byte t = [226, 128, 169] \<Longrightarrow> unquote (backslash # ''u2029'' @ r) = prepend t (unquote r)"
    using inj [of t "EncodeRune 8233"] by (simp add: e unquote_step unicode_escape_def h)
qed

lemma prepend_prepend: "prepend t (Some (v, r)) = Some (t @ v, r)"
  by (simp add: prepend_def)

lemma unquote_quote_body:
  assumes "utf8_valid s"
  shows "unquote (quote_body s @ quote_char # r) = Some (s, r)"
  using assms
proof (induction s rule: utf8_valid.induct)
  case (1 s)
  show ?case
  proof (cases s)
    case Nil
    then show ?thesis by (simp add: quote_body.simps unquote_step)
  next
    case (Cons a s1)
    let ?n = "utf8_size s"
    from "1.prems" Cons have n: "?n \<noteq> 0" "utf8_valid (drop ?n s)" by (auto simp: utf8_valid.simps [of "a # s1"] split: if_splits)
    with "1.IH" Cons have IH: "unquote (quote_body (drop ?n s) @ quote_char # r) = Some (drop ?n s, r)" by simp
    have join: "prepend (take ?n s) (Some (drop ?n s, r)) = Some (s, r)" by (simp add: prepend_prepend)
    show ?thesis
    proof (cases "byte a < 128")
      case True
      then have one: "?n = 1" using Cons utf8_size_ascii by simp
      with IH Cons have IH1: "unquote (quote_body s1 @ quote_char # r) = Some (s1, r)" by simp
      show ?thesis
      proof (cases "htmlSafe a")
        case safe: True
        then have "a \<noteq> quote_char" "a \<noteq> backslash" "32 \<le> byte a" by (auto simp: htmlSafe_def)
        with safe True Cons IH1 show ?thesis
          by (simp add: quote_body.simps [of "a # s1"] unquote_plain utf8_size_ascii prepend_prepend)
      next
        case False
        with True Cons IH1 unquote_escape_byte [OF True False] show ?thesis
          by (simp add: quote_body.simps [of "a # s1"] prepend_prepend)
      qed
    next
      case False
      then have two: "2 \<le> ?n" using utf8_size_multi [of a s1] n(1) Cons by simp
      let ?rest = "quote_body (drop ?n s) @ quote_char # r"
      have q: "quote_body s = (if map byte (take ?n s) = [226, 128, 168] then backslash # ''u2028''
          else if map byte (take ?n s) = [226, 128, 169] then backslash # ''u2029'' else take ?n s) @ quote_body (drop ?n s)"
        using False n(1) unfolding Cons by (subst quote_body.simps) (simp add: Let_def)
      have "unquote (take ?n s @ ?rest) = prepend (take ?n s) (unquote ?rest)"
      proof -
        have sz: "utf8_size (take ?n s @ ?rest) = ?n" by (rule utf8_size_take) (use n in auto)
        obtain t where t: "take ?n s = a # t" using two Cons by (cases ?n) auto
        have "a \<noteq> quote_char" "a \<noteq> backslash" "\<not> byte a < 32" using False by auto
        with sz t have "unquote (a # t @ ?rest) = prepend (take ?n (a # t @ ?rest)) (unquote (drop ?n (a # t @ ?rest)))"
          using n(1) by (simp add: unquote_plain)
        moreover have "take ?n (a # t @ ?rest) = take ?n s" "drop ?n (a # t @ ?rest) = ?rest"
          using t utf8_size_le [of s] by (metis append_Cons append_eq_conv_conj length_take min.absorb2)+
        ultimately show ?thesis using t by simp
      qed
      with q IH join separators [of "take ?n s" ?rest] show ?thesis by (simp split: if_splits)
    qed
  qed
qed

subsection \<open>Numbers\<close>

definition num_char :: "char \<Rightarrow> bool" where
  "num_char c \<longleftrightarrow> is_digit c \<or> c \<in> {CHR ''.'', CHR ''e'', CHR ''E'', CHR ''+'', CHR ''-''}"

abbreviation ends :: "string \<Rightarrow> bool" where
  "ends r \<equiv> r = [] \<or> \<not> num_char (hd r)"

lemma digits1_append:
  assumes "digits1 s = Some (ds, t)" "ends r"
  shows "digits1 (s @ r) = Some (ds, t @ r)"
proof -
  have "takeWhile is_digit r = []" using assms(2) by (cases r) (auto simp: num_char_def)
  moreover have "dropWhile is_digit r = r" using assms(2) by (cases r) (auto simp: num_char_def)
  ultimately have "takeWhile is_digit (s @ r) = takeWhile is_digit s" "dropWhile is_digit (s @ r) = dropWhile is_digit s @ r"
    by (auto simp: takeWhile_append dropWhile_append) (metis takeWhile_eq_all_conv)+
  with assms(1) show ?thesis by (metis digits1_Some)
qed

lemma scan_append:
  assumes "ends r"
  shows "scan_int s = Some (a, t) \<Longrightarrow> scan_int (s @ r) = Some (a, t @ r)"
    "scan_frac s = Some (a, t) \<Longrightarrow> scan_frac (s @ r) = Some (a, t @ r)"
    "scan_exp s = Some (a, t) \<Longrightarrow> scan_exp (s @ r) = Some (a, t @ r)"
proof -
  note d = digits1_append [OF _ assms]
  show "scan_int s = Some (a, t) \<Longrightarrow> scan_int (s @ r) = Some (a, t @ r)"
    by (cases s) (auto simp: scan_int_def dest: d split: if_splits)
  show "scan_frac s = Some (a, t) \<Longrightarrow> scan_frac (s @ r) = Some (a, t @ r)"
    using assms by (cases s; cases r) (auto simp: scan_frac_def num_char_def prepend_Some dest: d split: if_splits)
  have sign: "scan_sign {CHR ''+'', CHR ''-''} (u @ r) = (x, y @ r)" if "scan_sign {CHR ''+'', CHR ''-''} u = (x, y)" for u x y
    using that assms by (cases u; cases r) (auto simp: scan_sign_def num_char_def split: if_splits)
  show "scan_exp s = Some (a, t) \<Longrightarrow> scan_exp (s @ r) = Some (a, t @ r)"
  proof (cases s)
    case Nil
    then show "scan_exp s = Some (a, t) \<Longrightarrow> scan_exp (s @ r) = Some (a, t @ r)"
      using assms by (cases r) (simp_all add: scan_exp_def num_char_def)
  next
    case (Cons c u)
    obtain x y where xy: "scan_sign {CHR ''+'', CHR ''-''} u = (x, y)" by fastforce
    show "scan_exp s = Some (a, t) \<Longrightarrow> scan_exp (s @ r) = Some (a, t @ r)"
      using Cons sign [OF xy] by (auto simp: scan_exp_def xy prepend_Some dest: d split: if_splits)
  qed
qed

lemma scan_number_append:
  assumes "scan_number s = Some (lit, [])" "ends r"
  shows "scan_number (s @ r) = Some (lit, r)"
proof -
  obtain c s1 where s: "s = c # s1" using scan_number_split [OF assms(1)] by (cases s) auto
  obtain sg s0 where sg: "scan_sign {CHR ''-''} s = (sg, s0)" by fastforce
  then have "scan_sign {CHR ''-''} (s @ r) = (sg, s0 @ r)" using s by (auto simp: scan_sign_def split: if_splits)
  moreover obtain i s1 f s2 e where "scan_int s0 = Some (i, s1)" "scan_frac s1 = Some (f, s2)" "scan_exp s2 = Some (e, [])" "lit = sg @ i @ f @ e"
    using assms(1) sg by (auto simp: scan_number_def split: option.splits)
  ultimately show ?thesis
    using scan_append [OF assms(2), of s0 i s1] scan_append [OF assms(2), of s1 f s2] scan_append [OF assms(2), of s2 e "[]"]
    by (simp add: scan_number_def)
qed

lemma scan_number_hd:
  assumes "scan_number (c # s) = Some (lit, r)"
  shows "is_digit c \<or> c = CHR ''-''"
  using assms
  by (auto simp: scan_number_def scan_sign_def scan_int_def is_digit_def digits1_Some split: if_splits option.splits prod.splits)

subsection \<open>Values\<close>

fun wf_json :: "json \<Rightarrow> bool" where
  "wf_json (JsonNum lit) \<longleftrightarrow> scan_number lit = Some (lit, [])"
| "wf_json (JsonStr s) \<longleftrightarrow> utf8_valid s"
| "wf_json (JsonArr vs) \<longleftrightarrow> (\<forall>v \<in> set vs. wf_json v)"
| "wf_json (JsonObj ms) \<longleftrightarrow> (\<forall>m \<in> set ms. utf8_valid (fst m) \<and> wf_json (snd m))"
| "wf_json _ \<longleftrightarrow> True"

fun json_depth :: "json \<Rightarrow> nat" where
  "json_depth (JsonArr vs) = Suc (foldr max (map json_depth vs) 0)"
| "json_depth (JsonObj ms) = Suc (foldr max (map (json_depth \<circ> snd) ms) 0)"
| "json_depth _ = 0"

lemma foldr_max_le: "foldr max xs 0 \<le> (d :: nat) \<longleftrightarrow> (\<forall>x \<in> set xs. x \<le> d)"
  by (induction xs) auto

lemma skip_ws_id: "\<not> byte c \<in> {32, 9, 13, 10} \<Longrightarrow> skip_ws (c # s) = c # s"
  by (simp add: skip_ws_def)

text \<open>A printed value begins with a character that tells its kind.\<close>

lemma json_print_hd:
  assumes "wf_json j"
  obtains c s where "json_print j = c # s" "byte c \<notin> {32, 9, 13, 10}" "c \<noteq> CHR '']''"
proof (cases j)
  case (JsonNum lit)
  with assms have n: "scan_number lit = Some (lit, [])" by simp
  then obtain c s where l: "lit = c # s" using scan_number_split [OF n] by (cases lit) auto
  have "is_digit c \<or> c = CHR ''-''" using n unfolding l by (rule scan_number_hd)
  with l JsonNum show ?thesis by (intro that [of c s]) (auto simp: is_digit_def)
next
  case (JsonBool b)
  with that show ?thesis by (cases b) auto
qed (use that in \<open>auto simp: json_string_def split: if_splits\<close>)

lemma delimiters:
  "\<not> num_char CHR '',''" "\<not> num_char CHR '']''" "\<not> num_char CHR ''}''"
  "skip_ws (CHR '','' # s) = CHR '','' # s" "skip_ws (CHR '']'' # s) = CHR '']'' # s" "skip_ws (CHR ''}'' # s) = CHR ''}'' # s"
  "skip_ws (CHR '':'' # s) = CHR '':'' # s" "skip_ws (quote_char # s) = quote_char # s" "skip_ws (CHR ''['' # s) = CHR ''['' # s"
  "skip_ws (CHR ''{'' # s) = CHR ''{'' # s"
  by (simp_all add: num_char_def is_digit_def skip_ws_id)

text \<open>The value of a printed text, whatever follows it. \<open>reads d v\<close> abbreviates the claim for one value at one depth.\<close>

definition reads :: "nat \<Rightarrow> json \<Rightarrow> bool" where
  "reads d v \<longleftrightarrow> (\<forall>n r. ends r \<longrightarrow> 2 * length (json_print v @ r) < n \<longrightarrow> parse_value n d (json_print v @ r) = Some (v, r))"

lemma readsD: "reads d v \<Longrightarrow> ends r \<Longrightarrow> 2 * length (json_print v @ r) < n \<Longrightarrow> parse_value n d (json_print v @ r) = Some (v, r)"
  unfolding reads_def by blast

lemma parse_elems_print:
  assumes "\<forall>v \<in> set vs. reads d v" "vs \<noteq> []" "Suc (2 * length (strings_Join (map json_print vs) '','' @ '']'' @ r)) < n"
  shows "parse_elems n d (strings_Join (map json_print vs) '','' @ '']'' @ r) = Some (vs, r)"
  using assms
proof (induction vs arbitrary: n)
  case (Cons v vs)
  then obtain m where n: "n = Suc m" by (cases n) auto
  note v = readsD [of d v]
  show ?case
  proof (cases vs)
    case Nil
    with Cons.prems n v [of "'']'' @ r" m] show ?thesis by (simp add: delimiters del: parse_value.simps)
  next
    case (Cons v2 vs2)
    let ?rest = "strings_Join (map json_print vs) '','' @ '']'' @ r"
    have j: "strings_Join (map json_print (v # vs)) '','' = json_print v @ '','' @ strings_Join (map json_print vs) '',''"
      using Cons by simp
    from Cons.prems(3) n have "Suc (2 * length ?rest) < m" "2 * length (json_print v @ '','' @ ?rest) < m" unfolding j by simp_all
    with Cons.IH [of m] Cons.prems(1) Cons v [of "'','' @ ?rest" m]
    have "parse_elems m d ?rest = Some (vs, r)" "parse_value m d (json_print v @ '','' @ ?rest) = Some (v, '','' @ ?rest)"
      by (simp_all add: delimiters del: parse_value.simps parse_elems.simps)
    with n show ?thesis unfolding j by (simp add: delimiters del: parse_value.simps)
  qed
qed simp

lemma parse_members_print:
  assumes "\<forall>m \<in> set ms. reads d (snd m) \<and> utf8_valid (fst m)" "ms \<noteq> []"
    and "Suc (2 * length (strings_Join (map (\<lambda>(k, v). json_string k @ '':'' @ json_print v) ms) '','' @ ''}'' @ r)) < n"
  shows "parse_members n d (strings_Join (map (\<lambda>(k, v). json_string k @ '':'' @ json_print v) ms) '','' @ ''}'' @ r) = Some (ms, r)"
  using assms
proof (induction ms arbitrary: n)
  case (Cons kv ms)
  let ?join = "\<lambda>ms. strings_Join (map (\<lambda>(k, v). json_string k @ '':'' @ json_print v) ms) '',''"
  from Cons obtain m where n: "n = Suc m" by (cases n) auto
  obtain k v where kv: "kv = (k, v)" by fastforce
  with Cons.prems(1) have v: "reads d v" and k: "utf8_valid k" by simp_all
  have q: "unquote (quote_body k @ quote_char # x) = Some (k, x)" for x using unquote_quote_body [OF k] .
  show ?case
  proof (cases ms)
    case Nil
    have "2 * length (json_print v @ ''}'' @ r) < m" using Cons.prems(3) n kv Nil by simp
    with readsD [OF v, of "''}'' @ r" m] n kv Nil q show ?thesis by (simp add: json_string_def delimiters del: parse_value.simps)
  next
    case ms: (Cons kv2 ms2)
    let ?rest = "?join ms @ ''}'' @ r"
    have j: "?join (kv # ms) = json_string k @ '':'' @ json_print v @ '','' @ ?join ms" using ms kv by simp
    from Cons.prems(3) n have "Suc (2 * length ?rest) < m" "2 * length (json_print v @ '','' @ ?rest) < m" unfolding j by simp_all
    with Cons.IH [of m] Cons.prems(1) ms readsD [OF v, of "'','' @ ?rest" m]
    have "parse_members m d ?rest = Some (ms, r)" "parse_value m d (json_print v @ '','' @ ?rest) = Some (v, '','' @ ?rest)"
      by (simp_all add: delimiters del: parse_value.simps parse_members.simps)
    with n q kv show ?thesis unfolding j by (simp add: json_string_def delimiters del: parse_value.simps)
  qed
qed simp

lemma scan_literal_print:
  "scan_literal ''null'' v (''null'' @ r) = Some (v, r)" "scan_literal ''true'' v (''true'' @ r) = Some (v, r)"
  "scan_literal ''false'' v (''false'' @ r) = Some (v, r)"
  by (simp_all add: scan_literal_def strings_HasPrefix_def)

lemma json_reads:
  assumes "wf_json j" "json_depth j \<le> d"
  shows "reads d j"
  using assms
proof (induction j arbitrary: d)
  case JsonNull
  have "parse_value (Suc n) d (''null'' @ r) = Some (JsonNull, r)" for n r using scan_literal_print(1) [of JsonNull r] by (simp add: skip_ws_id)
  then show ?case unfolding reads_def by (metis gr0_conv_Suc json_print.simps(1) less_zeroE not_gr_zero)
next
  case (JsonBool b)
  have "parse_value (Suc n) d (json_print (JsonBool b) @ r) = Some (JsonBool b, r)" for n r
    using scan_literal_print(2,3) [of _ r] by (cases b) (simp_all add: skip_ws_id)
  then show ?case unfolding reads_def by (metis gr0_conv_Suc less_zeroE not_gr_zero)
next
  case (JsonNum lit)
  then have l: "scan_number lit = Some (lit, [])" by simp
  obtain c s where c: "lit = c # s" using scan_number_split [OF l] by (cases lit) auto
  have d: "is_digit c \<or> c = CHR ''-''" using l unfolding c by (rule scan_number_hd)
  have "parse_value (Suc n) d (lit @ r) = Some (JsonNum lit, r)" if "ends r" for n r
  proof -
    have "skip_ws (lit @ r) = c # s @ r" using d c by (auto simp: is_digit_def intro: skip_ws_id)
    moreover have "scan_number (c # s @ r) = Some (lit, r)" using scan_number_append [OF l that] c by simp
    moreover have "c \<notin> {quote_char, CHR ''['', CHR ''{'', CHR ''n'', CHR ''t'', CHR ''f''}" using d by (auto simp: is_digit_def)
    ultimately show ?thesis by simp
  qed
  then show ?case unfolding reads_def by (metis gr0_conv_Suc json_print.simps(3) less_zeroE not_gr_zero)
next
  case (JsonStr t)
  then have "unquote (quote_body t @ quote_char # r) = Some (t, r)" for r using unquote_quote_body by simp
  then have "parse_value (Suc n) d (json_string t @ r) = Some (JsonStr t, r)" for n r by (simp add: json_string_def delimiters)
  then show ?case unfolding reads_def by (metis gr0_conv_Suc json_print.simps(4) less_zeroE not_gr_zero)
next
  case (JsonArr vs)
  then obtain d1 where d: "d = Suc d1" "\<forall>v \<in> set vs. json_depth v \<le> d1" by (cases d) (auto simp: foldr_max_le)
  have "\<forall>v \<in> set vs. reads d1 v" using JsonArr d by auto
  note elems = parse_elems_print [OF this]
  show ?case unfolding reads_def
  proof (intro allI impI)
    fix n r assume n: "2 * length (json_print (JsonArr vs) @ r) < n"
    then obtain m where m: "n = Suc m" by (cases n) auto
    show "parse_value n d (json_print (JsonArr vs) @ r) = Some (JsonArr vs, r)"
    proof (cases vs)
      case Nil
      then show ?thesis by (simp add: m d delimiters)
    next
      case (Cons v vs1)
      let ?rest = "strings_Join (map json_print vs) '','' @ '']'' @ r"
      have "wf_json v" using JsonArr.prems Cons by simp
      then obtain c t where "json_print v = c # t" "byte c \<notin> {32, 9, 13, 10}" "c \<noteq> CHR '']''" by (rule json_print_hd)
      then have "\<exists>c t. skip_ws ?rest = c # t \<and> c \<noteq> CHR '']''" using Cons by (cases vs1) (simp_all add: skip_ws_id)
      moreover have "parse_elems m d1 ?rest = Some (vs, r)" using n m Cons by (intro elems) simp_all
      ultimately show ?thesis by (auto simp: m d delimiters simp del: parse_elems.simps)
    qed
  qed
next
  case (JsonObj ms)
  then obtain d1 where d: "d = Suc d1" "\<forall>m \<in> set ms. json_depth (snd m) \<le> d1" by (cases d) (auto simp: foldr_max_le)
  have "\<forall>m \<in> set ms. reads d1 (snd m) \<and> utf8_valid (fst m)" using JsonObj d by (auto simp: snds.simps)
  note members = parse_members_print [OF this]
  show ?case unfolding reads_def
  proof (intro allI impI)
    fix n r assume n: "2 * length (json_print (JsonObj ms) @ r) < n"
    then obtain m where m: "n = Suc m" by (cases n) auto
    show "parse_value n d (json_print (JsonObj ms) @ r) = Some (JsonObj ms, r)"
    proof (cases ms)
      case Nil
      then show ?thesis by (simp add: m d delimiters)
    next
      case (Cons kv ms1)
      let ?rest = "strings_Join (map (\<lambda>(k, v). json_string k @ '':'' @ json_print v) ms) '','' @ ''}'' @ r"
      have "\<exists>t. skip_ws ?rest = quote_char # t" using Cons by (cases ms1; cases kv) (auto simp: json_string_def delimiters)
      moreover have "parse_members m d1 ?rest = Some (ms, r)" using n m Cons by (intro members) simp_all
      ultimately show ?thesis by (auto simp: m d delimiters simp del: parse_members.simps)
    qed
  qed
qed

lemma json_roundtrip:
  assumes "wf_json j" "json_depth j \<le> maxNestingDepth"
  shows "json_parse (json_print j) = Some j"
  using readsD [OF json_reads [OF assms], of "[]" "2 * length (json_print j) + 2"]
  by (simp add: json_parse_def skip_ws_def del: parse_value.simps)

lemma json_print_inj:
  assumes "wf_json i" "json_depth i \<le> maxNestingDepth" "wf_json j" "json_depth j \<le> maxNestingDepth" "json_print i = json_print j"
  shows "i = j"
  using json_roundtrip [OF assms(1,2), unfolded assms(5)] json_roundtrip [OF assms(3,4)] by (simp only: option.inject)

subsection \<open>Integers\<close>

lemma is_digit_digit_char: "d < 10 \<Longrightarrow> is_digit (digit_char d)"
  by (simp add: is_digit_def of_char_digit_char)

lemma show_nat_digits: "takeWhile is_digit (show_nat n) = show_nat n"
  using show_nat_chars is_digit_digit_char by (metis takeWhile_eq_all_conv)

lemma show_nat_hd: "0 < n \<Longrightarrow> hd (show_nat n) \<noteq> CHR ''0''"
proof (induction n rule: show_nat.induct)
  case (1 n)
  show ?case
  proof (cases "n < 10")
    case True
    have "digit_char n \<noteq> CHR ''0''"
    proof
      assume "digit_char n = CHR ''0''"
      then have "byte (digit_char n) = byte CHR ''0''" by simp
      with True "1.prems" show False by (simp add: of_char_digit_char)
    qed
    with True show ?thesis by (simp add: show_nat.simps [of n])
  next
    case False
    with "1.IH" show ?thesis by (simp add: show_nat.simps [of n])
  qed
qed

lemma scan_int_show_nat: "scan_int (show_nat n) = Some (show_nat n, [])"
proof (cases "n = 0")
  case True
  have "digit_char 0 = CHR ''0''" by (rule of_char_eqI [where 'a = nat]) (simp add: of_char_digit_char)
  with True show ?thesis by (simp add: show_nat.simps scan_int_def)
next
  case False
  obtain c s where c: "show_nat n = c # s" by (cases "show_nat n") simp_all
  have "c \<noteq> CHR ''0''" using show_nat_hd [of n] False c by simp
  moreover have "digits1 (show_nat n) = Some (show_nat n, [])" by (simp add: digits1_def Let_def show_nat_digits)
  ultimately show ?thesis using c by (simp add: scan_int_def)
qed

lemma scan_number_show_int: "scan_number (show_int k) = Some (show_int k, [])"
proof -
  have s: "scan_sign {CHR ''-''} (show_nat n) = ([], show_nat n)" for n
    using show_nat_no_minus [of n] by (cases "show_nat n") (auto simp: scan_sign_def)
  have "scan_sign {CHR ''-''} (CHR ''-'' # show_nat n) = (''-'', show_nat n)" for n by (simp add: scan_sign_def)
  with s show ?thesis by (simp add: show_int_def scan_number_def scan_int_show_nat scan_frac_def scan_exp_def)
qed

lemma json_Unmarshal_print:
  "wf_json j \<Longrightarrow> json_depth j \<le> maxNestingDepth \<Longrightarrow> json_Unmarshal dec zero (json_print j) = dec j zero"
  by (simp add: json_Unmarshal_def json_roundtrip)

text \<open>What the decoders make of printed values.\<close>

lemma dec_values [simp]:
  "dec_string t (JsonStr s) x = Inr s" "dec_string t JsonNull x = Inr x"
  "in_int64 k \<Longrightarrow> fits k \<Longrightarrow> dec_int t fits (JsonNum (show_int k)) i = Inr k"
  "dec_ptr dec zero JsonNull p = Inr None"
  "dec_ptr dec zero (JsonStr s) None = (case dec (JsonStr s) zero of Inl e \<Rightarrow> Inl e | Inr y \<Rightarrow> Inr (Some y))"
  "dec_ptr dec zero (JsonObj ms) None = (case dec (JsonObj ms) zero of Inl e \<Rightarrow> Inl e | Inr y \<Rightarrow> Inr (Some y))"
  "dec_slice t dec zero (JsonArr vs) xs = dec_elems dec zero vs xs"
  "dec_struct t fields (JsonObj ms) r = dec_members fields ms r"
  "fst (in_field name decf get upd) = name"
  "snd (in_field name decf get upd) v r1 = (case decf v (get r1) of Inl e \<Rightarrow> Inl e | Inr x \<Rightarrow> Inr (upd x r1))"
  by (simp_all add: dec_string_def dec_int_def dec_ptr_def dec_slice_def dec_struct_def in_field_def strconv_Atoi_show_int)

subsection \<open>What is read is valid UTF-8\<close>

lemma utf8_valid_Nil [simp]: "utf8_valid []"
  by (simp add: utf8_valid.simps)

lemma utf8_size_append: "utf8_size s \<noteq> 0 \<Longrightarrow> utf8_size (s @ t) = utf8_size s"
  using utf8_size_take [of s "utf8_size s" "drop (utf8_size s) s @ t"] by (simp flip: append_assoc)

lemma utf8_valid_append: "utf8_valid s \<Longrightarrow> utf8_valid t \<Longrightarrow> utf8_valid (s @ t)"
proof (induction s rule: utf8_valid.induct)
  case (1 s)
  show ?case
  proof (cases "s = []")
    case True
    with "1.prems" show ?thesis by simp
  next
    case False
    with "1.prems"(1) have s: "utf8_size s \<noteq> 0" "utf8_valid (drop (utf8_size s) s)" by (simp_all add: utf8_valid.simps [of s] split: if_splits)
    with "1.IH" False "1.prems"(2) have "utf8_valid (drop (utf8_size s) s @ t)" by simp
    moreover have "drop (utf8_size s) (s @ t) = drop (utf8_size s) s @ t" using utf8_size_le [of s] by simp
    ultimately show ?thesis using s(1) by (simp add: utf8_valid.simps [of "s @ t"] utf8_size_append)
  qed
qed

lemma utf8_valid_rune: "utf8_size t = length t \<Longrightarrow> t \<noteq> [] \<Longrightarrow> utf8_valid t"
  by (simp add: utf8_valid.simps [of t])

lemma EncodeRune_valid:
  assumes "r < 55296 \<or> 57344 \<le> r \<and> r < 1114112"
  shows "utf8_valid (EncodeRune r)"
proof -
  consider "r < 128" | "128 \<le> r" "r < 2048" | "2048 \<le> r" "r < 65536" | "65536 \<le> r" "r < 1114112" using assms by linarith
  then have "utf8_size (EncodeRune r) = length (EncodeRune r)"
  proof cases
    case 2
    then have "2 \<le> r div 64" "r div 64 < 32" by linarith+
    with 2 show ?thesis by (simp add: EncodeRune_def utf8_size_def utf8_width_def second_byte_def cont_byte_def)
  next
    case 3
    have q: "r div 4096 = r div 64 div 64" "r div 64 = 64 * (r div 64 div 64) + r div 64 mod 64"
      by (simp add: div_mult2_eq [symmetric], rule mult_div_mod_eq [symmetric])
    from 3 have "r div 4096 < 16" "r div 4096 = 0 \<Longrightarrow> 32 \<le> r div 64 mod 64" using q by linarith+
    moreover have "r div 4096 = 13 \<Longrightarrow> r div 64 mod 64 < 32" using assms 3 q by linarith
    ultimately show ?thesis using 3
      by (auto simp: EncodeRune_def utf8_size_def utf8_width_def second_byte_def cont_byte_def)
  next
    case 4
    have q: "r div 262144 = r div 4096 div 64" "r div 4096 = 64 * (r div 4096 div 64) + r div 4096 mod 64"
      by (simp add: div_mult2_eq [symmetric], rule mult_div_mod_eq [symmetric])
    with 4 have "r div 262144 < 5" "r div 262144 = 0 \<Longrightarrow> 16 \<le> r div 4096 mod 64" "r div 262144 = 4 \<Longrightarrow> r div 4096 mod 64 < 16" by linarith+
    with 4 show ?thesis by (auto simp: EncodeRune_def utf8_size_def utf8_width_def second_byte_def cont_byte_def)
  qed (simp add: EncodeRune_def utf8_size_def utf8_width_def)
  then show ?thesis by (rule utf8_valid_rune) (simp add: EncodeRune_def)
qed

lemma getu4_bound: "getu4 s = Some (n, r) \<Longrightarrow> n < 65536"
proof -
  have u: "unhex c = Some k \<Longrightarrow> k < 16" for c k by (auto simp: unhex_def split: if_splits)
  show "getu4 s = Some (n, r) \<Longrightarrow> n < 65536"
    by (cases s rule: getu4.cases) (force split: option.splits dest!: u)+
qed

lemma unicode_escape_valid: "unicode_escape s = Some (t, r) \<Longrightarrow> utf8_valid t"
  by (auto simp: unicode_escape_def RuneError_def split: option.splits prod.splits if_splits intro!: EncodeRune_valid dest: getu4_bound)

lemma utf8_take_valid: "utf8_size s \<noteq> 0 \<Longrightarrow> utf8_valid (take (utf8_size s) s)"
  using utf8_size_take [of s "utf8_size s" "[]"] utf8_size_le [of s] by (intro utf8_valid_rune) auto

lemma unquote_valid: "unquote s = Some (t, r) \<Longrightarrow> utf8_valid t"
proof (induction "length s" arbitrary: s t r rule: less_induct)
  case less
  show ?case
  proof (cases s)
    case Nil
    with less.prems show ?thesis by (simp add: unquote_step)
  next
    case (Cons a s1)
    consider "a = quote_char" | c r1 where "a = backslash" "s1 = c # r1" | "a = backslash" "s1 = []" | "a \<noteq> quote_char" "a \<noteq> backslash"
      by (cases s1) auto
    then show ?thesis
    proof cases
      case (2 c r1)
      show ?thesis
      proof (cases "c = CHR ''u''")
        case True
        with less.prems 2 Cons obtain x r2 t1 where u: "unicode_escape r1 = Some (x, r2)" "unquote r2 = Some (t1, r)" "t = x @ t1"
          by (auto simp: unquote_step prepend_Some split: option.splits)
        with less.hyps [OF _ u(2)] unicode_escape_length [OF u(1)] unicode_escape_valid [OF u(1)] 2 Cons show ?thesis
          by (simp add: utf8_valid_append)
      next
        case False
        with less.prems 2 Cons obtain x t1 where u: "simple_escape c = Some x" "unquote r1 = Some (t1, r)" "t = [x] @ t1"
          by (auto simp: unquote_step prepend_Some split: option.splits)
        have "byte x < 128" using u(1) by (auto simp: simple_escape_def split: if_splits)
        then have "utf8_valid [x]" by (intro utf8_valid_rune) (simp_all add: utf8_size_ascii)
        with less.hyps [OF _ u(2)] 2 Cons u(3) utf8_valid_append [of "[x]" t1] show ?thesis by simp
      qed
    next
      case 4
      with less.prems Cons obtain n t1 x where n: "0 < n" "unquote (drop n s) = Some (t1, r)" "t = x @ t1" "utf8_valid x"
        proof (cases "utf8_size s = 0")
        case True
        with less.prems Cons 4 that [of 1 _ "EncodeRune RuneError"] show ?thesis
          by (auto simp: unquote_plain prepend_Some EncodeRune_valid RuneError_def split: if_splits)
      next
        case False
        with less.prems Cons 4 that [of "utf8_size s" _ "take (utf8_size s) s"] utf8_take_valid [OF False] show ?thesis
          by (auto simp: unquote_plain prepend_Some split: if_splits)
      qed
      with less.hyps [of "drop n s" t1 r] Cons show ?thesis by (simp add: utf8_valid_append)
    qed (use less.prems Cons in \<open>auto simp: unquote_step\<close>)
  qed
qed

fun utf8_json :: "json \<Rightarrow> bool" where
  "utf8_json (JsonStr s) \<longleftrightarrow> utf8_valid s"
| "utf8_json (JsonArr vs) \<longleftrightarrow> (\<forall>v \<in> set vs. utf8_json v)"
| "utf8_json (JsonObj ms) \<longleftrightarrow> (\<forall>m \<in> set ms. utf8_valid (fst m) \<and> utf8_json (snd m))"
| "utf8_json _ \<longleftrightarrow> True"

lemma parse_utf8:
  "(\<forall>d s v r. parse_value n d s = Some (v, r) \<longrightarrow> utf8_json v) \<and>
   (\<forall>d s vs r. parse_elems n d s = Some (vs, r) \<longrightarrow> (\<forall>v \<in> set vs. utf8_json v)) \<and>
   (\<forall>d s ms r. parse_members n d s = Some (ms, r) \<longrightarrow> (\<forall>m \<in> set ms. utf8_valid (fst m) \<and> utf8_json (snd m)))"
proof (induction n)
  case (Suc n)
  then have v: "parse_value n d s = Some (v, r) \<Longrightarrow> utf8_json v"
    and e: "parse_elems n d s = Some (vs, r) \<Longrightarrow> \<forall>v \<in> set vs. utf8_json v"
    and m: "parse_members n d s = Some (ms, r) \<Longrightarrow> \<forall>m \<in> set ms. utf8_valid (fst m) \<and> utf8_json (snd m)" for d s v vs ms r by blast+
  note valid = unquote_valid v e m
  show ?case
    by (intro conjI allI impI; simp only: parse_value.simps parse_elems.simps parse_members.simps)
      (force simp: scan_literal_def split: list.splits if_splits option.splits prod.splits dest!: valid)+
qed simp

lemma json_parse_utf8: "json_parse s = Some v \<Longrightarrow> utf8_json v"
  unfolding json_parse_def using parse_utf8 [THEN conjunct1, rule_format]
  by (auto simp del: parse_value.simps split: option.splits prod.splits if_splits)

text \<open>Members for which there is no field are skipped.\<close>

lemma dec_members_skip:
  "\<forall>m \<in> set meta. \<forall>f \<in> set fields. foldName (fst f) \<noteq> foldName (fst m) \<Longrightarrow>
    dec_members fields (meta @ ms) r = dec_members fields ms r"
proof (induction meta)
  case (Cons m meta)
  then have "find (\<lambda>f. foldName (fst f) = foldName (fst m)) fields = None" by (auto simp: find_None_iff)
  with Cons show ?case by (cases m) simp
qed simp

text \<open>What holds of the zero value and is kept by every field holds of what is read.\<close>

lemma dec_members_inv:
  assumes "dec_members fields ms x = Inr y" "I x" "\<forall>m \<in> set ms. utf8_json (snd m)"
    and "\<And>f v x y. f \<in> set fields \<Longrightarrow> utf8_json v \<Longrightarrow> snd f v x = Inr y \<Longrightarrow> I x \<Longrightarrow> I y"
  shows "I y"
  using assms(1-3)
proof (induction ms arbitrary: x)
  case (Cons m ms)
  obtain k v where m: "m = (k, v)" by fastforce
  show ?case
  proof (cases "find (\<lambda>f. foldName (fst f) = foldName k) fields")
    case None
    with Cons m show ?thesis by simp
  next
    case (Some f)
    then have f: "f \<in> set fields" by (auto simp: find_Some_iff)
    from Cons.prems(1) m Some obtain x1 where x1: "snd f v x = Inr x1" "dec_members fields ms x1 = Inr y" by (auto split: sum.splits)
    have "I x1" using assms(4) [OF f _ x1(1)] Cons.prems m by simp
    with Cons.IH [OF x1(2)] Cons.prems show ?thesis by simp
  qed
qed simp

lemma json_Unmarshal_inv:
  assumes "json_Unmarshal (dec_struct goType fields) zero data = Inr r" "I zero"
    and "\<And>f v x y. f \<in> set fields \<Longrightarrow> utf8_json v \<Longrightarrow> snd f v x = Inr y \<Longrightarrow> I x \<Longrightarrow> I y"
  shows "I r"
proof (cases "json_parse data")
  case None
  with assms(1) show ?thesis by (simp add: json_Unmarshal_def)
next
  case (Some j)
  have "\<forall>m \<in> set ms. utf8_json (snd m)" if "j = JsonObj ms" for ms using json_parse_utf8 [OF Some] that by simp
  with assms(1,2) Some dec_members_inv [where I = I, OF _ _ _ assms(3)] show ?thesis
    by (cases j) (auto simp: json_Unmarshal_def dec_struct_def)
qed

lemma dec_string_inv: "dec_string goType v x = Inr y \<Longrightarrow> utf8_json v \<Longrightarrow> utf8_valid x \<Longrightarrow> utf8_valid y"
  by (auto simp: dec_string_def split: json.splits)

lemma strconv_Atoi_range: "strconv_Atoi s = Inr k \<Longrightarrow> in_int64 k"
  by (auto simp: strconv_Atoi_def Let_def split: if_splits option.splits)

lemma dec_int_inv: "dec_int goType fits v x = Inr y \<Longrightarrow> in_int64 x \<Longrightarrow> in_int64 y"
  by (auto simp: dec_int_def split: json.splits sum.splits if_splits dest: strconv_Atoi_range)

subsection \<open>ASCII texts\<close>

text \<open>The names of fields are ASCII, so that they are valid and fold to upper case.\<close>

lemma utf8_valid_ascii: "\<forall>c \<in> set s. byte c < 128 \<Longrightarrow> utf8_valid s"
proof (induction s)
  case (Cons c s)
  then have "utf8_valid [c]" by (intro utf8_valid_rune) (simp_all add: utf8_size_ascii)
  with Cons utf8_valid_append [of "[c]" s] show ?case by simp
qed simp

lemma foldName_ascii: "list_all (\<lambda>c. byte c < 128) s \<Longrightarrow> foldName s = map ascii_upper s"
  by (induction s) (simp_all add: foldName.simps)

lemmas fold_eval = foldName_ascii ascii_upper_def char_of_eq_iff

subsection \<open>One line\<close>

text \<open>Printed strings have no control characters, so that a value without them in its numbers is one line.\<close>

lemma escape_byte_printable: "byte c < 128 \<Longrightarrow> x \<in> set (escape_byte c) \<Longrightarrow> 32 \<le> byte x"
proof -
  have h: "d < 16 \<Longrightarrow> 32 \<le> byte (hex_digit d)" for d by (auto simp: hex_digit_def)
  assume "byte c < 128" "x \<in> set (escape_byte c)"
  moreover from this have "byte c div 16 < 16" "byte c mod 16 < 16" by auto
  ultimately show ?thesis by (auto simp: escape_byte_def h split: if_splits)
qed

lemma utf8_multi_bytes:
  assumes "128 \<le> byte a" "x \<in> set (take (utf8_size (a # r)) (a # r))" "utf8_size (a # r) \<noteq> 0"
  shows "128 \<le> byte x"
proof -
  let ?n = "utf8_size (a # r)"
  have "utf8_width a \<noteq> 1" using assms(1) by (simp add: utf8_width_def)
  then have n: "?n \<le> length (a # r)" "second_byte a (hd r)" "\<forall>b \<in> set (take (?n - 2) (tl r)). cont_byte b" "2 \<le> ?n"
    using assms(3) unfolding utf8_size_def Let_def list.case by (simp_all split: if_splits)
  then obtain b r1 where r: "r = b # r1" by (cases r) auto
  have "take ?n (a # r) = a # b # take (?n - 2) r1" using n(4) r by (cases ?n; cases "?n - 1") auto
  moreover have "128 \<le> byte b" using n(2) r by (auto simp: second_byte_def cont_byte_def split: if_splits)
  ultimately show ?thesis using assms(1,2) n(3) r by (auto simp: cont_byte_def)
qed

lemma quote_body_printable: "x \<in> set (quote_body s) \<Longrightarrow> 32 \<le> byte x"
proof (induction "length s" arbitrary: s rule: less_induct)
  case less
  show ?case
  proof (cases s)
    case Nil
    with less.prems show ?thesis by (simp add: quote_body.simps)
  next
    case (Cons a r)
    let ?n = "utf8_size s"
    consider "byte a < 128" | "128 \<le> byte a" "?n = 0" | "128 \<le> byte a" "?n \<noteq> 0" by linarith
    then show ?thesis
    proof cases
      case 1
      with less.prems Cons consider "x \<in> set (quote_body r)" | "htmlSafe a" "x = a" | "x \<in> set (escape_byte a)"
        by (auto simp: quote_body.simps [of "a # r"] split: if_splits)
      then show ?thesis using less.hyps [of r] Cons escape_byte_printable [OF 1] by cases (auto simp: htmlSafe_def)
    next
      case 2
      with less.prems Cons less.hyps [of r] show ?thesis by (auto simp: quote_body.simps [of "a # r"])
    next
      case 3
      with less.prems Cons have "x \<in> set (quote_body (drop ?n s)) \<or> x \<in> set (take ?n s) \<or> x \<in> set (backslash # ''u2028'') \<or> x \<in> set (backslash # ''u2029'')"
        by (auto simp: quote_body.simps [of "a # r"] Let_def split: if_splits)
      moreover have "length (drop ?n s) < length s" using 3 Cons by simp
      moreover have "x \<in> set (take ?n s) \<Longrightarrow> 128 \<le> byte x" using utf8_multi_bytes [of a x r] 3 Cons by simp
      ultimately show ?thesis using less.hyps by fastforce
    qed
  qed
qed

lemma json_string_printable: "x \<in> set (json_string s) \<Longrightarrow> 32 \<le> byte x"
  using quote_body_printable by (auto simp: json_string_def)

lemma scan_number_chars:
  assumes "scan_number s = Some (l, r)" "x \<in> set l"
  shows "num_char x"
proof -
  have d: "\<forall>x \<in> set ds. num_char x" if "digits1 t = Some (ds, u)" for t ds u
    using that set_takeWhileD by (fastforce simp: digits1_Some num_char_def)
  have sg: "\<forall>x \<in> set a. x \<in> cs" if "scan_sign cs t = (a, u)" for cs t a u
    using that by (auto simp: scan_sign_def split: list.splits if_splits)
  have i: "\<forall>x \<in> set a. num_char x" if "scan_int t = Some (a, u)" for t a u
    using that d [of t a u] by (auto simp: scan_int_def num_char_def [of "CHR ''0''"] is_digit_def split: list.splits if_splits)
  have pt: "num_char CHR ''.''" "num_char CHR ''e''" "num_char CHR ''E''" "num_char CHR ''+''" "num_char CHR ''-''"
    by (simp_all add: num_char_def)
  have f: "\<forall>x \<in> set a. num_char x" if "scan_frac t = Some (a, u)" for t a u
    using that pt by (auto simp: scan_frac_def prepend_Some split: list.splits if_splits dest!: d)
  have e: "\<forall>x \<in> set a. num_char x" if "scan_exp t = Some (a, u)" for t a u
    using that pt by (fastforce simp: scan_exp_def prepend_Some split: list.splits if_splits prod.splits dest!: d sg)
  from assms(1) obtain a s0 a1 s1 a2 s2 a3 where
    parts: "scan_sign {CHR ''-''} s = (a, s0)" "scan_int s0 = Some (a1, s1)" "scan_frac s1 = Some (a2, s2)" "scan_exp s2 = Some (a3, r)"
      "l = a @ a1 @ a2 @ a3"
    by (auto simp: scan_number_def split: prod.splits option.splits)
  from assms(2) parts(5) consider "x \<in> set a" | "x \<in> set a1" | "x \<in> set a2" | "x \<in> set a3" by auto
  then show ?thesis using sg [OF parts(1)] i [OF parts(2)] f [OF parts(3)] e [OF parts(4)] pt(5) by cases auto
qed

lemma set_strings_Join: "x \<in> set (strings_Join xs sep) \<Longrightarrow> x \<in> set sep \<or> (\<exists>s \<in> set xs. x \<in> set s)"
  by (induction xs sep rule: strings_Join.induct) auto

lemma json_print_printable: "wf_json j \<Longrightarrow> x \<in> set (json_print j) \<Longrightarrow> 32 \<le> byte x"
proof (induction j)
  case (JsonNum lit)
  then have "num_char x" using scan_number_chars by auto
  then show ?case by (auto simp: num_char_def is_digit_def)
next
  case (JsonArr vs)
  then show ?case by (auto dest!: set_strings_Join)
next
  case (JsonObj ms)
  then show ?case by (fastforce simp: snds.simps dest!: set_strings_Join dest: json_string_printable)
qed (auto intro: json_string_printable split: if_splits)

end
