(* ===== verification/Etcd.thy ===== *)
theory Etcd
  imports Json
begin

text \<open>
  The distribution of manifests and active pointers through etcd
  (\<^verbatim>\<open>services/control-plane/internal/etcdclient/etcdclient.go\<close>). The etcd client's \<^verbatim>\<open>Put\<close> is an
  argument; the operations take \<^verbatim>\<open>json.Marshal\<close> of the two envelopes with it, which \<open>manifest_text\<close> and \<open>active_text\<close> define. Every active pointer is written as a whole
  envelope, so a reader sees the stable version and the canary state of one write.
\<close>

section \<open>Model\<close>

record ManifestEnvelope =
  me_VersionID :: string
  me_ModelRef :: string
  me_SpecJSON :: string
  me_Signature :: string
  me_CreatedBy :: string
  me_CreatedAt :: string
  me_Status :: string

record ActiveEnvelope =
  ae_Stable :: string
  ae_Canary :: string
  ae_CanaryPercent :: int

text \<open>What \<^verbatim>\<open>json.Marshal\<close> writes for them; it cannot fail on structs of strings and integers.\<close>

definition manifest_json :: "ManifestEnvelope \<Rightarrow> json" where
  "manifest_json e =
     JsonObj [(''version_id'', JsonStr (me_VersionID e)), (''model_ref'', JsonStr (me_ModelRef e)), (''spec_json'', JsonStr (me_SpecJSON e)),
       (''signature'', JsonStr (me_Signature e)), (''created_by'', JsonStr (me_CreatedBy e)), (''created_at'', JsonStr (me_CreatedAt e)),
       (''status'', JsonStr (me_Status e))]"

definition active_json :: "ActiveEnvelope \<Rightarrow> json" where
  "active_json e =
     JsonObj [(''stable'', JsonStr (ae_Stable e)), (''canary'', JsonStr (ae_Canary e)),
       (''canary_percent'', JsonNum (show_int (ae_CanaryPercent e)))]"

definition manifest_text :: "ManifestEnvelope \<Rightarrow> string" where
  "manifest_text e = json_print (manifest_json e)"

definition active_text :: "ActiveEnvelope \<Rightarrow> string" where
  "active_text e = json_print (active_json e)"

record 'w etcd_Client =
  etcd_Put :: "string \<Rightarrow> string \<Rightarrow> 'w \<Rightarrow> go_error option \<times> 'w"
  etcd_MarshalManifest :: "ManifestEnvelope \<Rightarrow> string result"
  etcd_MarshalActive :: "ActiveEnvelope \<Rightarrow> string result"

definition manifest_key :: "string \<Rightarrow> string \<Rightarrow> string" where
  "manifest_key modelRef versionID = ''/onezox/manifests/'' @ modelRef @ ''/'' @ versionID"

definition active_key :: "string \<Rightarrow> string" where
  "active_key modelRef = ''/onezox/active/'' @ modelRef"

definition etcd_PublishManifest ::
  "'w etcd_Client \<Rightarrow> string \<Rightarrow> string \<Rightarrow> string \<Rightarrow> string \<Rightarrow> string \<Rightarrow> string \<Rightarrow> string \<Rightarrow> 'w \<Rightarrow> go_error option \<times> 'w" where
  "etcd_PublishManifest cli versionID modelRef specJSON signature createdBy createdAt status w =
     (case etcd_MarshalManifest cli
             \<lparr>me_VersionID = versionID, me_ModelRef = modelRef, me_SpecJSON = specJSON, me_Signature = signature,
              me_CreatedBy = createdBy, me_CreatedAt = createdAt, me_Status = status\<rparr> of
        Inl err \<Rightarrow> (Some (Wrap ''marshaling manifest envelope: '' err []), w)
      | Inr data \<Rightarrow>
          (case etcd_Put cli (manifest_key modelRef versionID) data w of
             (Some err, w1) \<Rightarrow> (Some (Wrap ''publishing manifest to etcd: '' err []), w1)
           | (None, w1) \<Rightarrow> (None, w1)))"

definition publishActiveEnvelope ::
  "'w etcd_Client \<Rightarrow> string \<Rightarrow> ActiveEnvelope \<Rightarrow> 'w \<Rightarrow> go_error option \<times> 'w" where
  "publishActiveEnvelope cli modelRef env w =
     (case etcd_MarshalActive cli env of
        Inl err \<Rightarrow> (Some (Wrap ''marshaling active envelope: '' err []), w)
      | Inr data \<Rightarrow>
          (case etcd_Put cli (active_key modelRef) data w of
             (Some err, w1) \<Rightarrow> (Some (Wrap ''publishing active pointer to etcd: '' err []), w1)
           | (None, w1) \<Rightarrow> (None, w1)))"

definition etcd_PublishActive :: "'w etcd_Client \<Rightarrow> string \<Rightarrow> string \<Rightarrow> 'w \<Rightarrow> go_error option \<times> 'w" where
  "etcd_PublishActive cli modelRef versionID =
     publishActiveEnvelope cli modelRef \<lparr>ae_Stable = versionID, ae_Canary = [], ae_CanaryPercent = 0\<rparr>"

definition etcd_PublishCanaryState ::
  "'w etcd_Client \<Rightarrow> string \<Rightarrow> string \<Rightarrow> string \<Rightarrow> int \<Rightarrow> 'w \<Rightarrow> go_error option \<times> 'w" where
  "etcd_PublishCanaryState cli modelRef stableVersionID canaryVersionID percent =
     publishActiveEnvelope cli modelRef
       \<lparr>ae_Stable = stableVersionID, ae_Canary = canaryVersionID, ae_CanaryPercent = percent\<rparr>"

section \<open>Facts\<close>

text \<open>A reader of etcd that decodes JSON gets the fields back, unless a text is not valid UTF-8.\<close>

lemma envelope_names_valid:
  "utf8_valid ''version_id''" "utf8_valid ''model_ref''" "utf8_valid ''spec_json''" "utf8_valid ''signature''" "utf8_valid ''created_by''"
  "utf8_valid ''created_at''" "utf8_valid ''status''" "utf8_valid ''stable''" "utf8_valid ''canary''" "utf8_valid ''canary_percent''"
  by (simp_all add: utf8_valid_ascii)

lemma active_text_roundtrip:
  assumes "utf8_valid (ae_Stable e)" "utf8_valid (ae_Canary e)"
  shows "json_parse (active_text e) = Some (active_json e)"
  unfolding active_text_def
  by (rule json_roundtrip) (use assms in \<open>simp_all add: active_json_def envelope_names_valid scan_number_show_int maxNestingDepth_def\<close>)

lemma manifest_text_roundtrip:
  assumes "\<forall>t \<in> {me_VersionID e, me_ModelRef e, me_SpecJSON e, me_Signature e, me_CreatedBy e, me_CreatedAt e, me_Status e}. utf8_valid t"
  shows "json_parse (manifest_text e) = Some (manifest_json e)"
  unfolding manifest_text_def
  by (rule json_roundtrip) (use assms in \<open>simp_all add: manifest_json_def envelope_names_valid maxNestingDepth_def\<close>)

lemma active_key_inj: "active_key m = active_key m' \<longleftrightarrow> m = m'"
  by (simp add: active_key_def)

lemma manifest_key_neq_active_key: "manifest_key m v \<noteq> active_key m'"
  by (simp add: manifest_key_def active_key_def)

text \<open>
  A model reference may contain slashes; a version is a UUID and does not, so the last slash separates them.
\<close>

lemma manifest_key_inj:
  assumes "CHR ''/'' \<notin> set v" "CHR ''/'' \<notin> set v'"
  shows "manifest_key m v = manifest_key m' v' \<longleftrightarrow> m = m' \<and> v = v'"
proof
  assume eq: "manifest_key m v = manifest_key m' v'"
  have "m @ CHR ''/'' # v = m' @ CHR ''/'' # v'" using eq by (simp add: manifest_key_def)
  then have "rev (m @ CHR ''/'' # v) = rev (m' @ CHR ''/'' # v')" by (rule arg_cong)
  then have "rev v @ CHR ''/'' # rev m = rev v' @ CHR ''/'' # rev m'"
    by (simp only: rev_append rev.simps append.assoc append_Cons append_Nil)
  then have "rev v = rev v' \<and> rev m = rev m'"
    using assms by (intro separator_split_unique) simp_all
  then show "m = m' \<and> v = v'" by simp
qed simp

section \<open>The environment\<close>

text \<open>
  A call to a remote service is carried out, or is refused, or is carried out although its caller only sees an
  error because the reply was lost. The worlds hold what will happen to the calls to come; after the end of the
  list every call is carried out.
\<close>

datatype fault = Done | Refused go_error | ReplyLost go_error

definition remote ::
  "(go_error \<Rightarrow> 'r) \<Rightarrow> ('w \<Rightarrow> fault \<times> 'w) \<Rightarrow> ('w \<Rightarrow> 'r \<times> 'w) \<Rightarrow> 'w \<Rightarrow> 'r \<times> 'w" where
  "remote fail next call w =
     (case next w of
        (Done, w1) \<Rightarrow> call w1
      | (Refused err, w1) \<Rightarrow> (fail err, w1)
      | (ReplyLost err, w1) \<Rightarrow> (fail err, snd (call w1)))"

text \<open>What the processes of control-plane share besides the database: etcd's keys, the clock, the UUIDs drawn.\<close>

record cp_env =
  es_kv :: "string \<rightharpoonup> string"
  es_faults :: "fault list"
  env_now :: int
  env_uuids :: "string list"

definition es_next :: "'z cp_env_scheme \<Rightarrow> fault \<times> 'z cp_env_scheme" where
  "es_next w = (case es_faults w of [] \<Rightarrow> (Done, w) | f # fs \<Rightarrow> (f, w\<lparr>es_faults := fs\<rparr>))"

definition kv_Put :: "string \<Rightarrow> string \<Rightarrow> 'z cp_env_scheme \<Rightarrow> go_error option \<times> 'z cp_env_scheme" where
  "kv_Put k v = remote Some es_next (\<lambda>w. (None, w\<lparr>es_kv := (es_kv w)(k \<mapsto> v)\<rparr>))"

definition kv_client ::
  "(ManifestEnvelope \<Rightarrow> string) \<Rightarrow> (ActiveEnvelope \<Rightarrow> string) \<Rightarrow> 'z cp_env_scheme etcd_Client" where
  "kv_client mj aj = \<lparr>etcd_Put = kv_Put, etcd_MarshalManifest = (\<lambda>e. Inr (mj e)), etcd_MarshalActive = (\<lambda>e. Inr (aj e))\<rparr>"

definition draw_uuid :: "'z cp_env_scheme \<Rightarrow> string \<times> 'z cp_env_scheme" where
  "draw_uuid w = (case env_uuids w of [] \<Rightarrow> ([], w) | u # us \<Rightarrow> (u, w\<lparr>env_uuids := us\<rparr>))"

definition read_clock :: "'z cp_env_scheme \<Rightarrow> int \<times> 'z cp_env_scheme" where
  "read_clock w = (env_now w, w)"

text \<open>An observation that a call leaves as it was.\<close>

definition keeps :: "('w \<Rightarrow> 'x) \<Rightarrow> ('w \<Rightarrow> 'r \<times> 'w) \<Rightarrow> bool" where
  "keeps obs f \<longleftrightarrow> (\<forall>w. obs (snd (f w)) = obs w)"

lemma keepsD: "keeps obs f \<Longrightarrow> f w = (r, w') \<Longrightarrow> obs w' = obs w"
  by (metis keeps_def snd_conv)

text \<open>The only key that a publication changes is its own, whatever happens to the call.\<close>

lemma kv_Put_other: "kv_Put k v w = (r, w') \<Longrightarrow> k' \<noteq> k \<Longrightarrow> es_kv w' k' = es_kv w k'"
  by (auto simp: kv_Put_def remote_def es_next_def split: list.splits fault.splits prod.splits)

lemma kv_Put_own: "kv_Put k v w = (None, w') \<Longrightarrow> es_kv w' = (es_kv w)(k \<mapsto> v)"
  by (auto simp: kv_Put_def remote_def es_next_def split: list.splits fault.splits prod.splits)

lemma kv_Put_cases: "kv_Put k v w = (r, w') \<Longrightarrow> es_kv w' = es_kv w \<or> es_kv w' = (es_kv w)(k \<mapsto> v)"
  by (auto simp: kv_Put_def remote_def es_next_def split: list.splits fault.splits prod.splits)

lemma PublishActive_own:
  "etcd_PublishActive (kv_client mj aj) m v w = (None, w') \<Longrightarrow>
     es_kv w' = (es_kv w)(active_key m \<mapsto> aj \<lparr>ae_Stable = v, ae_Canary = [], ae_CanaryPercent = 0\<rparr>)"
  by (auto simp: etcd_PublishActive_def publishActiveEnvelope_def kv_client_def kv_Put_own split: prod.splits option.splits)

lemma PublishCanaryState_own:
  "etcd_PublishCanaryState (kv_client mj aj) m v c p w = (None, w') \<Longrightarrow>
     es_kv w' = (es_kv w)(active_key m \<mapsto> aj \<lparr>ae_Stable = v, ae_Canary = c, ae_CanaryPercent = p\<rparr>)"
  by (auto simp: etcd_PublishCanaryState_def publishActiveEnvelope_def kv_client_def kv_Put_own split: prod.splits option.splits)

end
