(* ===== verification/Registry.thy ===== *)
theory Registry
  imports Resumption Etcd "HOL-Library.AList" "HOL-Library.List_Lexorder" "HOL-Library.Char_ord"
begin

text \<open>
  The model manifest registry of control-plane (\<^verbatim>\<open>services/control-plane/internal/registry\<close>): signed,
  versioned, immutable manifests and the pointer to the active version of each model. The operations of the
  service are programs of \<open>Resumption\<close>, one action per call to the store, to the signer (Vault Transit)
  and to the publisher (etcd). \<^verbatim>\<open>json.Valid\<close>, \<^verbatim>\<open>uuid.NewString\<close>, the clock and the RFC 3339 rendering of
  a time are fields of the service record.

  The SQL statements of \<open>CockroachStore\<close> are given their meaning on tables; a statement is atomic, and what
  happens to the statements to come (\<open>t_faults\<close>) is any list of \<open>fault\<close>s. Versions are UUIDs in the form the
  database prints. The locale \<open>registry_store\<close> is
  what the service needs of a store.
\<close>

section \<open>Model\<close>

abbreviation SigningKeyName :: string where "SigningKeyName \<equiv> ''model-manifest-signing''"
abbreviation manifestStatus :: string where "manifestStatus \<equiv> ''published''"

definition registry_ErrNotFound :: go_error where
  "registry_ErrNotFound = Sentinel ''registry'' ''model manifest not found''"

definition ErrInvalidSignature :: go_error where
  "ErrInvalidSignature = Sentinel ''registry'' ''model manifest signature verification failed''"

record Manifest =
  mf_VersionID :: string
  mf_ModelRef :: string
  mf_SpecJSON :: string
  mf_Signature :: string
  mf_CreatedBy :: string
  mf_CreatedAt :: int
  mf_Status :: string

record registry_Entry =
  en_ModelRef :: string
  en_ActiveVersionID :: string

record 'w registry_Store =
  rs_InsertManifest :: "string \<Rightarrow> string \<Rightarrow> string \<Rightarrow> string \<Rightarrow> string \<Rightarrow> int \<Rightarrow> 'w \<Rightarrow> go_error option \<times> 'w"
  rs_SetActive :: "string \<Rightarrow> string \<Rightarrow> 'w \<Rightarrow> go_error option \<times> 'w"
  rs_GetManifestByVersion :: "string \<Rightarrow> 'w \<Rightarrow> Manifest result \<times> 'w"
  rs_GetActiveManifest :: "string \<Rightarrow> 'w \<Rightarrow> Manifest result \<times> 'w"
  rs_ListActive :: "'w \<Rightarrow> registry_Entry list result \<times> 'w"
  rs_HasActiveVersion :: "string \<Rightarrow> 'w \<Rightarrow> bool result \<times> 'w"

record 'w Signer =
  sg_Sign :: "string \<Rightarrow> string \<Rightarrow> 'w \<Rightarrow> string result \<times> 'w"
  sg_Verify :: "string \<Rightarrow> string \<Rightarrow> string \<Rightarrow> 'w \<Rightarrow> bool result \<times> 'w"

record 'w registry_Publisher =
  pb_PublishManifest ::
    "string \<Rightarrow> string \<Rightarrow> string \<Rightarrow> string \<Rightarrow> string \<Rightarrow> string \<Rightarrow> string \<Rightarrow> 'w \<Rightarrow> go_error option \<times> 'w"
  pb_PublishActive :: "string \<Rightarrow> string \<Rightarrow> 'w \<Rightarrow> go_error option \<times> 'w"

record 'w registry_Service =
  rg_store :: "'w registry_Store"
  rg_signer :: "'w Signer"
  rg_publisher :: "'w registry_Publisher"
  rg_json_Valid :: "string \<Rightarrow> bool"
  rg_NewUUID :: "'w \<Rightarrow> string \<times> 'w"
  rg_Now :: "'w \<Rightarrow> int \<times> 'w"
  rg_RFC3339 :: "int \<Rightarrow> string"

definition signedPayload :: "string \<Rightarrow> string \<Rightarrow> string \<Rightarrow> string" where
  "signedPayload versionID modelRef specJSON = versionID @ ''|'' @ modelRef @ ''|'' @ specJSON"

definition ActivateVersion :: "'w registry_Service \<Rightarrow> string \<Rightarrow> string \<Rightarrow> ('w, go_error option) prog" where
  "ActivateVersion s modelRef versionID =
     bindO (act (rs_SetActive (rg_store s) modelRef versionID))
       (\<lambda>err. Ret (Some (Wrap ''setting active version: '' err [])))
       (bindO (act (pb_PublishActive (rg_publisher s) modelRef versionID))
          (\<lambda>err. Ret (Some (Wrap ''publishing active pointer to etcd: '' err [])))
          (Ret None))"

definition RegisterModelManifest ::
  "'w registry_Service \<Rightarrow> string \<Rightarrow> string \<Rightarrow> string \<Rightarrow> ('w, string result) prog" where
  "RegisterModelManifest s modelRef specJSON createdBy =
     (if \<not> rg_json_Valid s specJSON then Ret (Inl (ErrorString ''spec_json is not valid JSON''))
      else
        bindP (act (rg_NewUUID s)) (\<lambda>versionID.
        bindP (act (rg_Now s)) (\<lambda>createdAt.
        bindE (act (sg_Sign (rg_signer s) SigningKeyName (signedPayload versionID modelRef specJSON)))
          (\<lambda>err. Ret (Inl (Wrap ''signing manifest: '' err [])))
          (\<lambda>signature.
        bindO (act (rs_InsertManifest (rg_store s) versionID modelRef specJSON signature createdBy createdAt))
          (\<lambda>err. Ret (Inl (Wrap ''inserting manifest: '' err [])))
        (bindO (act (pb_PublishManifest (rg_publisher s) versionID modelRef specJSON signature createdBy
                      (rg_RFC3339 s createdAt) manifestStatus))
          (\<lambda>err. Ret (Inl (Wrap ''publishing manifest to etcd: '' err [])))
        (bindE (act (rs_HasActiveVersion (rg_store s) modelRef))
          (\<lambda>err. Ret (Inl (Wrap ''checking existing active version: '' err [])))
          (\<lambda>hasActive.
             if hasActive then Ret (Inr versionID)
             else bindO (ActivateVersion s modelRef versionID)
                    (\<lambda>err. Ret (Inl err))
                    (Ret (Inr versionID)))))))))"

definition GetModelManifest ::
  "'w registry_Service \<Rightarrow> string \<Rightarrow> string \<Rightarrow> ('w, Manifest result) prog" where
  "GetModelManifest s modelRef versionID =
     bindE (act (if versionID = [] then rs_GetActiveManifest (rg_store s) modelRef
                 else rs_GetManifestByVersion (rg_store s) versionID))
       (\<lambda>err. Ret (Inl err))
       (\<lambda>m. bindE (act (sg_Verify (rg_signer s) SigningKeyName
                          (signedPayload (mf_VersionID m) (mf_ModelRef m) (mf_SpecJSON m)) (mf_Signature m)))
              (\<lambda>err. Ret (Inl (Wrap ''verifying manifest signature: '' err [])))
              (\<lambda>valid. if \<not> valid then Ret (Inl ErrInvalidSignature) else Ret (Inr m)))"

definition ListModels :: "'w registry_Service \<Rightarrow> ('w, registry_Entry list result) prog" where
  "ListModels s = act (rs_ListActive (rg_store s))"

subsection \<open>CockroachStore\<close>

text \<open>The tables \<^verbatim>\<open>model_manifest\<close> and \<^verbatim>\<open>model_active\<close>.\<close>

record reg_tables = cp_env +
  t_manifest :: "Manifest list"
  t_active :: "(string \<times> string) list"
  t_faults :: "fault list"

definition db_next :: "'z reg_tables_scheme \<Rightarrow> fault \<times> 'z reg_tables_scheme" where
  "db_next w = (case t_faults w of [] \<Rightarrow> (Done, w) | f # fs \<Rightarrow> (f, w\<lparr>t_faults := fs\<rparr>))"

definition ErrUniqueViolation :: go_error where
  "ErrUniqueViolation = Sentinel ''pgconn'' ''duplicate key value violates unique constraint''"

definition ErrForeignKey :: go_error where
  "ErrForeignKey = Sentinel ''pgconn'' ''insert on table violates foreign key constraint''"

definition find_manifest :: "string \<Rightarrow> Manifest list \<Rightarrow> Manifest option" where
  "find_manifest versionID ms = find (\<lambda>m. mf_VersionID m = versionID) ms"

text \<open>The primary key refuses a second row with the same version; the column \<^verbatim>\<open>status\<close> has a default.\<close>

definition published :: "string \<Rightarrow> string \<Rightarrow> string \<Rightarrow> string \<Rightarrow> string \<Rightarrow> int \<Rightarrow> Manifest" where
  "published versionID modelRef specJSON signature createdBy createdAt =
     \<lparr>mf_VersionID = versionID, mf_ModelRef = modelRef, mf_SpecJSON = specJSON, mf_Signature = signature,
      mf_CreatedBy = createdBy, mf_CreatedAt = createdAt, mf_Status = ''published''\<rparr>"

definition Cockroach_InsertManifest ::
  "string \<Rightarrow> string \<Rightarrow> string \<Rightarrow> string \<Rightarrow> string \<Rightarrow> int \<Rightarrow> 'z reg_tables_scheme \<Rightarrow> go_error option \<times> 'z reg_tables_scheme" where
  "Cockroach_InsertManifest versionID modelRef specJSON signature createdBy createdAt =
     remote Some db_next (\<lambda>w.
       if find_manifest versionID (t_manifest w) \<noteq> None then (Some ErrUniqueViolation, w)
       else (None, w\<lparr>t_manifest := t_manifest w @ [published versionID modelRef specJSON signature createdBy createdAt]\<rparr>))"

text \<open>The upsert; the foreign key asks for an existing version.\<close>

definition Cockroach_SetActive ::
  "string \<Rightarrow> string \<Rightarrow> 'z reg_tables_scheme \<Rightarrow> go_error option \<times> 'z reg_tables_scheme" where
  "Cockroach_SetActive modelRef versionID =
     remote Some db_next (\<lambda>w.
       if find_manifest versionID (t_manifest w) = None then (Some ErrForeignKey, w)
       else (None, w\<lparr>t_active := AList.update modelRef versionID (t_active w)\<rparr>))"

definition scanManifest :: "Manifest option \<Rightarrow> Manifest result" where
  "scanManifest row = (case row of None \<Rightarrow> Inl registry_ErrNotFound | Some m \<Rightarrow> Inr m)"

definition Cockroach_GetManifestByVersion ::
  "string \<Rightarrow> 'z reg_tables_scheme \<Rightarrow> Manifest result \<times> 'z reg_tables_scheme" where
  "Cockroach_GetManifestByVersion versionID =
     remote Inl db_next (\<lambda>w. (scanManifest (find_manifest versionID (t_manifest w)), w))"

text \<open>The join of the two tables on the version.\<close>

definition Cockroach_GetActiveManifest ::
  "string \<Rightarrow> 'z reg_tables_scheme \<Rightarrow> Manifest result \<times> 'z reg_tables_scheme" where
  "Cockroach_GetActiveManifest modelRef =
     remote Inl db_next (\<lambda>w.
       (scanManifest (Option.bind (map_of (t_active w) modelRef) (\<lambda>v. find_manifest v (t_manifest w))), w))"

definition Cockroach_HasActiveVersion ::
  "string \<Rightarrow> 'z reg_tables_scheme \<Rightarrow> bool result \<times> 'z reg_tables_scheme" where
  "Cockroach_HasActiveVersion modelRef = remote Inl db_next (\<lambda>w. (Inr (map_of (t_active w) modelRef \<noteq> None), w))"

definition Cockroach_ListActive :: "'z reg_tables_scheme \<Rightarrow> registry_Entry list result \<times> 'z reg_tables_scheme" where
  "Cockroach_ListActive =
     remote Inl db_next (\<lambda>w.
       (Inr (map (\<lambda>(m, v). \<lparr>en_ModelRef = m, en_ActiveVersionID = v\<rparr>) (sort_key fst (t_active w))), w))"

definition registry_CockroachStore :: "'z reg_tables_scheme registry_Store" where
  "registry_CockroachStore =
     \<lparr>rs_InsertManifest = Cockroach_InsertManifest, rs_SetActive = Cockroach_SetActive,
      rs_GetManifestByVersion = Cockroach_GetManifestByVersion, rs_GetActiveManifest = Cockroach_GetActiveManifest,
      rs_ListActive = Cockroach_ListActive, rs_HasActiveVersion = Cockroach_HasActiveVersion\<rparr>"

subsection \<open>FakeStore, FakeSigner and FakePublisher\<close>

record registry_FakeStore =
  fs_manifests :: "(string \<times> Manifest) list"
  fs_active :: "(string \<times> string) list"

definition registry_NewFakeStore :: registry_FakeStore where
  "registry_NewFakeStore = \<lparr>fs_manifests = [], fs_active = []\<rparr>"

definition FakeStore_InsertManifest ::
  "string \<Rightarrow> string \<Rightarrow> string \<Rightarrow> string \<Rightarrow> string \<Rightarrow> int \<Rightarrow> 'z registry_FakeStore_scheme \<Rightarrow> go_error option \<times> 'z registry_FakeStore_scheme" where
  "FakeStore_InsertManifest versionID modelRef specJSON signature createdBy createdAt f =
     (if map_of (fs_manifests f) versionID \<noteq> None
      then (Some (ErrorString (''version_id collision: '' @ versionID)), f)
      else (None, f\<lparr>fs_manifests := AList.update versionID
               (published versionID modelRef specJSON signature createdBy createdAt) (fs_manifests f)\<rparr>))"

definition FakeStore_SetActive ::
  "string \<Rightarrow> string \<Rightarrow> 'z registry_FakeStore_scheme \<Rightarrow> go_error option \<times> 'z registry_FakeStore_scheme" where
  "FakeStore_SetActive modelRef versionID f = (None, f\<lparr>fs_active := AList.update modelRef versionID (fs_active f)\<rparr>)"

definition FakeStore_GetManifestByVersion ::
  "string \<Rightarrow> 'z registry_FakeStore_scheme \<Rightarrow> Manifest result \<times> 'z registry_FakeStore_scheme" where
  "FakeStore_GetManifestByVersion versionID f =
     (case map_of (fs_manifests f) versionID of None \<Rightarrow> (Inl registry_ErrNotFound, f) | Some m \<Rightarrow> (Inr m, f))"

definition FakeStore_GetActiveManifest ::
  "string \<Rightarrow> 'z registry_FakeStore_scheme \<Rightarrow> Manifest result \<times> 'z registry_FakeStore_scheme" where
  "FakeStore_GetActiveManifest modelRef f =
     (case map_of (fs_active f) modelRef of
        None \<Rightarrow> (Inl registry_ErrNotFound, f)
      | Some versionID \<Rightarrow> FakeStore_GetManifestByVersion versionID f)"

definition FakeStore_HasActiveVersion ::
  "string \<Rightarrow> 'z registry_FakeStore_scheme \<Rightarrow> bool result \<times> 'z registry_FakeStore_scheme" where
  "FakeStore_HasActiveVersion modelRef f = (Inr (map_of (fs_active f) modelRef \<noteq> None), f)"

definition FakeStore_ListActive :: "'z registry_FakeStore_scheme \<Rightarrow> registry_Entry list result \<times> 'z registry_FakeStore_scheme" where
  "FakeStore_ListActive f =
     (Inr (map (\<lambda>(m, v). \<lparr>en_ModelRef = m, en_ActiveVersionID = v\<rparr>) (fs_active f)), f)"

definition FakeStore_TamperManifest ::
  "string \<Rightarrow> (Manifest \<Rightarrow> Manifest) \<Rightarrow> 'z registry_FakeStore_scheme \<Rightarrow> 'z registry_FakeStore_scheme" where
  "FakeStore_TamperManifest versionID mutate f =
     (case map_of (fs_manifests f) versionID of
        None \<Rightarrow> f
      | Some m \<Rightarrow> f\<lparr>fs_manifests := AList.update versionID (mutate m) (fs_manifests f)\<rparr>)"

definition registry_FakeStore_ops :: "'z registry_FakeStore_scheme registry_Store" where
  "registry_FakeStore_ops =
     \<lparr>rs_InsertManifest = FakeStore_InsertManifest, rs_SetActive = FakeStore_SetActive,
      rs_GetManifestByVersion = FakeStore_GetManifestByVersion, rs_GetActiveManifest = FakeStore_GetActiveManifest,
      rs_ListActive = FakeStore_ListActive, rs_HasActiveVersion = FakeStore_HasActiveVersion\<rparr>"

text \<open>
  The keys of the fake signer are a function of the key's name, so caching them is not visible. The
  argument is HMAC-SHA256 with the base64 rendering.
\<close>

definition FakeSigner_keyFor :: "string \<Rightarrow> string" where
  "FakeSigner_keyFor keyName = ''fake-test-signing-key-'' @ keyName"

definition FakeSigner_Sign ::
  "(string \<Rightarrow> string \<Rightarrow> string) \<Rightarrow> string \<Rightarrow> string \<Rightarrow> 'w \<Rightarrow> string result \<times> 'w" where
  "FakeSigner_Sign hmac_b64 keyName input w = (Inr (''fake:v1:'' @ hmac_b64 (FakeSigner_keyFor keyName) input), w)"

definition FakeSigner_Verify ::
  "(string \<Rightarrow> string \<Rightarrow> string) \<Rightarrow> string \<Rightarrow> string \<Rightarrow> string \<Rightarrow> 'w \<Rightarrow> bool result \<times> 'w" where
  "FakeSigner_Verify hmac_b64 keyName input signature w =
     (case FakeSigner_Sign hmac_b64 keyName input w of
        (Inl err, w1) \<Rightarrow> (Inl err, w1)
      | (Inr expected, w1) \<Rightarrow> (Inr (expected = signature), w1))"

definition FakeSigner :: "(string \<Rightarrow> string \<Rightarrow> string) \<Rightarrow> 'w Signer" where
  "FakeSigner hmac_b64 = \<lparr>sg_Sign = FakeSigner_Sign hmac_b64, sg_Verify = FakeSigner_Verify hmac_b64\<rparr>"

record registry_FakePublisher =
  fp_Manifests :: "(string \<times> string \<times> string \<times> string \<times> string \<times> string \<times> string) list"
  fp_Active :: "string \<rightharpoonup> string"
  fp_Err :: "go_error option"

definition FakePublisher_PublishManifest ::
  "string \<Rightarrow> string \<Rightarrow> string \<Rightarrow> string \<Rightarrow> string \<Rightarrow> string \<Rightarrow> string \<Rightarrow> 'z registry_FakePublisher_scheme
     \<Rightarrow> go_error option \<times> 'z registry_FakePublisher_scheme" where
  "FakePublisher_PublishManifest versionID modelRef specJSON signature createdBy createdAt status f =
     (if fp_Err f \<noteq> None then (fp_Err f, f)
      else (None, f\<lparr>fp_Manifests := fp_Manifests f @ [(versionID, modelRef, specJSON, signature, createdBy, createdAt, status)]\<rparr>))"

definition FakePublisher_PublishActive ::
  "string \<Rightarrow> string \<Rightarrow> 'z registry_FakePublisher_scheme \<Rightarrow> go_error option \<times> 'z registry_FakePublisher_scheme" where
  "FakePublisher_PublishActive modelRef versionID f =
     (if fp_Err f \<noteq> None then (fp_Err f, f) else (None, f\<lparr>fp_Active := (fp_Active f)(modelRef \<mapsto> versionID)\<rparr>))"

subsection \<open>The etcd client as publisher\<close>

definition etcd_registry_Publisher :: "'w etcd_Client \<Rightarrow> 'w registry_Publisher" where
  "etcd_registry_Publisher cli =
     \<lparr>pb_PublishManifest = etcd_PublishManifest cli, pb_PublishActive = etcd_PublishActive cli\<rparr>"

section \<open>What the service needs of a store\<close>

text \<open>
  A store is observed through the manifests it holds and the active pointers. A statement that reports an error may
  have been carried out.
\<close>

locale registry_store =
  fixes st :: "'w registry_Store"
    and manifests :: "'w \<Rightarrow> string \<rightharpoonup> Manifest"
    and active :: "'w \<Rightarrow> string \<rightharpoonup> string"
  assumes InsertManifest_ok:
    "rs_InsertManifest st v m j sg cb t w = (None, w') \<Longrightarrow>
       manifests w v = None \<and> manifests w' = (manifests w)(v \<mapsto> published v m j sg cb t) \<and> active w' = active w"
    and InsertManifest_err:
    "rs_InsertManifest st v m j sg cb t w = (Some e, w') \<Longrightarrow>
       active w' = active w \<and>
       (manifests w' = manifests w \<or>
        manifests w v = None \<and> manifests w' = (manifests w)(v \<mapsto> published v m j sg cb t))"
    and SetActive_ok:
    "rs_SetActive st m v w = (None, w') \<Longrightarrow> active w' = (active w)(m \<mapsto> v) \<and> manifests w' = manifests w"
    and SetActive_err:
    "rs_SetActive st m v w = (Some e, w') \<Longrightarrow>
       manifests w' = manifests w \<and> (active w' = active w \<or> active w' = (active w)(m \<mapsto> v))"
    and GetManifestByVersion_law:
    "rs_GetManifestByVersion st v w = (r, w') \<Longrightarrow>
       manifests w' = manifests w \<and> active w' = active w \<and> (\<forall>x. r = Inr x \<longrightarrow> manifests w v = Some x)"
    and GetActiveManifest_law:
    "rs_GetActiveManifest st m w = (r, w') \<Longrightarrow>
       manifests w' = manifests w \<and> active w' = active w \<and>
       (\<forall>x. r = Inr x \<longrightarrow> (\<exists>v. active w m = Some v \<and> manifests w v = Some x))"
    and HasActiveVersion_law:
    "rs_HasActiveVersion st m w = (rb, w') \<Longrightarrow>
       manifests w' = manifests w \<and> active w' = active w \<and> (\<forall>b. rb = Inr b \<longrightarrow> b = (active w m \<noteq> None))"
    and ListActive_law:
    "rs_ListActive st w = (rl, w') \<Longrightarrow>
       manifests w' = manifests w \<and> active w' = active w \<and>
       (\<forall>es. rl = Inr es \<longrightarrow> map_of (map (\<lambda>e. (en_ModelRef e, en_ActiveVersionID e)) es) = active w)"

text \<open>Two worlds with the same manifests where the second may hold more.\<close>

definition manifests_kept :: "('w \<Rightarrow> string \<rightharpoonup> Manifest) \<Rightarrow> 'w \<Rightarrow> 'w \<Rightarrow> bool" where
  "manifests_kept mfs w w' \<longleftrightarrow> mfs w \<subseteq>\<^sub>m mfs w'"

lemma manifests_kept_rtranclp: "(manifests_kept mfs)\<^sup>*\<^sup>* w w' \<Longrightarrow> mfs w \<subseteq>\<^sub>m mfs w'"
  by (induction rule: rtranclp_induct) (auto simp: manifests_kept_def intro: map_le_trans)

lemma map_le_fresh: "m v = None \<Longrightarrow> m \<subseteq>\<^sub>m m(v \<mapsto> x)"
  by (auto simp: map_le_def)

context registry_store
begin

lemma insert_kept: "manifests_kept manifests w (snd (rs_InsertManifest st v m j sg cb t w))"
proof -
  obtain r w' where i: "rs_InsertManifest st v m j sg cb t w = (r, w')" by fastforce
  have "manifests w' = manifests w \<or>
      manifests w v = None \<and> manifests w' = (manifests w)(v \<mapsto> published v m j sg cb t)"
    using InsertManifest_ok [of v m j sg cb t w w'] InsertManifest_err [of v m j sg cb t w _ w'] i
    by (cases r) auto
  with i show ?thesis by (auto simp: manifests_kept_def map_le_fresh)
qed

lemma others_kept:
  "manifests_kept manifests w (snd (rs_SetActive st m v w))"
  "manifests_kept manifests w (snd (rs_GetManifestByVersion st v w))"
  "manifests_kept manifests w (snd (rs_GetActiveManifest st m w))"
  "manifests_kept manifests w (snd (rs_HasActiveVersion st m w))"
  "manifests_kept manifests w (snd (rs_ListActive st w))"
proof -
  show "manifests_kept manifests w (snd (rs_SetActive st m v w))"
  proof (cases "rs_SetActive st m v w")
    case (Pair r w')
    then show ?thesis
      using SetActive_ok [of m v w w'] SetActive_err [of m v w _ w'] by (cases r) (auto simp: manifests_kept_def)
  qed
  show "manifests_kept manifests w (snd (rs_GetManifestByVersion st v w))"
    using GetManifestByVersion_law [of v w] by (cases "rs_GetManifestByVersion st v w") (simp add: manifests_kept_def)
  show "manifests_kept manifests w (snd (rs_GetActiveManifest st m w))"
    using GetActiveManifest_law [of m w] by (cases "rs_GetActiveManifest st m w") (simp add: manifests_kept_def)
  show "manifests_kept manifests w (snd (rs_HasActiveVersion st m w))"
    using HasActiveVersion_law [of m w] by (cases "rs_HasActiveVersion st m w") (simp add: manifests_kept_def)
  show "manifests_kept manifests w (snd (rs_ListActive st w))"
    using ListActive_law [of w] by (cases "rs_ListActive st w") (simp add: manifests_kept_def)
qed

lemma store_kept:
  "guar (manifests_kept manifests) (act (rs_InsertManifest st v m j sg cb t))"
  "guar (manifests_kept manifests) (act (rs_SetActive st m v))"
  "guar (manifests_kept manifests) (act (rs_GetManifestByVersion st v))"
  "guar (manifests_kept manifests) (act (rs_GetActiveManifest st m))"
  "guar (manifests_kept manifests) (act (rs_HasActiveVersion st m))"
  "guar (manifests_kept manifests) (act (rs_ListActive st))"
  by (rule guar_act, rule insert_kept others_kept)+

end

text \<open>
  A service on such a store: the signer, the publisher, the clock and the source of UUIDs are other systems, which
  do not write the store's tables.
\<close>

locale registry_service = registry_store "rg_store s" manifests active
  for s :: "'w registry_Service" and manifests :: "'w \<Rightarrow> string \<rightharpoonup> Manifest" and active :: "'w \<Rightarrow> string \<rightharpoonup> string" +
  assumes Sign_keeps: "keeps (\<lambda>w. (manifests w, active w)) (sg_Sign (rg_signer s) k p)"
    and Verify_keeps: "keeps (\<lambda>w. (manifests w, active w)) (sg_Verify (rg_signer s) k p sig)"
    and PublishManifest_keeps:
      "keeps (\<lambda>w. (manifests w, active w)) (pb_PublishManifest (rg_publisher s) v m j sig cb ca status)"
    and PublishActive_keeps: "keeps (\<lambda>w. (manifests w, active w)) (pb_PublishActive (rg_publisher s) m v)"
    and NewUUID_keeps: "keeps (\<lambda>w. (manifests w, active w)) (rg_NewUUID s)"
    and Now_keeps: "keeps (\<lambda>w. (manifests w, active w)) (rg_Now s)"
begin

lemma keeps_kept: "keeps (\<lambda>w. (manifests w, active w)) f \<Longrightarrow> guar (manifests_kept manifests) (act f)"
  by (rule guar_act) (simp add: keeps_def manifests_kept_def)

lemmas service_keeps =
  keeps_kept [OF Sign_keeps] keeps_kept [OF Verify_keeps] keeps_kept [OF PublishManifest_keeps]
  keeps_kept [OF PublishActive_keeps] keeps_kept [OF NewUUID_keeps] keeps_kept [OF Now_keeps]
  store_kept

lemma ActivateVersion_kept: "guar (manifests_kept manifests) (ActivateVersion s m v)"
  unfolding ActivateVersion_def by (intro guar_bindO service_keeps guar_Ret)

lemma RegisterModelManifest_kept: "guar (manifests_kept manifests) (RegisterModelManifest s m j cb)"
  unfolding RegisterModelManifest_def
  by (auto intro!: guar_bindP guar_bindE guar_bindO service_keeps ActivateVersion_kept)

lemma GetModelManifest_kept: "guar (manifests_kept manifests) (GetModelManifest s m v)"
  unfolding GetModelManifest_def
  by (cases "v = []") (auto intro!: guar_bindE service_keeps)

lemma ListModels_kept: "guar (manifests_kept manifests) (ListModels s)"
  unfolding ListModels_def by (rule service_keeps)

lemma run_ActivateVersion:
  assumes "run (ActivateVersion s m v) w = (None, w')"
  shows "active w' = (active w)(m \<mapsto> v) \<and> manifests w' = manifests w \<and>
    (\<exists>w1. pb_PublishActive (rg_publisher s) m v w1 = (None, w'))"
proof -
  obtain w1 where 1: "rs_SetActive (rg_store s) m v w = (None, w1)" "pb_PublishActive (rg_publisher s) m v w1 = (None, w')"
    using assms by (auto simp: ActivateVersion_def split: prod.splits option.splits)
  have "(manifests w', active w') = (manifests w1, active w1)"
    using keepsD [OF PublishActive_keeps 1(2)] .
  with SetActive_ok [OF 1(1)] 1(2) show ?thesis by auto
qed

lemma run_RegisterModelManifest:
  assumes "run (RegisterModelManifest s m j cb) w = (Inr v, w')"
  shows "rg_json_Valid s j \<and> manifests w v = None \<and>
    (\<exists>sg t w1 w2. sg_Sign (rg_signer s) SigningKeyName (signedPayload v m j) w1 = (Inr sg, w2) \<and>
       manifests w' = (manifests w)(v \<mapsto> published v m j sg cb t)) \<and>
    active w' = (if active w m = None then (active w)(m \<mapsto> v) else active w)"
proof -
  obtain w1 t w2 sg w3 w4 w5 h w6 where valid: "rg_json_Valid s j"
    and 1: "rg_NewUUID s w = (v, w1)" and 2: "rg_Now s w1 = (t, w2)"
    and 3: "sg_Sign (rg_signer s) SigningKeyName (signedPayload v m j) w2 = (Inr sg, w3)"
    and 4: "rs_InsertManifest (rg_store s) v m j sg cb t w3 = (None, w4)"
    and 5: "pb_PublishManifest (rg_publisher s) v m j sg cb (rg_RFC3339 s t) manifestStatus w4 = (None, w5)"
    and 6: "rs_HasActiveVersion (rg_store s) m w5 = (Inr h, w6)"
    and 7: "if h then w' = w6 else run (ActivateVersion s m v) w6 = (None, w')"
    using assms
    by (auto simp: RegisterModelManifest_def split: prod.splits sum.splits option.splits if_splits)
  have o1: "manifests w1 = manifests w \<and> active w1 = active w" using keepsD [OF NewUUID_keeps 1] by simp
  have o2: "manifests w2 = manifests w1 \<and> active w2 = active w1" using keepsD [OF Now_keeps 2] by simp
  have o3: "manifests w3 = manifests w2 \<and> active w3 = active w2" using keepsD [OF Sign_keeps 3] by simp
  note o4 = InsertManifest_ok [OF 4]
  have o5: "manifests w5 = manifests w4 \<and> active w5 = active w4" using keepsD [OF PublishManifest_keeps 5] by simp
  note o6 = HasActiveVersion_law [OF 6]
  have o7: "manifests w' = manifests w6 \<and> active w' = (if h then active w6 else (active w6)(m \<mapsto> v))"
    using 7 run_ActivateVersion [of m v w6 w'] by (auto split: if_splits)
  from valid o1 o2 o3 o4 o5 o6 o7 3 show ?thesis by auto
qed

lemma run_RegisterModelManifest_active:
  assumes "run (RegisterModelManifest s m j cb) w = (r, w')" "active w m \<noteq> None"
  shows "active w' = active w"
proof (cases "rg_json_Valid s j")
  case False
  with assms(1) show ?thesis by (simp add: RegisterModelManifest_def)
next
  case True
  obtain v w1 where 1: "rg_NewUUID s w = (v, w1)" by fastforce
  obtain t w2 where 2: "rg_Now s w1 = (t, w2)" by fastforce
  obtain r3 w3 where 3: "sg_Sign (rg_signer s) SigningKeyName (signedPayload v m j) w2 = (r3, w3)" by fastforce
  have a3: "active w3 = active w"
    using keepsD [OF NewUUID_keeps 1] keepsD [OF Now_keeps 2] keepsD [OF Sign_keeps 3] by simp
  show ?thesis
  proof (cases r3)
    case Inl
    with assms(1) True 1 2 3 a3 show ?thesis by (simp add: RegisterModelManifest_def)
  next
    case (Inr sg)
    obtain r4 w4 where 4: "rs_InsertManifest (rg_store s) v m j sg cb t w3 = (r4, w4)" by fastforce
    have a4: "active w4 = active w"
      using InsertManifest_ok [of v m j sg cb t w3 w4] InsertManifest_err [of v m j sg cb t w3 _ w4] 4 a3
      by (cases r4) auto
    obtain r5 w5 where 5: "pb_PublishManifest (rg_publisher s) v m j sg cb (rg_RFC3339 s t) manifestStatus w4 = (r5, w5)"
      by fastforce
    have a5: "active w5 = active w" using keepsD [OF PublishManifest_keeps 5] a4 by simp
    obtain r6 w6 where 6: "rs_HasActiveVersion (rg_store s) m w5 = (r6, w6)" by fastforce
    have a6: "active w6 = active w" "\<forall>b. r6 = Inr b \<longrightarrow> b"
      using HasActiveVersion_law [OF 6] a5 assms(2) by auto
    show ?thesis
      using assms(1) True 1 2 3 4 5 6 a4 a5 a6 Inr
      by (auto simp: RegisterModelManifest_def split: option.splits sum.splits)
  qed
qed

text \<open>What the service returns was stored under the version asked for and its signature was checked.\<close>

lemma run_GetModelManifest:
  assumes "run (GetModelManifest s m v) w = (Inr x, w')"
  shows "(if v = [] then \<exists>a. active w m = Some a \<and> manifests w a = Some x else manifests w v = Some x) \<and>
    (\<exists>w1. sg_Verify (rg_signer s) SigningKeyName (signedPayload (mf_VersionID x) (mf_ModelRef x) (mf_SpecJSON x))
            (mf_Signature x) w1 = (Inr True, w')) \<and> manifests w' = manifests w \<and> active w' = active w"
proof -
  let ?get = "if v = [] then rs_GetActiveManifest (rg_store s) m else rs_GetManifestByVersion (rg_store s) v"
  obtain w1 where 1: "?get w = (Inr x, w1)" and
    2: "sg_Verify (rg_signer s) SigningKeyName (signedPayload (mf_VersionID x) (mf_ModelRef x) (mf_SpecJSON x))
            (mf_Signature x) w1 = (Inr True, w')"
    using assms by (auto simp: GetModelManifest_def split: prod.splits sum.splits if_splits)
  have "(if v = [] then \<exists>a. active w m = Some a \<and> manifests w a = Some x else manifests w v = Some x) \<and>
      manifests w1 = manifests w \<and> active w1 = active w"
    using 1 GetActiveManifest_law [of m w "Inr x" w1] GetManifestByVersion_law [of v w "Inr x" w1]
    by (cases "v = []") auto
  with 2 keepsD [OF Verify_keeps 2] show ?thesis by auto
qed

end

section \<open>The two stores\<close>

definition reg_manifests :: "'z reg_tables_scheme \<Rightarrow> string \<rightharpoonup> Manifest" where
  "reg_manifests w = (\<lambda>v. find_manifest v (t_manifest w))"

definition reg_active :: "'z reg_tables_scheme \<Rightarrow> string \<rightharpoonup> string" where
  "reg_active w = map_of (t_active w)"

lemma find_manifest_append:
  "find_manifest v ms = None \<Longrightarrow> mf_VersionID x = v \<Longrightarrow>
     (\<lambda>u. find_manifest u (ms @ [x])) = (\<lambda>u. find_manifest u ms)(v \<mapsto> x)"
  by (rule ext, induction ms) (auto simp: find_manifest_def)

lemma db_next_obs:
  "db_next w = (f, w') \<Longrightarrow>
     t_manifest w' = t_manifest w \<and> t_active w' = t_active w \<and> cp_env.truncate w' = cp_env.truncate w"
  by (auto simp: db_next_def cp_env.truncate_def split: list.splits)

lemma published_version [simp]: "mf_VersionID (published v m j sg cb t) = v"
  by (simp add: published_def)

lemmas registry_sql =
  registry_CockroachStore_def remote_def reg_manifests_def reg_active_def

text \<open>A statement that only reads.\<close>

lemma remote_read:
  assumes "remote Inl db_next (\<lambda>w. (q w, w)) w = (r, w')"
    and "\<And>u. t_manifest u = t_manifest w \<Longrightarrow> t_active u = t_active w \<Longrightarrow> q u = q w"
  shows "t_manifest w' = t_manifest w \<and> t_active w' = t_active w \<and> (\<forall>x. r = Inr x \<longrightarrow> q w = Inr x)"
proof -
  obtain f u where n: "db_next w = (f, u)" by fastforce
  note o = db_next_obs [OF n]
  then have "q u = q w" by (intro assms(2)) simp_all
  with assms(1) n o show ?thesis by (cases f) (auto simp: remote_def)
qed

lemma scanManifest_Inr: "scanManifest row = Inr x \<longleftrightarrow> row = Some x"
  by (simp add: scanManifest_def split: option.splits)

lemma map_of_filter_fst: "map_of (filter (\<lambda>p. fst p = k) xs) k = map_of xs k"
  by (induction xs) auto

lemma map_of_sort_key: "map_of (sort_key fst xs) = map_of xs"
  using map_of_filter_fst [of _ "sort_key fst xs"] map_of_filter_fst [of _ xs] sort_key_stable [of fst _ xs]
  by (intro ext) metis

lemma Cockroach_InsertManifest_cases:
  assumes "Cockroach_InsertManifest v m j sg cb t w = (r, w')"
  shows "reg_active w' = reg_active w \<and>
    (reg_manifests w' = reg_manifests w \<and> r \<noteq> None \<or>
     reg_manifests w v = None \<and> reg_manifests w' = (reg_manifests w)(v \<mapsto> published v m j sg cb t))"
proof -
  obtain f u where n: "db_next w = (f, u)" by fastforce
  note o = db_next_obs [OF n]
  show ?thesis
  proof (cases "find_manifest v (t_manifest w) = None")
    case True
    from find_manifest_append [OF True, of "published v m j sg cb t"] True assms n o show ?thesis
      by (cases f) (auto simp: Cockroach_InsertManifest_def registry_sql)
  next
    case False
    with assms n o show ?thesis by (cases f) (auto simp: Cockroach_InsertManifest_def registry_sql)
  qed
qed

lemma Cockroach_SetActive_cases:
  assumes "Cockroach_SetActive m v w = (r, w')"
  shows "reg_manifests w' = reg_manifests w \<and>
    (reg_active w' = reg_active w \<and> r \<noteq> None \<or>
     reg_manifests w v \<noteq> None \<and> reg_active w' = (reg_active w)(m \<mapsto> v))"
proof -
  obtain f u where n: "db_next w = (f, u)" by fastforce
  note o = db_next_obs [OF n]
  show ?thesis
    using assms n o
    by (cases f; cases "find_manifest v (t_manifest w) = None")
      (auto simp: Cockroach_SetActive_def registry_sql update_conv')
qed

interpretation cockroach: registry_store registry_CockroachStore reg_manifests reg_active
proof (unfold_locales, goal_cases)
  case 1
  then show ?case using Cockroach_InsertManifest_cases by (fastforce simp: registry_CockroachStore_def)
next
  case 2
  then show ?case using Cockroach_InsertManifest_cases by (fastforce simp: registry_CockroachStore_def)
next
  case 3
  then show ?case using Cockroach_SetActive_cases by (fastforce simp: registry_CockroachStore_def)
next
  case 4
  then show ?case using Cockroach_SetActive_cases by (fastforce simp: registry_CockroachStore_def)
next
  case (5 v w r w')
  then have "remote Inl db_next (\<lambda>w. (scanManifest (find_manifest v (t_manifest w)), w)) w = (r, w')"
    by (simp add: registry_CockroachStore_def Cockroach_GetManifestByVersion_def)
  from remote_read [OF this] show ?case by (simp add: reg_manifests_def reg_active_def scanManifest_Inr)
next
  case (6 m w r w')
  then have "remote Inl db_next (\<lambda>w. (scanManifest (Option.bind (map_of (t_active w) m)
      (\<lambda>v. find_manifest v (t_manifest w))), w)) w = (r, w')"
    by (simp add: registry_CockroachStore_def Cockroach_GetActiveManifest_def)
  from remote_read [OF this] show ?case
    by (auto simp: reg_manifests_def reg_active_def scanManifest_Inr Option.bind_eq_Some_conv)
next
  case (7 m w r w')
  then have "remote Inl db_next (\<lambda>w. (Inr (map_of (t_active w) m \<noteq> None), w)) w = (r, w')"
    by (simp add: registry_CockroachStore_def Cockroach_HasActiveVersion_def)
  from remote_read [OF this] show ?case by (auto simp: reg_manifests_def reg_active_def)
next
  case (8 w r w')
  then have "remote Inl db_next (\<lambda>w. (Inr (map (\<lambda>(m, v). \<lparr>en_ModelRef = m, en_ActiveVersionID = v\<rparr>)
      (sort_key fst (t_active w))), w)) w = (r, w')"
    by (simp add: registry_CockroachStore_def Cockroach_ListActive_def)
  from remote_read [OF this] show ?case
    by (auto simp: reg_manifests_def reg_active_def comp_def case_prod_unfold map_of_sort_key)
qed

definition fake_manifests :: "'z registry_FakeStore_scheme \<Rightarrow> string \<rightharpoonup> Manifest" where
  "fake_manifests f = map_of (fs_manifests f)"

definition fake_active :: "'z registry_FakeStore_scheme \<Rightarrow> string \<rightharpoonup> string" where
  "fake_active f = map_of (fs_active f)"

lemmas registry_fake =
  registry_FakeStore_ops_def fake_manifests_def fake_active_def FakeStore_InsertManifest_def FakeStore_SetActive_def
  FakeStore_GetManifestByVersion_def FakeStore_GetActiveManifest_def FakeStore_HasActiveVersion_def
  FakeStore_ListActive_def update_conv'

interpretation fake: registry_store registry_FakeStore_ops fake_manifests fake_active
  by (unfold_locales) (auto simp: registry_fake comp_def case_prod_unfold split: if_splits option.splits)

section \<open>The service on CockroachDB\<close>

text \<open>
  The hypothesis of the properties below: Vault, etcd, the clock and the source of UUIDs do not write the
  registry's tables.
\<close>

definition registry_outside :: "'z reg_tables_scheme registry_Service \<Rightarrow> bool" where
  "registry_outside s \<longleftrightarrow>
     (\<forall>k p. keeps (\<lambda>w. (reg_manifests w, reg_active w)) (sg_Sign (rg_signer s) k p)) \<and>
     (\<forall>k p sig. keeps (\<lambda>w. (reg_manifests w, reg_active w)) (sg_Verify (rg_signer s) k p sig)) \<and>
     (\<forall>v m j sig cb ca status.
        keeps (\<lambda>w. (reg_manifests w, reg_active w)) (pb_PublishManifest (rg_publisher s) v m j sig cb ca status)) \<and>
     (\<forall>m v. keeps (\<lambda>w. (reg_manifests w, reg_active w)) (pb_PublishActive (rg_publisher s) m v)) \<and>
     keeps (\<lambda>w. (reg_manifests w, reg_active w)) (rg_NewUUID s) \<and>
     keeps (\<lambda>w. (reg_manifests w, reg_active w)) (rg_Now s)"

lemma registry_service_cockroach:
  "rg_store s = registry_CockroachStore \<Longrightarrow> registry_outside s \<Longrightarrow> registry_service s reg_manifests reg_active"
  by (intro registry_service.intro registry_service_axioms.intro)
    (simp_all add: cockroach.registry_store_axioms registry_outside_def)

text \<open>The service with etcd's keys in the world, any implementation of HMAC and any rendering of the envelopes.\<close>

definition cp_registry ::
  "(string \<Rightarrow> string \<Rightarrow> string) \<Rightarrow> (ManifestEnvelope \<Rightarrow> string) \<Rightarrow> (ActiveEnvelope \<Rightarrow> string) \<Rightarrow> (string \<Rightarrow> bool) \<Rightarrow> (int \<Rightarrow> string) \<Rightarrow> 'z reg_tables_scheme registry_Service" where
  "cp_registry hmac_b64 mj aj valid rfc =
     \<lparr>rg_store = registry_CockroachStore, rg_signer = FakeSigner hmac_b64,
      rg_publisher = etcd_registry_Publisher (kv_client mj aj), rg_json_Valid = valid, rg_NewUUID = draw_uuid,
      rg_Now = read_clock, rg_RFC3339 = rfc\<rparr>"

lemma kv_Put_tables: "kv_Put k v w = (r, w') \<Longrightarrow> reg_manifests w' = reg_manifests w \<and> reg_active w' = reg_active w"
  by (auto simp: kv_Put_def remote_def es_next_def reg_manifests_def reg_active_def
      split: list.splits fault.splits prod.splits)

lemma cp_registry_outside: "registry_outside (cp_registry hmac_b64 mj aj valid rfc)"
  by (auto simp: registry_outside_def cp_registry_def keeps_def FakeSigner_def FakeSigner_Sign_def FakeSigner_Verify_def
      etcd_registry_Publisher_def etcd_PublishManifest_def etcd_PublishActive_def publishActiveEnvelope_def
      kv_client_def draw_uuid_def read_clock_def reg_manifests_def reg_active_def
      dest: kv_Put_tables split: prod.splits option.splits list.splits)

interpretation cp: registry_service "cp_registry hmac_b64 mj aj valid rfc" reg_manifests reg_active
  for hmac_b64 mj aj valid rfc
  by (rule registry_service_cockroach) (simp_all add: cp_registry_outside, simp add: cp_registry_def)

text \<open>The requests that the registry serves, each as a program that drops its reply.\<close>

datatype registry_call =
    CallRegister string string string
  | CallActivate string string
  | CallGet string string
  | CallList

primrec registry_serve :: "'w registry_Service \<Rightarrow> registry_call \<Rightarrow> ('w, unit) prog" where
  "registry_serve s (CallRegister m j cb) = bindP (RegisterModelManifest s m j cb) (\<lambda>_. Ret ())"
| "registry_serve s (CallActivate m v) = bindP (ActivateVersion s m v) (\<lambda>_. Ret ())"
| "registry_serve s (CallGet m v) = bindP (GetModelManifest s m v) (\<lambda>_. Ret ())"
| "registry_serve s CallList = bindP (ListModels s) (\<lambda>_. Ret ())"

lemma registry_serve_kept:
  assumes "rg_store s = registry_CockroachStore" "registry_outside s"
  shows "guar (manifests_kept reg_manifests) (registry_serve s c)"
proof -
  have svc: "registry_service s reg_manifests reg_active" using assms by (rule registry_service_cockroach)
  show ?thesis
    using registry_service.RegisterModelManifest_kept [OF svc] registry_service.ActivateVersion_kept [OF svc]
      registry_service.GetModelManifest_kept [OF svc] registry_service.ListModels_kept [OF svc]
    by (cases c) auto
qed

section \<open>Properties\<close>

text \<open>
  C11. Published manifests are immutable: in every interleaving of any number of registrations, activations, reads
  and listings, by any number of processes and whatever calls fail or lose their replies, a version that was stored
  stays stored with the same content.
\<close>

theorem registry_manifests_immutable:
  assumes "rg_store s = registry_CockroachStore" "registry_outside s"
    and "conc_reaches (map (registry_serve s) calls, w) (ps, w')"
    and "reg_manifests w v = Some m"
  shows "reg_manifests w' v = Some m"
proof -
  have "(manifests_kept reg_manifests)\<^sup>*\<^sup>* w w'"
    using conc_guar [OF assms(3), of "manifests_kept reg_manifests"] registry_serve_kept [OF assms(1,2)] by auto
  then have "reg_manifests w \<subseteq>\<^sub>m reg_manifests w'" by (rule manifests_kept_rtranclp)
  with assms(4) show ?thesis by (metis domI map_le_def)
qed

definition demo_manifest :: Manifest where
  "demo_manifest = published ''v1'' ''gpt'' ''{}'' ''sig'' ''ops'' 7"

definition demo_registry :: "unit reg_tables_scheme registry_Service" where
  "demo_registry = cp_registry (\<lambda>k p. k @ p) (\<lambda>e. me_VersionID e) (\<lambda>e. ae_Stable e) (\<lambda>j. j \<noteq> []) (\<lambda>t. [])"

definition demo_world :: reg_tables where
  "demo_world =
     \<lparr>es_kv = (\<lambda>_. None), es_faults = [], env_now = 9, env_uuids = [''v2'', ''v3''], t_manifest = [demo_manifest],
      t_active = [(''gpt'', ''v1'')], t_faults = [Done, ReplyLost (ErrorString ''conn reset'')]\<rparr>"

lemma demo_registry_ok: "rg_store demo_registry = registry_CockroachStore" "registry_outside demo_registry"
  by (simp_all add: demo_registry_def cp_registry_outside, simp add: cp_registry_def)

theorem registry_manifests_immutable_witness:
  "reg_manifests (snd (conc_run [0, 1, 0, 0, 1, 0, 1, 1, 1, 0, 1, 0]
      (map (registry_serve demo_registry) [CallRegister ''gpt'' ''{}'' ''ops'', CallRegister ''llama'' ''{}'' ''ops''],
       demo_world))) ''v1'' = Some demo_manifest"
proof -
  let ?c = "(map (registry_serve demo_registry)
      [CallRegister ''gpt'' ''{}'' ''ops'', CallRegister ''llama'' ''{}'' ''ops''], demo_world)"
  let ?d = "conc_run [0, 1, 0, 0, 1, 0, 1, 1, 1, 0, 1, 0] ?c"
  have "conc_reaches ?c (fst ?d, snd ?d)" unfolding prod.collapse by (rule conc_run_reaches)
  moreover have "reg_manifests demo_world ''v1'' = Some demo_manifest"
    by (simp add: reg_manifests_def demo_world_def find_manifest_def demo_manifest_def)
  ultimately show ?thesis by (rule registry_manifests_immutable [OF demo_registry_ok])
qed

text \<open>
  What \<open>GetModelManifest\<close> returns is the row stored under the version asked for, or under the active version
  of the model when none is named, and Vault has verified the row's signature over its version, its model and its
  specification. Reading changes neither manifests nor active pointers.
\<close>

theorem registry_get_verified:
  assumes "rg_store s = registry_CockroachStore" "registry_outside s"
    and "run (GetModelManifest s m v) w = (Inr x, w')"
  shows "(if v = [] then \<exists>a. reg_active w m = Some a \<and> reg_manifests w a = Some x else reg_manifests w v = Some x) \<and>
    (\<exists>w1. sg_Verify (rg_signer s) SigningKeyName (signedPayload (mf_VersionID x) (mf_ModelRef x) (mf_SpecJSON x))
            (mf_Signature x) w1 = (Inr True, w')) \<and> reg_manifests w' = reg_manifests w \<and> reg_active w' = reg_active w"
  by (rule registry_service.run_GetModelManifest [OF registry_service_cockroach [OF assms(1,2)] assms(3)])

definition demo_signed :: Manifest where
  "demo_signed = published ''v1'' ''gpt'' ''{}'' (''fake:v1:fake-test-signing-key-model-manifest-signingv1|gpt|{}'') ''ops'' 7"

theorem registry_get_verified_witness:
  "reg_manifests (demo_world\<lparr>t_manifest := [demo_signed]\<rparr>) ''v1'' = Some demo_signed"
proof -
  have "run (GetModelManifest demo_registry ''gpt'' ''v1'') (demo_world\<lparr>t_manifest := [demo_signed]\<rparr>) =
      (Inr demo_signed, demo_world\<lparr>t_manifest := [demo_signed], t_faults := [ReplyLost (ErrorString ''conn reset'')]\<rparr>)"
    by (simp add: GetModelManifest_def demo_registry_def cp_registry_def registry_CockroachStore_def
        Cockroach_GetManifestByVersion_def remote_def db_next_def demo_world_def demo_signed_def published_def
        find_manifest_def scanManifest_def FakeSigner_def FakeSigner_Verify_def FakeSigner_Sign_def
        FakeSigner_keyFor_def signedPayload_def)
  from registry_get_verified [OF demo_registry_ok this] show ?thesis by simp
qed

text \<open>
  The payload that is signed binds the version, the model and the specification: two manifests with the same
  payload are the same manifest, for versions and model references without the separator.
\<close>

theorem signedPayload_binds:
  assumes "CHR ''|'' \<notin> set v" "CHR ''|'' \<notin> set v'" "CHR ''|'' \<notin> set m" "CHR ''|'' \<notin> set m'"
    and "signedPayload v m j = signedPayload v' m' j'"
  shows "v = v' \<and> m = m' \<and> j = j'"
proof -
  have "v @ CHR ''|'' # (m @ CHR ''|'' # j) = v' @ CHR ''|'' # (m' @ CHR ''|'' # j')"
    using assms(5) by (simp add: signedPayload_def)
  then have "v = v' \<and> m @ CHR ''|'' # j = m' @ CHR ''|'' # j'"
    using assms(1,2) by (intro separator_split_unique)
  with assms(3,4) show ?thesis using separator_split_unique [of "CHR ''|''" m m' j j'] by auto
qed

theorem signedPayload_binds_witness: "signedPayload ''v1'' ''gpt'' ''{}'' \<noteq> signedPayload ''v1'' ''gpt-4'' ''{}''"
  using signedPayload_binds [of "''v1''" "''v1''" "''gpt''" "''gpt-4''" "''{}''" "''{}''"] by auto

text \<open>
  Registration, without interference: a registration that succeeds has stored one new row under a fresh version
  with the signature Vault made over its payload; it activates the version when the model had none, and leaves every
  active pointer alone when it had one.
\<close>

theorem registry_register:
  assumes "rg_store s = registry_CockroachStore" "registry_outside s"
    and "run (RegisterModelManifest s m j cb) w = (Inr v, w')"
  shows "rg_json_Valid s j \<and> reg_manifests w v = None \<and>
    (\<exists>sg t w1 w2. sg_Sign (rg_signer s) SigningKeyName (signedPayload v m j) w1 = (Inr sg, w2) \<and>
       reg_manifests w' = (reg_manifests w)(v \<mapsto> published v m j sg cb t)) \<and>
    reg_active w' = (if reg_active w m = None then (reg_active w)(m \<mapsto> v) else reg_active w)"
  by (rule registry_service.run_RegisterModelManifest [OF registry_service_cockroach [OF assms(1,2)] assms(3)])

lemmas demo_eval =
  demo_registry_def cp_registry_def registry_CockroachStore_def Cockroach_InsertManifest_def Cockroach_SetActive_def
  Cockroach_HasActiveVersion_def remote_def db_next_def es_next_def demo_world_def find_manifest_def demo_manifest_def
  published_def FakeSigner_def FakeSigner_Sign_def etcd_registry_Publisher_def etcd_PublishManifest_def
  etcd_PublishActive_def publishActiveEnvelope_def kv_client_def kv_Put_def draw_uuid_def read_clock_def

theorem registry_register_witness:
  "reg_active (snd (run (RegisterModelManifest demo_registry ''llama'' ''{}'' ''ops'') (demo_world\<lparr>t_faults := []\<rparr>)))
     ''llama'' = Some ''v2''"
proof -
  let ?w = "demo_world\<lparr>t_faults := []\<rparr>"
  have r: "fst (run (RegisterModelManifest demo_registry ''llama'' ''{}'' ''ops'') ?w) = Inr ''v2''"
    by (simp add: RegisterModelManifest_def ActivateVersion_def demo_eval)
  have "reg_active ?w ''llama'' = None" by (simp add: reg_active_def demo_world_def)
  with registry_register [OF demo_registry_ok, of "''llama''" "''{}''" "''ops''" ?w "''v2''"] r show ?thesis
    by (metis fun_upd_same prod.collapse)
qed

text \<open>
  Whether a model has an active version is asked before the pointer is written, in two separate statements. Two
  registrations of a model that has none can therefore both activate: the pointer that the first one set is
  moved to the second version by a registration, although no rollout took part.
\<close>

theorem registry_bootstrap_race:
  "\<exists>(s :: reg_tables registry_Service) w w1 w2 ps.
     rg_store s = registry_CockroachStore \<and> registry_outside s \<and>
     conc_reaches (map (registry_serve s) [CallRegister m j cb, CallRegister m j cb], w) (ps, w1) \<and>
     conc_reaches (ps, w1) ([Ret (), Ret ()], w2) \<and>
     reg_active w m = None \<and> reg_active w1 m = Some ''v2'' \<and> reg_active w2 m = Some ''v3''"
proof -
  let ?s = "cp_registry (\<lambda>k p. k @ p) (\<lambda>e. me_VersionID e) (\<lambda>e. ae_Stable e) (\<lambda>j. True) (\<lambda>t. []) :: reg_tables registry_Service"
  let ?w = "demo_world\<lparr>t_manifest := [], t_active := [], t_faults := []\<rparr>"
  let ?c1 = "conc_run [0, 0, 0, 0, 0, 0, 1, 1, 1, 1, 1, 1, 0, 0]
    (map (registry_serve ?s) [CallRegister m j cb, CallRegister m j cb], ?w)"
  let ?c2 = "conc_run [1, 1] ?c1"
  have ok: "rg_store ?s = registry_CockroachStore" "registry_outside ?s"
    by (simp add: cp_registry_def) (rule cp_registry_outside)
  have "reg_active ?w m = None" by (simp add: reg_active_def)
  moreover have "reg_active (snd ?c1) m = Some ''v2''"
    by (simp add: RegisterModelManifest_def ActivateVersion_def demo_eval reg_active_def bindE_def bindO_def act_def)
  moreover have "fst ?c2 = [Ret (), Ret ()]"
    by (simp add: RegisterModelManifest_def ActivateVersion_def demo_eval bindE_def bindO_def act_def)
  moreover have "reg_active (snd ?c2) m = Some ''v3''"
    by (simp add: RegisterModelManifest_def ActivateVersion_def demo_eval reg_active_def bindE_def bindO_def act_def)
  moreover have "conc_reaches (map (registry_serve ?s) [CallRegister m j cb, CallRegister m j cb], ?w) (fst ?c1, snd ?c1)"
    unfolding prod.collapse by (rule conc_run_reaches)
  moreover have "conc_reaches (fst ?c1, snd ?c1) (fst ?c2, snd ?c2)" unfolding prod.collapse by (rule conc_run_reaches)
  ultimately show ?thesis using ok by metis
qed

end
