(* ===== verification/Rely.thy ===== *)
theory Rely
  imports Resumption
begin

text \<open>
  Rely and guarantee for the programs of \<open>Resumption\<close>. \<open>guar\<close> asks every action to respect a relation from every
  world. An action that is right only because of what its program has read before needs more: \<open>safe\<close> follows a program
  from one world, lets others act between any two of its actions within the relation \<open>R\<close> and the invariant \<open>I\<close>, and
  asks each of its own actions to stay within both. What the program learnt and others cannot undo is carried by the
  postcondition \<open>Q\<close>.

  The locale \<open>rely\<close> fixes an invariant and a preorder; \<open>conc_safe\<close> is the rule for the parallel composition.
\<close>

text \<open>Running one program alone to its end is an interleaving.\<close>

lemma run_reaches: "conc_reaches ([p], w) ([Ret (fst (run p w))], snd (run p w))"
proof (induction p arbitrary: w)
  case (Step f)
  obtain q v where f: "f w = (q, v)" by fastforce
  then have "conc_step ([Step f], w) ([q], v)" using conc_step [of 0 "[Step f]" f w q v] by simp
  moreover have "f w \<in> range f" "q \<in> Basic_BNFs.fsts (f w)" by (rule rangeI, simp add: f fsts.simps)
  then have "conc_reaches ([q], v) ([Ret (fst (run q v))], snd (run q v))" using Step by blast
  ultimately show ?case using f by (simp add: conc_reaches_def converse_rtranclp_into_rtranclp)
qed (simp add: conc_reaches_def)

section \<open>Safe programs\<close>

inductive safe ::
  "('w \<Rightarrow> bool) \<Rightarrow> ('w \<Rightarrow> 'w \<Rightarrow> bool) \<Rightarrow> ('a \<Rightarrow> 'w \<Rightarrow> bool) \<Rightarrow> ('w, 'a) prog \<Rightarrow> 'w \<Rightarrow> bool" for I R Q where
  safe_Ret: "(\<And>w'. I w' \<Longrightarrow> R w w' \<Longrightarrow> Q a w') \<Longrightarrow> safe I R Q (Ret a) w"
| safe_Step: "(\<And>w'. I w' \<Longrightarrow> R w w' \<Longrightarrow> I (snd (f w')) \<and> R w' (snd (f w')) \<and> safe I R Q (fst (f w')) (snd (f w')))
    \<Longrightarrow> safe I R Q (Step f) w"

inductive_cases safe_RetE: "safe I R Q (Ret a) w"
inductive_cases safe_StepE: "safe I R Q (Step f) w"

locale rely =
  fixes I :: "'w \<Rightarrow> bool" and R :: "'w \<Rightarrow> 'w \<Rightarrow> bool"
  assumes R_refl: "R w w" and R_trans: "R u v \<Longrightarrow> R v w \<Longrightarrow> R u w"
begin

text \<open>What others do does not make a program unsafe.\<close>

lemma safe_stable: "safe I R Q p w \<Longrightarrow> R w w' \<Longrightarrow> safe I R Q p w'"
proof (cases p)
  case (Ret a)
  assume "safe I R Q p w" "R w w'"
  with Ret show ?thesis by (auto elim!: safe_RetE intro!: safe_Ret dest: R_trans)
next
  case (Step f)
  assume s: "safe I R Q p w" and r: "R w w'"
  have "I (snd (f v)) \<and> R v (snd (f v)) \<and> safe I R Q (fst (f v)) (snd (f v))" if "I v" "R w' v" for v
    using s [unfolded Step] R_trans [OF r that(2)] that(1) by (auto elim!: safe_StepE)
  then show ?thesis unfolding Step by (rule safe_Step)
qed

lemma safe_bindP:
  assumes "safe I R Q p w" "I w" "\<And>a w'. I w' \<Longrightarrow> R w w' \<Longrightarrow> Q a w' \<Longrightarrow> safe I R S (k a) w'"
  shows "safe I R S (bindP p k) w"
  using assms
proof (induction rule: safe.induct)
  case (safe_Ret w a)
  then show ?case using R_refl by simp
next
  case (safe_Step w f)
  have "I (snd (f v)) \<and> R v (snd (f v)) \<and> safe I R S (bindP (fst (f v)) k) (snd (f v))" if v: "I v" "R w v" for v
  proof -
    from safe_Step.IH [OF v] have s: "I (snd (f v))" "R v (snd (f v))" by blast+
    have "safe I R S (k a) w'" if "I w'" "R (snd (f v)) w'" "Q a w'" for a w'
      by (rule safe_Step.prems(2) [OF that(1) _ that(3)]) (meson R_trans v(2) s(2) that(2))
    with safe_Step.IH [OF v] s show ?thesis by blast
  qed
  then show ?case by (auto intro!: safe.safe_Step)
qed

lemma safe_act:
  assumes "\<And>w' r w''. I w' \<Longrightarrow> R w w' \<Longrightarrow> f w' = (r, w'') \<Longrightarrow>
    I w'' \<and> R w' w'' \<and> (\<forall>v. I v \<and> R w'' v \<longrightarrow> Q r v)"
  shows "safe I R Q (act f) w"
  unfolding act_def
proof (rule safe_Step)
  fix w' assume "I w'" "R w w'"
  from assms [OF this, of "fst (f w')" "snd (f w')"]
  show "I (snd (map_prod Ret id (f w'))) \<and> R w' (snd (map_prod Ret id (f w'))) \<and>
    safe I R Q (fst (map_prod Ret id (f w'))) (snd (map_prod Ret id (f w')))"
    by (auto intro: safe_Ret)
qed

lemma safe_weaken: "safe I R Q p w \<Longrightarrow> (\<And>a w'. Q a w' \<Longrightarrow> S a w') \<Longrightarrow> safe I R S p w"
  by (induction rule: safe.induct) (auto intro: safe.intros)

text \<open>A program that respects the relation from every world is safe, and so is one that changes nothing of it.\<close>

lemma safe_guar:
  assumes "guar G p" "\<And>u v. I u \<Longrightarrow> G u v \<Longrightarrow> I v \<and> R u v"
  shows "safe I R (\<lambda>_ _. True) p w"
  using assms
proof (induction arbitrary: w rule: guar.induct)
  case (guar_Step f)
  then show ?case by (intro safe_Step) blast
qed (auto intro: safe_Ret)

lemma safe_Return: "Q a w \<Longrightarrow> (\<And>w'. I w' \<Longrightarrow> R w w' \<Longrightarrow> Q a w \<Longrightarrow> Q a w') \<Longrightarrow> safe I R Q (Ret a) w"
  by (rule safe_Ret) blast

lemma safe_Done [simp]: "safe I R (\<lambda>_ _. True) (Ret a) w"
  by (rule safe_Ret) simp

text \<open>The rules for a call that can fail.\<close>

lemma safe_bindE:
  assumes "safe I R (\<lambda>r v. case r of Inl e \<Rightarrow> P e v | Inr a \<Rightarrow> Q a v) p w" "I w"
    and "\<And>e w'. I w' \<Longrightarrow> R w w' \<Longrightarrow> P e w' \<Longrightarrow> safe I R S (h e) w'"
    and "\<And>a w'. I w' \<Longrightarrow> R w w' \<Longrightarrow> Q a w' \<Longrightarrow> safe I R S (k a) w'"
  shows "safe I R S (bindE p h k) w"
  unfolding bindE_def
  by (rule safe_bindP [OF assms(1,2)]) (auto split: sum.splits intro: assms(3,4))

lemma safe_bindO:
  assumes "safe I R (\<lambda>r v. case r of Some e \<Rightarrow> P e v | None \<Rightarrow> Q v) p w" "I w"
    and "\<And>e w'. I w' \<Longrightarrow> R w w' \<Longrightarrow> P e w' \<Longrightarrow> safe I R S (h e) w'"
    and "\<And>w'. I w' \<Longrightarrow> R w w' \<Longrightarrow> Q w' \<Longrightarrow> safe I R S k w'"
  shows "safe I R S (bindO p h k) w"
  unfolding bindO_def
  by (rule safe_bindP [OF assms(1,2)]) (auto split: option.splits intro: assms(3,4))

text \<open>The same rules where nothing is learnt from the call.\<close>

lemma safe_seqP:
  assumes "safe I R (\<lambda>_ _. True) p w" "I w" "\<And>a w'. I w' \<Longrightarrow> R w w' \<Longrightarrow> safe I R S (k a) w'"
  shows "safe I R S (bindP p k) w"
  by (rule safe_bindP [OF assms(1,2)]) (rule assms(3))

lemma safe_seqE:
  assumes "safe I R (\<lambda>_ _. True) p w" "I w" "\<And>e w'. I w' \<Longrightarrow> R w w' \<Longrightarrow> safe I R S (h e) w'"
    and "\<And>a w'. I w' \<Longrightarrow> R w w' \<Longrightarrow> safe I R S (k a) w'"
  shows "safe I R S (bindE p h k) w"
  unfolding bindE_def by (rule safe_seqP [OF assms(1,2)]) (auto split: sum.splits intro: assms(3,4))

lemma safe_seqO:
  assumes "safe I R (\<lambda>_ _. True) p w" "I w" "\<And>e w'. I w' \<Longrightarrow> R w w' \<Longrightarrow> safe I R S (h e) w'"
    and "\<And>w'. I w' \<Longrightarrow> R w w' \<Longrightarrow> safe I R S k w'"
  shows "safe I R S (bindO p h k) w"
  unfolding bindO_def by (rule safe_seqP [OF assms(1,2)]) (auto split: option.splits intro: assms(3,4))

text \<open>The parallel composition.\<close>

lemma conc_safe_step:
  assumes "conc_step (ps, w) (ps', w')" "\<forall>p \<in> set ps. safe I R Q p w" "I w"
  shows "I w' \<and> R w w' \<and> (\<forall>p \<in> set ps'. safe I R Q p w')"
proof -
  from assms(1) obtain i f p where s: "i < length ps" "ps ! i = Step f" "f w = (p, w')" "ps' = ps[i := p]"
    by (auto elim: conc_stepE)
  have "safe I R Q (Step f) w" using assms(2) s(1,2) by (metis nth_mem)
  then have "I (snd (f w)) \<and> R w (snd (f w)) \<and> safe I R Q (fst (f w)) (snd (f w))"
    using assms(3) R_refl by (auto elim!: safe_StepE)
  with s have step: "I w'" "R w w'" "safe I R Q p w'" by simp_all
  have "safe I R Q q w'" if "q \<in> set ps'" for q
  proof -
    have "q = p \<or> q \<in> set ps" using that s(4) set_update_subset_insert [of ps i p] by auto
    then show ?thesis using step assms(2) safe_stable by blast
  qed
  with step show ?thesis by blast
qed

lemma conc_safe:
  assumes "conc_reaches (ps, w) (ps', w')" "\<forall>p \<in> set ps. safe I R Q p w" "I w"
  shows "I w' \<and> R w w' \<and> (\<forall>p \<in> set ps'. safe I R Q p w')"
  using assms(1) unfolding conc_reaches_def
proof (induction rule: rtranclp_induct2)
  case refl
  then show ?case using assms(2,3) R_refl by simp
next
  case (step ps1 w1 ps2 w2)
  then show ?case using conc_safe_step [of ps1 w1 ps2 w2 Q] R_trans by blast
qed

end

end
