(* ===== verification/Breaker.thy ===== *)
theory Breaker
  imports Json
begin

text \<open>
  The per-provider circuit breaker of provider-gateway
  (\<^verbatim>\<open>services/provider-gateway/internal/breaker\<close>): the stored record, its derived state, the
  operations \<^verbatim>\<open>Check\<close>, \<^verbatim>\<open>ReportResult\<close> and \<^verbatim>\<open>CurrentState\<close>, and the three implementations of the
  interface \<^verbatim>\<open>Store\<close>. The clock is an argument (\<^verbatim>\<open>time.Now().UnixMilli()\<close>), so a call at a
  later time is a call with a larger argument.

  The locale \<open>breaker_kv\<close> is the contract of a working \<^verbatim>\<open>Store\<close>; under it the three operations
  refine the abstract machine \<open>cb_check\<close> and \<open>cb_report\<close>. It is interpreted on \<open>FakeStore\<close>, and
  \<open>RedisStore_breaker_kv\<close> establishes it for the production store from the laws of the Redis client.
\<close>

section \<open>Model\<close>

text \<open>\<^verbatim>\<open>type State string\<close>: a record read back from Redis may hold any text.\<close>

type_synonym breaker_State = string

abbreviation Closed :: breaker_State where "Closed \<equiv> ''closed''"
abbreviation Open :: breaker_State where "Open \<equiv> ''open''"
abbreviation HalfOpen :: breaker_State where "HalfOpen \<equiv> ''half_open''"
abbreviation halfOpenTrial :: breaker_State where "halfOpenTrial \<equiv> ''half_open_trial''"

datatype breaker_Decision = Allow | AllowTrial | Deny

fun breaker_Decision_String :: "breaker_Decision \<Rightarrow> string" where
  "breaker_Decision_String Allow = ''allow''"
| "breaker_Decision_String AllowTrial = ''allow_trial''"
| "breaker_Decision_String Deny = ''deny''"

record breaker_Config =
  FailureThreshold :: int
  OpenDuration :: duration

record breaker_record =
  State :: breaker_State
  Failures :: int
  OpenedAt :: int

record 'w breaker_Store =
  Store_Get :: "string \<Rightarrow> 'w \<Rightarrow> breaker_record option result \<times> 'w"
  Store_Set :: "string \<Rightarrow> breaker_record \<Rightarrow> 'w \<Rightarrow> go_error option \<times> 'w"

definition effectiveState :: "breaker_record option \<Rightarrow> int \<Rightarrow> duration \<Rightarrow> breaker_State" where
  "effectiveState r now openDuration =
     (case r of
        None \<Rightarrow> Closed
      | Some r \<Rightarrow>
          if State r = Open \<and> wrap64 (now - OpenedAt r) \<ge> Milliseconds openDuration
          then HalfOpen else State r)"

definition breaker_key :: "string \<Rightarrow> string" where
  "breaker_key provider = ''provider:'' @ provider @ '':breaker''"

text \<open>
  The record that a half-open check writes copies \<^verbatim>\<open>Failures\<close> and \<^verbatim>\<open>OpenedAt\<close> of the one it read,
  which is not nil there: a nil record is \<open>Closed\<close>.
\<close>

definition breaker_Check ::
  "'w breaker_Store \<Rightarrow> string \<Rightarrow> breaker_Config \<Rightarrow> int \<Rightarrow> 'w
     \<Rightarrow> (breaker_Decision \<times> go_error option) \<times> 'w" where
  "breaker_Check store provider cfg now w =
     (let k = breaker_key provider
      in case Store_Get store k w of
           (Inl err, w1) \<Rightarrow> ((Allow, Some err), w1)
         | (Inr r, w1) \<Rightarrow>
             (let s = effectiveState r now (OpenDuration cfg)
              in if s = Closed then ((Allow, None), w1)
                 else if s = HalfOpen then
                   (let old = the r
                    in case Store_Set store k
                              \<lparr>State = halfOpenTrial, Failures = Failures old, OpenedAt = OpenedAt old\<rparr> w1 of
                         (Some err, w2) \<Rightarrow> ((Allow, Some err), w2)
                       | (None, w2) \<Rightarrow> ((AllowTrial, None), w2))
                 else ((Deny, None), w1)))"

definition breaker_ReportResult ::
  "'w breaker_Store \<Rightarrow> string \<Rightarrow> breaker_Config \<Rightarrow> int \<Rightarrow> bool \<Rightarrow> 'w \<Rightarrow> go_error option \<times> 'w" where
  "breaker_ReportResult store provider cfg now success w =
     (let k = breaker_key provider
      in case Store_Get store k w of
           (Inl err, w1) \<Rightarrow> (Some err, w1)
         | (Inr r, w1) \<Rightarrow>
             if success then Store_Set store k \<lparr>State = Closed, Failures = 0, OpenedAt = 0\<rparr> w1
             else if r \<noteq> None \<and> State (the r) = halfOpenTrial then
               Store_Set store k \<lparr>State = Open, Failures = FailureThreshold cfg, OpenedAt = now\<rparr> w1
             else
               (let failures = (case r of None \<Rightarrow> 1 | Some r \<Rightarrow> wrap64 (Failures r + 1))
                in if failures \<ge> FailureThreshold cfg
                   then Store_Set store k \<lparr>State = Open, Failures = failures, OpenedAt = now\<rparr> w1
                   else Store_Set store k \<lparr>State = Closed, Failures = failures, OpenedAt = 0\<rparr> w1))"

definition breaker_CurrentState ::
  "'w breaker_Store \<Rightarrow> string \<Rightarrow> breaker_Config \<Rightarrow> int \<Rightarrow> 'w
     \<Rightarrow> (breaker_State \<times> go_error option) \<times> 'w" where
  "breaker_CurrentState store provider cfg now w =
     (case Store_Get store (breaker_key provider) w of
        (Inl err, w1) \<Rightarrow> ((Closed, Some err), w1)
      | (Inr r, w1) \<Rightarrow> ((effectiveState r now (OpenDuration cfg), None), w1))"

subsection \<open>Implementations of Store\<close>

text \<open>\<^verbatim>\<open>FakeStore\<close>: the map behind the mutex.\<close>

definition FakeStore_Get ::
  "string \<Rightarrow> (string \<rightharpoonup> breaker_record) \<Rightarrow> breaker_record option result \<times> (string \<rightharpoonup> breaker_record)" where
  "FakeStore_Get k records = (Inr (records k), records)"

definition FakeStore_Set ::
  "string \<Rightarrow> breaker_record \<Rightarrow> (string \<rightharpoonup> breaker_record) \<Rightarrow> go_error option \<times> (string \<rightharpoonup> breaker_record)" where
  "FakeStore_Set k r records = (None, records(k \<mapsto> r))"

definition breaker_FakeStore :: "(string \<rightharpoonup> breaker_record) breaker_Store" where
  "breaker_FakeStore = \<lparr>Store_Get = FakeStore_Get, Store_Set = FakeStore_Set\<rparr>"

definition FailingStore :: "'w breaker_Store" where
  "FailingStore =
     \<lparr>Store_Get = \<lambda>_ w. (Inl (ErrorString ''simulated outage''), w),
      Store_Set = \<lambda>_ _ w. (Some (ErrorString ''simulated outage''), w)\<rparr>"

text \<open>The record as JSON, in the order of its fields; marshaling it cannot fail.\<close>

definition record_text :: "breaker_record \<Rightarrow> string" where
  "record_text r =
     json_print (JsonObj [(''state'', JsonStr (State r)), (''failures'', JsonNum (show_int (Failures r))),
       (''opened_at'', JsonNum (show_int (OpenedAt r)))])"

definition breaker_marshal :: "breaker_record \<Rightarrow> string result" where
  "breaker_marshal r = Inr (record_text r)"

definition record_fields :: "breaker_record json_field list" where
  "record_fields =
     [in_field ''state'' (dec_string ''breaker.State'') State (\<lambda>s r. r\<lparr>State := s\<rparr>),
      in_field ''failures'' (dec_int ''int'' in_int64) Failures (\<lambda>k r. r\<lparr>Failures := k\<rparr>),
      in_field ''opened_at'' (dec_int ''int64'' in_int64) OpenedAt (\<lambda>k r. r\<lparr>OpenedAt := k\<rparr>)]"

definition breaker_unmarshal :: "string \<Rightarrow> breaker_record result" where
  "breaker_unmarshal = json_Unmarshal (dec_struct ''breaker.record'' record_fields) \<lparr>State = [], Failures = 0, OpenedAt = 0\<rparr>"

text \<open>
  \<^verbatim>\<open>RedisStore\<close> over the two operations of the Redis client it uses. \<^verbatim>\<open>GET\<close> answers \<^verbatim>\<open>redis.Nil\<close>
  (\<open>Inr None\<close>) for an absent key. The client is a library and an argument.
\<close>

record 'w redis_kv =
  kv_GET :: "string \<Rightarrow> 'w \<Rightarrow> string option result \<times> 'w"
  kv_SET :: "string \<Rightarrow> string \<Rightarrow> 'w \<Rightarrow> go_error option \<times> 'w"

definition RedisStore_Get :: "'w redis_kv \<Rightarrow> string \<Rightarrow> 'w \<Rightarrow> breaker_record option result \<times> 'w" where
  "RedisStore_Get client k w =
     (case kv_GET client k w of
        (Inl err, w1) \<Rightarrow> (Inl err, w1)
      | (Inr None, w1) \<Rightarrow> (Inr None, w1)
      | (Inr (Some data), w1) \<Rightarrow>
          (case breaker_unmarshal data of Inl err \<Rightarrow> (Inl err, w1) | Inr r \<Rightarrow> (Inr (Some r), w1)))"

definition RedisStore_Set :: "'w redis_kv \<Rightarrow> string \<Rightarrow> breaker_record \<Rightarrow> 'w \<Rightarrow> go_error option \<times> 'w" where
  "RedisStore_Set client k r w =
     (case breaker_marshal r of Inl err \<Rightarrow> (Some err, w) | Inr data \<Rightarrow> kv_SET client k data w)"

definition breaker_RedisStore :: "'w redis_kv \<Rightarrow> 'w breaker_Store" where
  "breaker_RedisStore client = \<lparr>Store_Get = RedisStore_Get client, Store_Set = RedisStore_Set client\<rparr>"

subsection \<open>Sequences of calls\<close>

text \<open>The decisions of successive checks at the given times, and the world after them.\<close>

fun breaker_checks ::
  "'w breaker_Store \<Rightarrow> string \<Rightarrow> breaker_Config \<Rightarrow> int list \<Rightarrow> 'w \<Rightarrow> breaker_Decision list \<times> 'w" where
  "breaker_checks store p cfg [] w = ([], w)"
| "breaker_checks store p cfg (t # ts) w =
     (let ((d, _), w1) = breaker_Check store p cfg t w; (ds, w2) = breaker_checks store p cfg ts w1
      in (d # ds, w2))"

text \<open>Failure reports at the given times.\<close>

fun breaker_failures :: "'w breaker_Store \<Rightarrow> string \<Rightarrow> breaker_Config \<Rightarrow> int list \<Rightarrow> 'w \<Rightarrow> 'w" where
  "breaker_failures store p cfg [] w = w"
| "breaker_failures store p cfg (t # ts) w =
     breaker_failures store p cfg ts (snd (breaker_ReportResult store p cfg t False w))"

text \<open>
  One call by some replica on a fleet-wide map of records, and the maps the fleet can produce from
  an empty one. Any provider, any time and any outcome may come next.
\<close>

inductive breaker_step ::
  "breaker_Config \<Rightarrow> (string \<rightharpoonup> breaker_record) \<Rightarrow> (string \<rightharpoonup> breaker_record) \<Rightarrow> bool" for cfg where
  step_check: "breaker_step cfg m (snd (breaker_Check breaker_FakeStore p cfg now m))"
| step_report: "in_int64 now \<Longrightarrow>
     breaker_step cfg m (snd (breaker_ReportResult breaker_FakeStore p cfg now success m))"

inductive breaker_reachable :: "breaker_Config \<Rightarrow> (string \<rightharpoonup> breaker_record) \<Rightarrow> bool" for cfg where
  reach_empty: "breaker_reachable cfg Map.empty"
| reach_step: "breaker_reachable cfg m \<Longrightarrow> breaker_step cfg m m' \<Longrightarrow> breaker_reachable cfg m'"

inductive_cases breaker_stepE: "breaker_step cfg m m'"

section \<open>Specification\<close>

text \<open>The circuit breaker as a three-state machine without a store.\<close>

datatype circuit = CClosed int | COpen int | CTrial

fun circuit_of :: "breaker_record option \<Rightarrow> circuit" where
  "circuit_of None = CClosed 0"
| "circuit_of (Some r) =
     (if State r = Closed then CClosed (Failures r)
      else if State r = Open then COpen (OpenedAt r) else CTrial)"

fun cb_check :: "breaker_Config \<Rightarrow> int \<Rightarrow> circuit \<Rightarrow> breaker_Decision \<times> circuit" where
  "cb_check cfg now (CClosed n) = (Allow, CClosed n)"
| "cb_check cfg now (COpen t) =
     (if now - t \<ge> Milliseconds (OpenDuration cfg) then (AllowTrial, CTrial) else (Deny, COpen t))"
| "cb_check cfg now CTrial = (Deny, CTrial)"

fun cb_report :: "breaker_Config \<Rightarrow> int \<Rightarrow> bool \<Rightarrow> circuit \<Rightarrow> circuit" where
  "cb_report cfg now True c = CClosed 0"
| "cb_report cfg now False (CClosed n) = (if n + 1 \<ge> FailureThreshold cfg then COpen now else CClosed (n + 1))"
| "cb_report cfg now False (COpen t) = COpen now"
| "cb_report cfg now False CTrial = COpen now"

text \<open>
  A stored record the code itself produces: a known state; fewer failures than the threshold while
  closed, at least that many while open. The clock is in the range where differences do not wrap.
\<close>

definition breaker_wf :: "breaker_Config \<Rightarrow> breaker_record option \<Rightarrow> bool" where
  "breaker_wf cfg r \<longleftrightarrow>
     (case r of
        None \<Rightarrow> True
      | Some r \<Rightarrow>
          State r \<in> {Closed, Open, halfOpenTrial} \<and> in_int64 (Failures r) \<and>
          (State r = Closed \<longrightarrow> Failures r < FailureThreshold cfg) \<and>
          (State r = Open \<longrightarrow> FailureThreshold cfg \<le> Failures r))"

definition clock_ok :: "int \<Rightarrow> bool" where
  "clock_ok t \<longleftrightarrow> 0 \<le> t \<and> in_int64 t"

text \<open>What a check and a report do to the record of the provider they name.\<close>

definition record_Check :: "breaker_Config \<Rightarrow> int \<Rightarrow> breaker_record option \<Rightarrow> breaker_Decision \<times> breaker_record option" where
  "record_Check cfg now r =
     (let s = effectiveState r now (OpenDuration cfg)
      in if s = Closed then (Allow, r)
         else if s = HalfOpen then (AllowTrial, map_option (\<lambda>old. old\<lparr>State := halfOpenTrial\<rparr>) r)
         else (Deny, r))"

definition record_Report :: "breaker_Config \<Rightarrow> int \<Rightarrow> bool \<Rightarrow> breaker_record option \<Rightarrow> breaker_record" where
  "record_Report cfg now success r =
     (if success then \<lparr>State = Closed, Failures = 0, OpenedAt = 0\<rparr>
      else if r \<noteq> None \<and> State (the r) = halfOpenTrial then
        \<lparr>State = Open, Failures = FailureThreshold cfg, OpenedAt = now\<rparr>
      else
        (let failures = (case r of None \<Rightarrow> 1 | Some r \<Rightarrow> wrap64 (Failures r + 1))
         in if failures \<ge> FailureThreshold cfg
            then \<lparr>State = Open, Failures = failures, OpenedAt = now\<rparr>
            else \<lparr>State = Closed, Failures = failures, OpenedAt = 0\<rparr>))"


section \<open>The contract of a store and what follows from it\<close>

lemmas breaker_ops = breaker_Check_def breaker_ReportResult_def breaker_CurrentState_def

lemma effectiveState_None [simp]: "effectiveState None now d = Closed"
  by (simp add: effectiveState_def)

lemma effectiveState_trial: "State r = halfOpenTrial \<Longrightarrow> effectiveState (Some r) now d = halfOpenTrial"
  by (simp add: effectiveState_def)

text \<open>A value of the Go type that JSON carries unchanged: its text is valid UTF-8, its numbers are 64-bit integers.\<close>

definition record_ok :: "breaker_record \<Rightarrow> bool" where
  "record_ok r \<longleftrightarrow> utf8_valid (State r) \<and> in_int64 (Failures r) \<and> in_int64 (OpenedAt r)"

lemma states_valid: "utf8_valid Closed" "utf8_valid Open" "utf8_valid halfOpenTrial"
  by code_simp+

lemma record_Report_ok:
  assumes "in_int64 (FailureThreshold cfg)" "in_int64 now"
  shows "record_ok (record_Report cfg now success r)"
proof -
  have "in_int64 0" "in_int64 1" by (simp_all add: in_int64_def)
  with assms show ?thesis by (auto simp: record_Report_def record_ok_def states_valid in_int64_wrap64 Let_def split: option.splits)
qed

lemma record_trial_ok: "record_ok r \<Longrightarrow> record_ok (r\<lparr>State := halfOpenTrial\<rparr>)"
  by (simp add: record_ok_def states_valid)

locale breaker_kv =
  fixes store :: "'w breaker_Store"
    and lookup :: "'w \<Rightarrow> string \<Rightarrow> breaker_record option"
    and inv :: "'w \<Rightarrow> bool"
  assumes Get_lookup: "inv w \<Longrightarrow> Store_Get store k w = (Inr (lookup w k), w)"
    and Lookup_ok: "inv w \<Longrightarrow> lookup w k = Some r \<Longrightarrow> record_ok r"
    and Set_succeeds: "inv w \<Longrightarrow> record_ok r \<Longrightarrow> fst (Store_Set store k r w) = None"
    and Set_lookup: "inv w \<Longrightarrow> record_ok r \<Longrightarrow> lookup (snd (Store_Set store k r w)) = (lookup w)(k \<mapsto> r)"
    and Set_inv: "inv w \<Longrightarrow> record_ok r \<Longrightarrow> inv (snd (Store_Set store k r w))"
begin

lemma Check_half_open:
  assumes "inv w" "lookup w (breaker_key p) = Some old"
    and "effectiveState (Some old) now (OpenDuration cfg) = HalfOpen"
  shows "breaker_Check store p cfg now w =
    ((AllowTrial, None), snd (Store_Set store (breaker_key p) (old\<lparr>State := halfOpenTrial\<rparr>) w))"
  using assms Set_succeeds [OF assms(1) record_trial_ok [OF Lookup_ok [OF assms(1,2)]], of "breaker_key p"]
  by (cases old) (auto simp: breaker_Check_def Get_lookup Let_def split: prod.splits option.splits)

lemma Check_unchanged:
  assumes "inv w" "effectiveState (lookup w (breaker_key p)) now (OpenDuration cfg) \<noteq> HalfOpen"
  shows "breaker_Check store p cfg now w =
    ((if effectiveState (lookup w (breaker_key p)) now (OpenDuration cfg) = Closed then Allow else Deny, None), w)"
  using assms by (simp add: breaker_Check_def Get_lookup Let_def)

lemma Check_record:
  assumes "inv w"
  shows "fst (breaker_Check store p cfg now w) = (fst (record_Check cfg now (lookup w (breaker_key p))), None)"
    and "lookup (snd (breaker_Check store p cfg now w)) =
           (lookup w)(breaker_key p := snd (record_Check cfg now (lookup w (breaker_key p))))"
    and "inv (snd (breaker_Check store p cfg now w))"
proof (atomize (full), cases "effectiveState (lookup w (breaker_key p)) now (OpenDuration cfg) = HalfOpen")
  case True
  then obtain old where old: "lookup w (breaker_key p) = Some old"
    by (cases "lookup w (breaker_key p)") auto
  show "fst (breaker_Check store p cfg now w) = (fst (record_Check cfg now (lookup w (breaker_key p))), None) \<and>
        lookup (snd (breaker_Check store p cfg now w)) =
          (lookup w)(breaker_key p := snd (record_Check cfg now (lookup w (breaker_key p)))) \<and>
        inv (snd (breaker_Check store p cfg now w))"
    using True old assms record_trial_ok [OF Lookup_ok [OF assms old]]
    by (simp add: Check_half_open [OF assms old] Set_lookup Set_inv record_Check_def)
next
  case False
  then show "fst (breaker_Check store p cfg now w) = (fst (record_Check cfg now (lookup w (breaker_key p))), None) \<and>
        lookup (snd (breaker_Check store p cfg now w)) =
          (lookup w)(breaker_key p := snd (record_Check cfg now (lookup w (breaker_key p)))) \<and>
        inv (snd (breaker_Check store p cfg now w))"
    using assms by (simp add: Check_unchanged record_Check_def Let_def fun_upd_idem)
qed

lemma Report_set:
  assumes "inv w"
  shows "breaker_ReportResult store p cfg now success w =
    Store_Set store (breaker_key p) (record_Report cfg now success (lookup w (breaker_key p))) w"
  using assms by (simp add: breaker_ReportResult_def record_Report_def Get_lookup Let_def)

lemma Report_record:
  assumes "inv w" "in_int64 (FailureThreshold cfg)" "in_int64 now"
  shows "fst (breaker_ReportResult store p cfg now success w) = None"
    and "lookup (snd (breaker_ReportResult store p cfg now success w)) =
           (lookup w)(breaker_key p \<mapsto> record_Report cfg now success (lookup w (breaker_key p)))"
    and "inv (snd (breaker_ReportResult store p cfg now success w))"
  using assms record_Report_ok [OF assms(2,3)] by (simp_all add: Report_set Set_succeeds Set_lookup Set_inv)

lemma CurrentState_record:
  "inv w \<Longrightarrow> breaker_CurrentState store p cfg now w =
     ((effectiveState (lookup w (breaker_key p)) now (OpenDuration cfg), None), w)"
  by (simp add: breaker_CurrentState_def Get_lookup)

lemma checks_Cons_trial:
  assumes "inv w" "lookup w (breaker_key p) = Some r" "State r = halfOpenTrial"
  shows "breaker_checks store p cfg ts w = (replicate (length ts) Deny, w)"
proof (induction ts)
  case (Cons t ts)
  have "breaker_Check store p cfg t w = ((Deny, None), w)"
    using assms by (simp add: Check_unchanged effectiveState_trial)
  with Cons.IH show ?case by simp
qed simp

end

text \<open>The in-memory store keeps the contract, so every fact of the locale holds of it.\<close>

interpretation fake_breaker: breaker_kv breaker_FakeStore "\<lambda>m. m" "\<lambda>m. \<forall>k r. m k = Some r \<longrightarrow> record_ok r"
  by unfold_locales (auto simp: breaker_FakeStore_def FakeStore_Get_def FakeStore_Set_def)

text \<open>The text of a record is read back as the record, and every text that is read at all gives a value of the Go type.\<close>

lemma field_names:
  "foldName ''state'' = ''STATE''" "foldName ''failures'' = ''FAILURES''" "foldName ''opened_at'' = ''OPENED_AT''"
  by (simp_all add: fold_eval)

lemma names_valid: "utf8_valid ''state''" "utf8_valid ''failures''" "utf8_valid ''opened_at''"
  by (simp_all add: utf8_valid_ascii)

lemma unmarshal_record_text:
  assumes "record_ok r"
  shows "breaker_unmarshal (record_text r) = Inr r"
proof -
  let ?ms = "[(''state'', JsonStr (State r)), (''failures'', JsonNum (show_int (Failures r))), (''opened_at'', JsonNum (show_int (OpenedAt r)))]"
  have "wf_json (JsonObj ?ms)" "json_depth (JsonObj ?ms) \<le> maxNestingDepth"
    using assms by (simp_all add: record_ok_def names_valid scan_number_show_int maxNestingDepth_def)
  with assms show ?thesis
    unfolding breaker_unmarshal_def record_text_def
    by (subst json_Unmarshal_print) (simp_all add: record_fields_def field_names record_ok_def)
qed

lemma breaker_unmarshal_ok: "breaker_unmarshal b = Inr r \<Longrightarrow> record_ok r"
  unfolding breaker_unmarshal_def
proof (erule json_Unmarshal_inv)
  show "record_ok \<lparr>State = [], Failures = 0, OpenedAt = 0\<rparr>" by (simp add: record_ok_def in_int64_def)
  show "record_ok y" if "f \<in> set record_fields" "utf8_json v" "snd f v x = Inr y" "record_ok x" for f v x y
    using that by (auto simp: record_fields_def record_ok_def split: sum.splits)
      (erule (1) dec_string_inv, assumption, (erule (1) dec_int_inv)+)
qed

text \<open>
  The laws of the Redis client: \<^verbatim>\<open>GET\<close> answers what is stored and changes nothing, \<^verbatim>\<open>SET\<close> stores.
  \<open>peek\<close> is the content of the cluster.
\<close>

definition redis_kv_laws :: "'w redis_kv \<Rightarrow> ('w \<Rightarrow> string \<Rightarrow> string option) \<Rightarrow> bool" where
  "redis_kv_laws client peek \<longleftrightarrow>
     (\<forall>k w. kv_GET client k w = (Inr (peek w k), w)) \<and>
     (\<forall>k b w. fst (kv_SET client k b w) = None \<and> peek (snd (kv_SET client k b w)) = (peek w)(k \<mapsto> b))"

definition redis_lookup :: "('w \<Rightarrow> string \<Rightarrow> string option) \<Rightarrow> 'w \<Rightarrow> string \<Rightarrow> breaker_record option" where
  "redis_lookup peek w k =
     (case peek w k of None \<Rightarrow> None
      | Some b \<Rightarrow> (case breaker_unmarshal b of Inl _ \<Rightarrow> None | Inr r \<Rightarrow> Some r))"

definition redis_inv :: "('w \<Rightarrow> string \<Rightarrow> string option) \<Rightarrow> 'w \<Rightarrow> bool" where
  "redis_inv peek w \<longleftrightarrow> (\<forall>k b. peek w k = Some b \<longrightarrow> (\<exists>r. breaker_unmarshal b = Inr r))"

lemma RedisStore_breaker_kv:
  fixes client :: "'w redis_kv"
  assumes "redis_kv_laws client peek"
  shows "breaker_kv (breaker_RedisStore client) (redis_lookup peek) (redis_inv peek)"
proof
  fix w :: 'w and k and r :: breaker_record
  assume inv: "redis_inv peek w"
  have get: "kv_GET client k w = (Inr (peek w k), w)" using assms by (auto simp: redis_kv_laws_def)
  show "Store_Get (breaker_RedisStore client) k w = (Inr (redis_lookup peek w k), w)"
    using inv
    by (fastforce simp: breaker_RedisStore_def RedisStore_Get_def redis_lookup_def redis_inv_def get split: option.splits sum.splits)
  show "record_ok r" if "redis_lookup peek w k = Some r"
    using that by (auto simp: redis_lookup_def breaker_unmarshal_ok split: option.splits sum.splits)
  have set: "Store_Set (breaker_RedisStore client) k r w = kv_SET client k (record_text r) w"
    by (simp add: breaker_RedisStore_def RedisStore_Set_def breaker_marshal_def)
  have pk: "fst (kv_SET client k b w) = None" "peek (snd (kv_SET client k b w)) = (peek w)(k \<mapsto> b)" for b
    using assms by (auto simp: redis_kv_laws_def)
  assume ok: "record_ok r"
  note b = unmarshal_record_text [OF ok]
  show "fst (Store_Set (breaker_RedisStore client) k r w) = None" by (simp add: set pk)
  show "redis_lookup peek (snd (Store_Set (breaker_RedisStore client) k r w)) = (redis_lookup peek w)(k \<mapsto> r)"
    by (rule ext) (simp add: set pk redis_lookup_def b)
  show "redis_inv peek (snd (Store_Set (breaker_RedisStore client) k r w))"
    using inv b by (auto simp: set pk redis_inv_def)
qed

section \<open>The records and the abstract machine\<close>

lemma breaker_key_inj: "breaker_key p = breaker_key q \<longleftrightarrow> p = q"
  by (simp add: breaker_key_def)

lemma record_Check_refines:
  assumes "breaker_wf cfg r" "clock_ok now" "\<And>r'. r = Some r' \<Longrightarrow> clock_ok (OpenedAt r')"
  shows "fst (record_Check cfg now r) = fst (cb_check cfg now (circuit_of r))"
    and "circuit_of (snd (record_Check cfg now r)) = snd (cb_check cfg now (circuit_of r))"
proof (atomize (full), cases r)
  case None
  then show "fst (record_Check cfg now r) = fst (cb_check cfg now (circuit_of r)) \<and>
    circuit_of (snd (record_Check cfg now r)) = snd (cb_check cfg now (circuit_of r))"
    by (simp add: record_Check_def)
next
  case (Some r')
  with assms(2,3) have "wrap64 (now - OpenedAt r') = now - OpenedAt r'"
    by (simp add: wrap64_diff_id clock_ok_def)
  then show "fst (record_Check cfg now r) = fst (cb_check cfg now (circuit_of r)) \<and>
    circuit_of (snd (record_Check cfg now r)) = snd (cb_check cfg now (circuit_of r))"
    using Some assms(1) by (auto simp: record_Check_def effectiveState_def breaker_wf_def Let_def)
qed

lemma record_Report_refines:
  assumes "breaker_wf cfg r" "1 \<le> FailureThreshold cfg"
    and "\<And>r'. r = Some r' \<Longrightarrow> Failures r' < 2 ^ 63 - 1"
  shows "circuit_of (Some (record_Report cfg now success r)) = cb_report cfg now success (circuit_of r)"
proof (cases r)
  case None
  then show ?thesis by (cases success) (auto simp: record_Report_def)
next
  case (Some r')
  with assms(1,3) have "wrap64 (Failures r' + 1) = Failures r' + 1"
    by (intro wrap64_id) (auto simp: breaker_wf_def in_int64_def)
  then show ?thesis
    using Some assms(1) by (cases success) (auto simp: record_Report_def breaker_wf_def)
qed

lemma record_Check_wf: "breaker_wf cfg r \<Longrightarrow> breaker_wf cfg (snd (record_Check cfg now r))"
  by (cases r) (auto simp: record_Check_def breaker_wf_def Let_def)

lemma record_Report_wf:
  assumes "breaker_wf cfg r" "1 \<le> FailureThreshold cfg" "in_int64 (FailureThreshold cfg)"
  shows "breaker_wf cfg (Some (record_Report cfg now success r))"
proof -
  have "in_int64 1" "in_int64 0" by (simp_all add: in_int64_def)
  with assms show ?thesis
    by (cases r) (auto simp: record_Report_def breaker_wf_def in_int64_wrap64 Let_def)
qed

context breaker_kv
begin

lemma failures_from_closed:
  assumes "inv w" "circuit_of (lookup w (breaker_key p)) = CClosed n"
    and "breaker_wf cfg (lookup w (breaker_key p))"
    and "1 \<le> FailureThreshold cfg" "in_int64 (FailureThreshold cfg)"
    and "n + int (length ts) \<le> FailureThreshold cfg"
    and "0 \<le> n" "n < FailureThreshold cfg" "\<forall>t \<in> set ts. in_int64 t"
  shows "inv (breaker_failures store p cfg ts w) \<and>
    breaker_wf cfg (lookup (breaker_failures store p cfg ts w) (breaker_key p)) \<and>
    circuit_of (lookup (breaker_failures store p cfg ts w) (breaker_key p)) =
      (if n + int (length ts) < FailureThreshold cfg then CClosed (n + int (length ts)) else COpen (last ts))"
  using assms
proof (induction ts arbitrary: w n)
  case Nil
  then show ?case by simp
next
  case (Cons t ts)
  let ?k = "breaker_key p"
  let ?w = "snd (breaker_ReportResult store p cfg t False w)"
  have lk: "lookup ?w ?k = Some (record_Report cfg t False (lookup w ?k))"
    using Report_record(2) [OF Cons.prems(1,5)] Cons.prems(9) by simp
  have small: "Failures r' < 2 ^ 63 - 1" if "lookup w ?k = Some r'" for r'
  proof -
    from Cons.prems(2,3) that have "Failures r' < FailureThreshold cfg"
      by (auto simp: breaker_wf_def split: if_splits)
    with Cons.prems(5) show ?thesis by (simp add: in_int64_def)
  qed
  have c: "circuit_of (lookup ?w ?k) = cb_report cfg t False (CClosed n)"
    using record_Report_refines [OF Cons.prems(3,4) small, of t False] lk Cons.prems(2) by simp
  have wf: "breaker_wf cfg (lookup ?w ?k)"
    using record_Report_wf [OF Cons.prems(3,4,5)] lk by simp
  have iw: "inv ?w" using Report_record(3) [OF Cons.prems(1,5)] Cons.prems(9) by simp
  show ?case
  proof (cases "ts = []")
    case True
    with c wf iw Cons.prems(6) show ?thesis by auto
  next
    case False
    then have "1 \<le> int (length ts)" by (cases ts) simp_all
    with Cons.prems(6) have lt: "n + 1 < FailureThreshold cfg" by simp
    with c have c': "circuit_of (lookup ?w ?k) = CClosed (n + 1)" by simp
    have "n + 1 + int (length ts) \<le> FailureThreshold cfg" using Cons.prems(6) by simp
    from Cons.IH [OF iw c' wf Cons.prems(4,5) this] lt Cons.prems(7,9) False
    show ?thesis by (simp add: algebra_simps)
  qed
qed

lemma open_then_single_trial:
  assumes "inv w" "lookup w (breaker_key p) = Some r" "State r = Open"
    and "Milliseconds (OpenDuration cfg) \<le> wrap64 (t - OpenedAt r)"
  shows "fst (breaker_checks store p cfg (t # ts) w) = AllowTrial # replicate (length ts) Deny"
proof -
  have e: "effectiveState (Some r) t (OpenDuration cfg) = HalfOpen"
    using assms(3,4) by (simp add: effectiveState_def)
  obtain w1 where d: "breaker_Check store p cfg t w = ((AllowTrial, None), w1)"
    using Check_half_open [OF assms(1,2) e] by simp
  have "inv w1" "lookup w1 (breaker_key p) = Some (r\<lparr>State := halfOpenTrial\<rparr>)"
    using Check_record [OF assms(1), of p cfg t] assms(2) e d by (simp_all add: record_Check_def)
  then have "breaker_checks store p cfg ts w1 = (replicate (length ts) Deny, w1)"
    by (rule checks_Cons_trial) simp
  with d show ?thesis by simp
qed

end

lemma breaker_step_wf:
  assumes "breaker_step cfg m m'" "\<forall>k. breaker_wf cfg (m k)" "\<forall>k r. m k = Some r \<longrightarrow> record_ok r"
    and "1 \<le> FailureThreshold cfg" "in_int64 (FailureThreshold cfg)"
  shows "(\<forall>k. breaker_wf cfg (m' k)) \<and> (\<forall>k r. m' k = Some r \<longrightarrow> record_ok r)"
  using assms(1)
proof cases
  case (step_check p now)
  with fake_breaker.Check_record(2,3) [OF assms(3), of p cfg now] assms(2) show ?thesis by (simp add: record_Check_wf)
next
  case (step_report now p success)
  with fake_breaker.Report_record(2,3) [OF assms(3,5), of now p success] assms(2) record_Report_wf assms(4,5) show ?thesis by simp
qed


section \<open>Properties\<close>

text \<open>
  A Redis cluster as a map: a client on which the laws above hold, for the concrete instances below.
\<close>

definition map_redis :: "(string \<rightharpoonup> string) redis_kv" where
  "map_redis = \<lparr>kv_GET = \<lambda>k m. (Inr (m k), m), kv_SET = \<lambda>k b m. (None, m(k \<mapsto> b))\<rparr>"

lemma map_redis_laws: "redis_kv_laws map_redis (\<lambda>m. m)"
  by (simp add: redis_kv_laws_def map_redis_def)

lemma map_redis_record:
  assumes "record_ok r"
  shows "redis_inv (\<lambda>m. m) [k \<mapsto> record_text r]" "redis_lookup (\<lambda>m. m) [k \<mapsto> record_text r] k = Some r"
  using unmarshal_record_text [OF assms] by (auto simp: redis_inv_def redis_lookup_def)

text \<open>
  C5. The breaker in Redis refines the abstract circuit: on a record the code produced, \<^verbatim>\<open>Check\<close>
  returns the decision of \<open>cb_check\<close>, \<^verbatim>\<open>ReportResult\<close> moves the circuit as \<open>cb_report\<close> does
  (any success closes it, a failed trial reopens it at once, a failure counts and opens it at the
  threshold), and neither touches the record of another provider.
\<close>

theorem breaker_refines_circuit:
  assumes "redis_kv_laws client peek" "redis_inv peek w"
    and "1 \<le> FailureThreshold cfg" "in_int64 (FailureThreshold cfg)" "clock_ok now"
    and "redis_lookup peek w (breaker_key p) = r"
    and "breaker_wf cfg r"
    and "\<And>r'. r = Some r' \<Longrightarrow> clock_ok (OpenedAt r') \<and> Failures r' < 2 ^ 63 - 1"
  defines "store \<equiv> breaker_RedisStore client"
    and "view \<equiv> redis_lookup peek"
  shows "fst (breaker_Check store p cfg now w) = (fst (cb_check cfg now (circuit_of r)), None) \<and>
    circuit_of (view (snd (breaker_Check store p cfg now w)) (breaker_key p)) = snd (cb_check cfg now (circuit_of r)) \<and>
    fst (breaker_ReportResult store p cfg now success w) = None \<and>
    circuit_of (view (snd (breaker_ReportResult store p cfg now success w)) (breaker_key p)) =
      cb_report cfg now success (circuit_of r) \<and>
    (\<forall>q. q = p \<or>
      (view (snd (breaker_Check store p cfg now w)) (breaker_key q) = view w (breaker_key q) \<and>
       view (snd (breaker_ReportResult store p cfg now success w)) (breaker_key q) = view w (breaker_key q)))"
proof -
  note kv = RedisStore_breaker_kv [OF assms(1)]
  note check = breaker_kv.Check_record [OF kv assms(2), of p cfg now]
  have now: "in_int64 now" using assms(5) by (simp add: clock_ok_def)
  note report = breaker_kv.Report_record [OF kv assms(2,4) now, of p success]
  have clock: "\<And>r'. r = Some r' \<Longrightarrow> clock_ok (OpenedAt r')"
    and small: "\<And>r'. r = Some r' \<Longrightarrow> Failures r' < 2 ^ 63 - 1" using assms(8) by blast+
  note c = record_Check_refines [OF assms(7,5) clock]
  note f = record_Report_refines [OF assms(7,3) small, of now success]
  show ?thesis
    unfolding store_def view_def
    using check report c f assms(6) by (simp add: breaker_key_inj del: circuit_of.simps)
qed

theorem breaker_refines_circuit_witness:
  "fst (breaker_Check (breaker_RedisStore map_redis) ''openai'' \<lparr>FailureThreshold = 5, OpenDuration = 30000000000\<rparr> 40000
      [breaker_key ''openai'' \<mapsto> record_text \<lparr>State = Open, Failures = 5, OpenedAt = 10000\<rparr>]) = (AllowTrial, None)"
proof -
  let ?cfg = "\<lparr>FailureThreshold = 5, OpenDuration = 30000000000\<rparr>"
  let ?r = "\<lparr>State = Open, Failures = 5, OpenedAt = 10000\<rparr>"
  have ok: "record_ok ?r" by (simp add: record_ok_def states_valid in_int64_def)
  have "breaker_wf ?cfg (Some ?r)" by (simp add: breaker_wf_def in_int64_def)
  moreover have "clock_ok 40000" "in_int64 5" by (simp_all add: clock_ok_def in_int64_def)
  moreover have "\<And>r'. Some ?r = Some r' \<Longrightarrow> clock_ok (OpenedAt r') \<and> Failures r' < 2 ^ 63 - 1"
    by (auto simp: clock_ok_def in_int64_def)
  moreover have "Milliseconds (30000000000 :: duration) = 30000"
    by (simp add: Milliseconds_def nsPerMillisecond_def signed_divide_int_def)
  ultimately show ?thesis
    using breaker_refines_circuit [OF map_redis_laws map_redis_record(1) [OF ok], of ?cfg 40000 "breaker_key ''openai''" "''openai''" "Some ?r" False]
      map_redis_record(2) [OF ok] by simp
qed

text \<open>
  The breaker trips exactly at its threshold: after fewer than \<^verbatim>\<open>FailureThreshold\<close> consecutive
  failures of a provider without a record it is still closed and lets calls through; after exactly
  that many it is open since the last of them, and a check before \<^verbatim>\<open>OpenDuration\<close> has passed is denied.
\<close>

theorem breaker_trips_at_threshold:
  assumes "redis_kv_laws client peek" "redis_inv peek w"
    and "redis_lookup peek w (breaker_key p) = None"
    and "1 \<le> FailureThreshold cfg" "in_int64 (FailureThreshold cfg)"
    and "int (length ts) \<le> FailureThreshold cfg" "\<forall>t \<in> set ts. clock_ok t" "clock_ok now"
  defines "store \<equiv> breaker_RedisStore client"
  defines "w' \<equiv> breaker_failures store p cfg ts w"
  shows "(int (length ts) < FailureThreshold cfg \<longrightarrow> fst (breaker_Check store p cfg now w') = (Allow, None)) \<and>
    (int (length ts) = FailureThreshold cfg \<and> now - last ts < Milliseconds (OpenDuration cfg) \<longrightarrow>
       fst (breaker_Check store p cfg now w') = (Deny, None))"
proof -
  note kv = RedisStore_breaker_kv [OF assms(1)]
  let ?view = "redis_lookup peek"
  have n0: "circuit_of (?view w (breaker_key p)) = CClosed 0" "breaker_wf cfg (?view w (breaker_key p))"
    using assms(3) by (simp_all add: breaker_wf_def)
  have f: "redis_inv peek w'" "breaker_wf cfg (?view w' (breaker_key p))"
      "circuit_of (?view w' (breaker_key p)) =
        (if int (length ts) < FailureThreshold cfg then CClosed (int (length ts)) else COpen (last ts))"
    using breaker_kv.failures_from_closed [OF kv assms(2) n0 assms(4,5), of ts] assms(4,6,7)
    unfolding w'_def store_def by (simp_all add: clock_ok_def)
  note check = breaker_kv.Check_record(1) [OF kv f(1), of p cfg now, folded store_def]
  have "fst (record_Check cfg now (?view w' (breaker_key p))) = Allow"
    if "int (length ts) < FailureThreshold cfg"
    using that f(2,3) by (cases "?view w' (breaker_key p)")
      (auto simp: record_Check_def effectiveState_def split: if_splits)
  moreover have "fst (record_Check cfg now (?view w' (breaker_key p))) = Deny"
    if eq: "int (length ts) = FailureThreshold cfg" and lt: "now - last ts < Milliseconds (OpenDuration cfg)"
  proof -
    have "ts \<noteq> []" using eq assms(4) by auto
    then have "clock_ok (last ts)" using assms(7) by simp
    with assms(8) have "wrap64 (now - last ts) = now - last ts"
      by (simp add: clock_ok_def wrap64_diff_id)
    with f(2,3) eq lt show ?thesis by (cases "?view w' (breaker_key p)")
      (auto simp: record_Check_def effectiveState_def breaker_wf_def Let_def split: if_splits)
  qed
  ultimately show ?thesis using check by simp
qed

theorem breaker_trips_at_threshold_witness:
  "fst (breaker_Check (breaker_RedisStore map_redis) ''grok''
      \<lparr>FailureThreshold = 2, OpenDuration = 30000000000\<rparr> 900
      (breaker_failures (breaker_RedisStore map_redis) ''grok''
         \<lparr>FailureThreshold = 2, OpenDuration = 30000000000\<rparr> [100, 800] Map.empty)) = (Deny, None)"
proof -
  have "Milliseconds (30000000000 :: duration) = 30000"
    by (simp add: Milliseconds_def nsPerMillisecond_def signed_divide_int_def)
  then show ?thesis
    using breaker_trips_at_threshold [OF map_redis_laws, of Map.empty "''grok''"
        "\<lparr>FailureThreshold = 2, OpenDuration = 30000000000\<rparr>" "[100, 800]" 900]
    by (simp add: redis_inv_def redis_lookup_def clock_ok_def in_int64_def)
qed

text \<open>
  Half-open lets exactly one call through: once the open period has passed, the first check
  claims the trial and every later check, at whatever time, is denied until a result is reported.
\<close>

theorem breaker_half_open_single_trial:
  assumes "redis_kv_laws client peek" "redis_inv peek w"
    and "redis_lookup peek w (breaker_key p) = Some r" "State r = Open"
    and "clock_ok t" "clock_ok (OpenedAt r)" "Milliseconds (OpenDuration cfg) \<le> t - OpenedAt r"
  shows "fst (breaker_checks (breaker_RedisStore client) p cfg (t # ts) w) =
    AllowTrial # replicate (length ts) Deny"
proof -
  have "wrap64 (t - OpenedAt r) = t - OpenedAt r"
    using assms(5,6) by (simp add: clock_ok_def wrap64_diff_id)
  then show ?thesis
    using breaker_kv.open_then_single_trial [OF RedisStore_breaker_kv [OF assms(1)] assms(2-4)] assms(7)
    by simp
qed

theorem breaker_half_open_single_trial_witness:
  "fst (breaker_checks (breaker_RedisStore map_redis) ''glm'' \<lparr>FailureThreshold = 5, OpenDuration = 30000000000\<rparr> [40000, 40001, 99999]
      [breaker_key ''glm'' \<mapsto> record_text \<lparr>State = Open, Failures = 5, OpenedAt = 10000\<rparr>]) = [AllowTrial, Deny, Deny]"
proof -
  let ?r = "\<lparr>State = Open, Failures = 5, OpenedAt = 10000\<rparr>"
  have ok: "record_ok ?r" by (simp add: record_ok_def states_valid in_int64_def)
  show ?thesis
    using breaker_half_open_single_trial [OF map_redis_laws map_redis_record(1) [OF ok] map_redis_record(2) [OF ok], of 40000
        "\<lparr>FailureThreshold = 5, OpenDuration = 30000000000\<rparr>" "''glm''" "[40001, 99999]"]
    by (simp add: clock_ok_def in_int64_def Milliseconds_def nsPerMillisecond_def signed_divide_int_def del: breaker_checks.simps)
qed

text \<open>
  C23. A claimed trial has no deadline: while no result is reported for it, every check of the
  provider at every time is denied and leaves the record as it is, so a replica that dies between
  claiming the trial and reporting it leaves the provider denied until some report arrives.
\<close>

theorem breaker_unreported_trial_never_expires:
  assumes "redis_kv_laws client peek" "redis_inv peek w"
    and "redis_lookup peek w (breaker_key p) = Some r" "State r = halfOpenTrial"
  shows "breaker_checks (breaker_RedisStore client) p cfg ts w =
    (replicate (length ts) Deny, w)"
  by (rule breaker_kv.checks_Cons_trial [OF RedisStore_breaker_kv [OF assms(1)] assms(2-4)])

theorem breaker_unreported_trial_never_expires_witness:
  "fst (breaker_checks (breaker_RedisStore map_redis) ''kimi'' \<lparr>FailureThreshold = 5, OpenDuration = 30000000000\<rparr> [10, 1000000000000]
      [breaker_key ''kimi'' \<mapsto> record_text \<lparr>State = halfOpenTrial, Failures = 5, OpenedAt = 0\<rparr>]) = [Deny, Deny]"
proof -
  let ?r = "\<lparr>State = halfOpenTrial, Failures = 5, OpenedAt = 0\<rparr>"
  have ok: "record_ok ?r" by (simp add: record_ok_def states_valid in_int64_def)
  show ?thesis
    using breaker_unreported_trial_never_expires [OF map_redis_laws map_redis_record(1) [OF ok] map_redis_record(2) [OF ok],
        of "''kimi''" "\<lparr>FailureThreshold = 5, OpenDuration = 30000000000\<rparr>" "[10, 1000000000000]"]
    by (simp del: breaker_checks.simps)
qed

text \<open>
  Every record the fleet can produce is well formed, whatever calls the replicas make in
  whatever order: its state is one of the three stored ones, a closed record counts fewer failures
  than the threshold, an open one at least as many, and the count stays in the range of int64.
\<close>

theorem breaker_reachable_wf:
  assumes "breaker_reachable cfg m" "1 \<le> FailureThreshold cfg" "in_int64 (FailureThreshold cfg)"
  shows "breaker_wf cfg (m (breaker_key p))"
proof -
  from assms(1) have "(\<forall>k. breaker_wf cfg (m k)) \<and> (\<forall>k r. m k = Some r \<longrightarrow> record_ok r)"
  proof induction
    case reach_empty
    show ?case by (simp add: breaker_wf_def)
  next
    case (reach_step m m')
    then show ?case using breaker_step_wf assms(2,3) by blast
  qed
  then show ?thesis by blast
qed

theorem breaker_reachable_wf_witness:
  "breaker_wf \<lparr>FailureThreshold = 1, OpenDuration = 0\<rparr>
     (snd (breaker_ReportResult breaker_FakeStore ''openai'' \<lparr>FailureThreshold = 1, OpenDuration = 0\<rparr> 7 False
        Map.empty) (breaker_key ''openai''))"
proof -
  have "in_int64 7" by (simp add: in_int64_def)
  then have "breaker_reachable \<lparr>FailureThreshold = 1, OpenDuration = 0\<rparr>
    (snd (breaker_ReportResult breaker_FakeStore ''openai'' \<lparr>FailureThreshold = 1, OpenDuration = 0\<rparr> 7 False Map.empty))"
    by (intro reach_step [OF reach_empty] step_report)
  from breaker_reachable_wf [OF this] show ?thesis by (simp add: in_int64_def)
qed

text \<open>
  The breaker fails open: on any store, working or not, a call is denied only when the store
  answered with a record whose effective state is neither closed nor half-open; when \<^verbatim>\<open>Get\<close> or the
  write that claims the trial fails, the decision is \<^verbatim>\<open>Allow\<close> with that error.
\<close>

theorem breaker_fails_open:
  "(fst (fst (breaker_Check store p cfg now w)) = Deny \<longleftrightarrow>
     (\<exists>r. fst (Store_Get store (breaker_key p) w) = Inr r \<and>
       effectiveState r now (OpenDuration cfg) \<notin> {Closed, HalfOpen})) \<and>
   (snd (fst (breaker_Check store p cfg now w)) = None \<or> fst (fst (breaker_Check store p cfg now w)) = Allow)"
  by (auto simp: breaker_Check_def Let_def split: prod.splits sum.splits option.splits)

end
