(* ===== verification/Quota.thy ===== *)
theory Quota
  imports OZ_Prelude Complex_Main
begin

text \<open>
  The fleet-wide quota governor of provider-gateway
  (\<^verbatim>\<open>services/provider-gateway/internal/quota\<close>): fixed windows, one shared counter per provider and
  window. The locale \<open>quota_counter\<close> is the contract of the interface \<^verbatim>\<open>Counter\<close>; it is
  interpreted on the in-memory counter, and \<open>RedisCounter_quota_counter\<close> establishes it for
  the Redis counter from the laws of the client. Wall-clock time (\<^verbatim>\<open>time.Now().Unix()\<close>) is an argument.
\<close>

section \<open>Model\<close>

record quota_Policy =
  Limit :: int
  Window :: duration

datatype quota_Decision = quota_Allow | quota_Throttle

definition quota_Decision_String :: "quota_Decision \<Rightarrow> string" where
  "quota_Decision_String d = (if d = quota_Allow then ''allow'' else ''throttle'')"

record 'w quota_Counter =
  Counter_Increment :: "string \<Rightarrow> duration \<Rightarrow> 'w \<Rightarrow> int result \<times> 'w"
  Counter_Peek :: "string \<Rightarrow> 'w \<Rightarrow> int result \<times> 'w"

text \<open>
  The bucket is an integer division by the window's whole seconds; a window below one second makes
  the divisor zero and the division panics (\<open>None\<close>).
\<close>

definition windowKey :: "string \<Rightarrow> duration \<Rightarrow> int \<Rightarrow> string option" where
  "windowKey provider window now =
     (if wholeSeconds window = 0 then None
      else Some (''provider:'' @ provider @ '':quota:'' @ show_int (now sdiv wholeSeconds window)))"

definition Decide :: "int \<Rightarrow> quota_Policy \<Rightarrow> quota_Decision" where
  "Decide current policy = (if current \<le> Limit policy then quota_Allow else quota_Throttle)"

definition Enforce ::
  "'w quota_Counter \<Rightarrow> string \<Rightarrow> quota_Policy \<Rightarrow> int \<Rightarrow> 'w
     \<Rightarrow> ((quota_Decision \<times> int \<times> go_error option) \<times> 'w) option" where
  "Enforce counter provider policy now w =
     (case windowKey provider (Window policy) now of
        None \<Rightarrow> None
      | Some key \<Rightarrow>
          (case Counter_Increment counter key (Window policy) w of
             (Inl err, w1) \<Rightarrow> Some ((quota_Allow, 0, Some err), w1)
           | (Inr current, w1) \<Rightarrow> Some ((Decide current policy, current, None), w1)))"

text \<open>The ratio is a float64 division; the model keeps the exact quotient.\<close>

definition Headroom ::
  "'w quota_Counter \<Rightarrow> string \<Rightarrow> quota_Policy \<Rightarrow> int \<Rightarrow> 'w \<Rightarrow> (rat result \<times> 'w) option" where
  "Headroom counter provider policy now w =
     (case windowKey provider (Window policy) now of
        None \<Rightarrow> None
      | Some key \<Rightarrow>
          (case Counter_Peek counter key w of
             (Inl err, w1) \<Rightarrow> Some (Inl err, w1)
           | (Inr current, w1) \<Rightarrow>
               if Limit policy \<le> 0 then Some (Inr 0, w1)
               else
                 (let remaining = wrap64 (Limit policy - current);
                      remaining = (if remaining < 0 then 0 else remaining);
                      headroom = rat_of_int remaining / rat_of_int (Limit policy);
                      headroom = (if headroom > 1 then 1 else headroom)
                  in Some (Inr headroom, w1))))"

subsection \<open>Implementations of Counter\<close>

definition FakeCounter_Increment ::
  "string \<Rightarrow> duration \<Rightarrow> (string \<Rightarrow> int) \<Rightarrow> int result \<times> (string \<Rightarrow> int)" where
  "FakeCounter_Increment key window counts =
     (let counts' = counts(key := wrap64 (counts key + 1)) in (Inr (counts' key), counts'))"

definition FakeCounter_Peek :: "string \<Rightarrow> (string \<Rightarrow> int) \<Rightarrow> int result \<times> (string \<Rightarrow> int)" where
  "FakeCounter_Peek key counts = (Inr (counts key), counts)"

text \<open>The Go map's zero value for an absent key is the count 0, so the map is a total function.\<close>

definition FakeCounter :: "(string \<Rightarrow> int) quota_Counter" where
  "FakeCounter = \<lparr>Counter_Increment = FakeCounter_Increment, Counter_Peek = FakeCounter_Peek\<rparr>"

definition FailingCounter :: "'w quota_Counter" where
  "FailingCounter =
     \<lparr>Counter_Increment = \<lambda>_ _ w. (Inl (ErrorString ''simulated outage''), w),
      Counter_Peek = \<lambda>_ w. (Inl (ErrorString ''simulated outage''), w)\<rparr>"

text \<open>The operations of the Redis client that \<^verbatim>\<open>RedisCounter\<close> uses.\<close>

record 'w redis_counter =
  rc_INCR :: "string \<Rightarrow> 'w \<Rightarrow> int result \<times> 'w"
  rc_EXPIRE :: "string \<Rightarrow> duration \<Rightarrow> 'w \<Rightarrow> go_error option \<times> 'w"
  rc_GET_Int64 :: "string \<Rightarrow> 'w \<Rightarrow> int option result \<times> 'w"

text \<open>Only the first increment of a window sets the TTL; a failure to set it is logged and ignored.\<close>

definition RedisCounter_Increment ::
  "'w redis_counter \<Rightarrow> string \<Rightarrow> duration \<Rightarrow> 'w \<Rightarrow> int result \<times> 'w" where
  "RedisCounter_Increment client key window w =
     (case rc_INCR client key w of
        (Inl err, w1) \<Rightarrow> (Inl err, w1)
      | (Inr val, w1) \<Rightarrow>
          if val = 1 then (case rc_EXPIRE client key window w1 of (_, w2) \<Rightarrow> (Inr val, w2))
          else (Inr val, w1))"

definition RedisCounter_Peek :: "'w redis_counter \<Rightarrow> string \<Rightarrow> 'w \<Rightarrow> int result \<times> 'w" where
  "RedisCounter_Peek client key w =
     (case rc_GET_Int64 client key w of
        (Inl err, w1) \<Rightarrow> (Inl err, w1)
      | (Inr None, w1) \<Rightarrow> (Inr 0, w1)
      | (Inr (Some val), w1) \<Rightarrow> (Inr val, w1))"

definition RedisCounter :: "'w redis_counter \<Rightarrow> 'w quota_Counter" where
  "RedisCounter client =
     \<lparr>Counter_Increment = RedisCounter_Increment client, Counter_Peek = RedisCounter_Peek client\<rparr>"

subsection \<open>Sequences of calls\<close>

text \<open>The decisions of successive calls at the given times, by whatever replicas made them.\<close>

fun Enforce_all ::
  "'w quota_Counter \<Rightarrow> string \<Rightarrow> quota_Policy \<Rightarrow> int list \<Rightarrow> 'w \<Rightarrow> (quota_Decision list \<times> 'w) option" where
  "Enforce_all counter p policy [] w = Some ([], w)"
| "Enforce_all counter p policy (t # ts) w =
     (case Enforce counter p policy t w of
        None \<Rightarrow> None
      | Some ((d, _), w1) \<Rightarrow>
          (case Enforce_all counter p policy ts w1 of
             None \<Rightarrow> None
           | Some (ds, w2) \<Rightarrow> Some (d # ds, w2)))"

section \<open>The contract of a counter\<close>

lemmas quota_ops = Enforce_def Headroom_def Decide_def

text \<open>Providers and windows never share a counter.\<close>

lemma windowKey_inj:
  assumes "windowKey p win t = Some k" "windowKey q win u = Some k"
  shows "p = q \<and> t sdiv wholeSeconds win = u sdiv wholeSeconds win"
proof -
  let ?b = "\<lambda>t. show_int (t sdiv wholeSeconds win)"
  have eq: "p @ '':quota:'' @ ?b t = q @ '':quota:'' @ ?b u"
    using assms by (auto simp: windowKey_def split: if_splits)
  have nc: "CHR '':'' \<notin> set (rev (?b t))" "CHR '':'' \<notin> set (rev (?b u))"
    by (simp_all add: show_int_no_colon)
  have "rev (?b t) @ CHR '':'' # rev (p @ '':quota'') = rev (?b u) @ CHR '':'' # rev (q @ '':quota'')"
    using arg_cong [OF eq, of rev] by simp
  from separator_split_unique [OF nc this] show ?thesis by (auto dest: show_int_inj)
qed

lemma rat_ratio_one: "0 < b \<Longrightarrow> (rat_of_int a / rat_of_int b = 1) = (a = b)"
  by auto

locale quota_counter =
  fixes counter :: "'w quota_Counter"
    and count :: "'w \<Rightarrow> string \<Rightarrow> int"
  assumes Increment_value:
      "count w k < 2 ^ 63 - 1 \<Longrightarrow> in_int64 (count w k) \<Longrightarrow>
        fst (Counter_Increment counter k win w) = Inr (count w k + 1)"
    and Increment_count:
      "count w k < 2 ^ 63 - 1 \<Longrightarrow> in_int64 (count w k) \<Longrightarrow>
        count (snd (Counter_Increment counter k win w)) = (count w)(k := count w k + 1)"
    and Peek_value: "Counter_Peek counter k w = (Inr (count w k), w)"
begin

lemma Enforce_counts:
  assumes "windowKey p (Window policy) t = Some k" "in_int64 (count w k)" "count w k < 2 ^ 63 - 1"
  obtains w' where "Enforce counter p policy t w = Some ((Decide (count w k + 1) policy, count w k + 1, None), w')"
    and "count w' = (count w)(k := count w k + 1)"
proof -
  obtain w' where i: "Counter_Increment counter k (Window policy) w = (Inr (count w k + 1), w')"
    using Increment_value [OF assms(3,2), of "Window policy"] by (metis prod.collapse)
  then have "Enforce counter p policy t w = Some ((Decide (count w k + 1) policy, count w k + 1, None), w')"
    using assms(1) by (simp add: Enforce_def)
  then show thesis using that Increment_count [OF assms(3,2), of "Window policy"] i by simp
qed

lemma Enforce_all_window:
  assumes "\<forall>t \<in> set ts. windowKey p (Window policy) t = Some k"
    and "0 \<le> count w k" "count w k + int (length ts) < 2 ^ 63"
  shows "\<exists>ds w'. Enforce_all counter p policy ts w = Some (ds, w') \<and>
    ds = map (\<lambda>i. Decide (count w k + int i + 1) policy) [0..<length ts] \<and>
    count w' = (count w)(k := count w k + int (length ts))"
  using assms
proof (induction ts arbitrary: w)
  case Nil
  then show ?case by simp
next
  case (Cons t ts)
  have key: "windowKey p (Window policy) t = Some k" using Cons.prems(1) by simp
  have "in_int64 (count w k)" "count w k < 2 ^ 63 - 1"
    using Cons.prems(2,3) by (simp_all add: in_int64_def)
  then obtain w1 where e: "Enforce counter p policy t w = Some ((Decide (count w k + 1) policy, count w k + 1, None), w1)"
      and c: "count w1 = (count w)(k := count w k + 1)"
    using Enforce_counts [OF key] by metis
  have "\<forall>t \<in> set ts. windowKey p (Window policy) t = Some k" "0 \<le> count w1 k"
      "count w1 k + int (length ts) < 2 ^ 63"
    using Cons.prems c by simp_all
  from Cons.IH [OF this] obtain w2 where
      r: "Enforce_all counter p policy ts w1 =
        Some (map (\<lambda>i. Decide (count w1 k + int i + 1) policy) [0..<length ts], w2)"
      and c2: "count w2 = (count w1)(k := count w1 k + int (length ts))" by blast
  have "map (\<lambda>i. Decide (count w k + int i + 1) policy) [0..<length (t # ts)] =
      Decide (count w k + 1) policy # map (\<lambda>i. Decide (count w1 k + int i + 1) policy) [0..<length ts]"
    by (simp add: c upt_conv_Cons map_Suc_upt [symmetric] algebra_simps del: upt_Suc)
  with e r c c2 show ?case by (auto simp: fun_eq_iff algebra_simps)
qed

lemma Headroom_value:
  assumes "windowKey p (Window policy) t = Some k"
    and "0 < Limit policy" "in_int64 (Limit policy)" "0 \<le> count w k" "in_int64 (count w k)"
  shows "Headroom counter p policy t w =
    Some (Inr (rat_of_int (max 0 (Limit policy - count w k)) / rat_of_int (Limit policy)), w)"
proof -
  have "wrap64 (Limit policy - count w k) = Limit policy - count w k"
    using assms(2-5) by (intro wrap64_diff_id) simp_all
  moreover have "rat_of_int (max 0 (Limit policy - count w k)) / rat_of_int (Limit policy) \<le> 1"
    using assms(2,4) by (simp add: divide_le_eq)
  ultimately show ?thesis
    using assms(1,2) by (auto simp: Headroom_def Peek_value Let_def max_def)
qed

end

interpretation fake_counter: quota_counter FakeCounter "\<lambda>counts. counts"
  by unfold_locales
    (simp_all add: FakeCounter_def FakeCounter_Increment_def FakeCounter_Peek_def Let_def wrap64_id in_int64_def)

text \<open>
  The laws of the Redis client within one window: \<^verbatim>\<open>INCR\<close> adds one atomically and answers the new
  value, \<^verbatim>\<open>GET\<close> answers the value or \<^verbatim>\<open>redis.Nil\<close> (an absent counter is 0), \<^verbatim>\<open>EXPIRE\<close> does not change it.
\<close>

definition redis_counter_laws :: "'w redis_counter \<Rightarrow> ('w \<Rightarrow> string \<Rightarrow> int) \<Rightarrow> bool" where
  "redis_counter_laws client count \<longleftrightarrow>
     (\<forall>k w. in_int64 (count w k) \<and> count w k < 2 ^ 63 - 1 \<longrightarrow>
        fst (rc_INCR client k w) = Inr (count w k + 1) \<and>
        count (snd (rc_INCR client k w)) = (count w)(k := count w k + 1)) \<and>
     (\<forall>k d w. count (snd (rc_EXPIRE client k d w)) = count w) \<and>
     (\<forall>k w. rc_GET_Int64 client k w = (Inr (if count w k = 0 then None else Some (count w k)), w))"

lemma RedisCounter_quota_counter:
  assumes "redis_counter_laws client count"
  shows "quota_counter (RedisCounter client) count"
proof
  fix w and k and win :: duration
  assume "count w k < 2 ^ 63 - 1" "in_int64 (count w k)"
  then have i: "fst (rc_INCR client k w) = Inr (count w k + 1)"
      "count (snd (rc_INCR client k w)) = (count w)(k := count w k + 1)"
    and e: "\<And>w. count (snd (rc_EXPIRE client k win w)) = count w"
    using assms by (simp_all add: redis_counter_laws_def)
  show "fst (Counter_Increment (RedisCounter client) k win w) = Inr (count w k + 1)"
    using i by (auto simp: RedisCounter_def RedisCounter_Increment_def split: prod.splits)
  show "count (snd (Counter_Increment (RedisCounter client) k win w)) = (count w)(k := count w k + 1)"
    using i e [of "snd (rc_INCR client k w)"]
    by (auto simp: RedisCounter_def RedisCounter_Increment_def split: prod.splits)
next
  fix w and k
  show "Counter_Peek (RedisCounter client) k w = (Inr (count w k), w)"
    using assms by (simp add: redis_counter_laws_def RedisCounter_def RedisCounter_Peek_def)
qed

section \<open>Properties\<close>

text \<open>A Redis cluster as a total map of counters, for the concrete instances below.\<close>

definition map_redis_counter :: "(string \<Rightarrow> int) redis_counter" where
  "map_redis_counter =
     \<lparr>rc_INCR = \<lambda>k m. (Inr (m k + 1), m(k := m k + 1)),
      rc_EXPIRE = \<lambda>_ _ m. (None, m),
      rc_GET_Int64 = \<lambda>k m. (Inr (if m k = 0 then None else Some (m k)), m)\<rparr>"

lemma map_redis_counter_laws: "redis_counter_laws map_redis_counter (\<lambda>m. m)"
  by (simp add: redis_counter_laws_def map_redis_counter_def)

text \<open>
  C24. In one window the fleet admits exactly the limit: of any number of calls for a provider whose
  times fall into the same window, made by any replicas, the first \<^verbatim>\<open>Limit\<close> are allowed and every
  later one is throttled.
\<close>

theorem quota_window_admits_exactly_limit:
  assumes "redis_counter_laws client count"
    and "\<forall>t \<in> set ts. windowKey p (Window policy) t = Some k"
    and "count w k = 0" "0 \<le> Limit policy" "int (length ts) < 2 ^ 63"
  shows "map_option fst (Enforce_all (RedisCounter client) p policy ts w) =
    Some (replicate (min (length ts) (nat (Limit policy))) quota_Allow @
          replicate (length ts - nat (Limit policy)) quota_Throttle)"
proof -
  note qc = RedisCounter_quota_counter [OF assms(1)]
  have "map (\<lambda>i. Decide (0 + int i + 1) policy) [0..<length ts] =
      replicate (min (length ts) (nat (Limit policy))) quota_Allow @
      replicate (length ts - nat (Limit policy)) quota_Throttle"
    using assms(4) by (intro nth_equalityI) (auto simp: Decide_def nth_append)
  with quota_counter.Enforce_all_window [OF qc assms(2), of w] assms(3,5) show ?thesis by auto
qed

theorem quota_window_admits_exactly_limit_witness:
  "map_option fst (Enforce_all (RedisCounter map_redis_counter) ''openai'' \<lparr>Limit = 2, Window = 60000000000\<rparr>
      [120, 121, 179] (\<lambda>_. 0)) = Some [quota_Allow, quota_Allow, quota_Throttle]"
proof -
  have "\<forall>t \<in> set [120, 121, 179].
      windowKey ''openai'' (Window \<lparr>Limit = 2, Window = 60000000000\<rparr>) t = Some ''provider:openai:quota:2''"
    by (simp add: windowKey_def wholeSeconds_def nsPerSecond_def signed_divide_int_def show_int_def
        show_nat.simps go_simps)
  from quota_window_admits_exactly_limit [OF map_redis_counter_laws this, of "\<lambda>_. 0"]
  show ?thesis by (simp add: eval_nat_numeral)
qed

text \<open>
  \<^verbatim>\<open>Headroom\<close> is a read: it leaves the counters as they are and reports the unused part of the
  limit as a fraction between 0 and 1, 1 exactly when no call was counted in the window.
\<close>

theorem quota_headroom_fraction:
  assumes "redis_counter_laws client count"
    and "windowKey p (Window policy) t = Some k"
    and "0 < Limit policy" "in_int64 (Limit policy)" "0 \<le> count w k" "in_int64 (count w k)"
  shows "\<exists>h. Headroom (RedisCounter client) p policy t w = Some (Inr h, w) \<and> 0 \<le> h \<and> h \<le> 1 \<and>
    (h = 1 \<longleftrightarrow> count w k = 0) \<and> (h = 0 \<longleftrightarrow> Limit policy \<le> count w k)"
proof -
  let ?h = "rat_of_int (max 0 (Limit policy - count w k)) / rat_of_int (Limit policy)"
  have "0 \<le> ?h" "?h \<le> 1" "(?h = 0) = (Limit policy \<le> count w k)"
    using assms(3,5) by (auto simp: divide_le_eq)
  moreover have "(?h = 1) = (max 0 (Limit policy - count w k) = Limit policy)"
    using assms(3) by (rule rat_ratio_one)
  then have "(?h = 1) = (count w k = 0)" using assms(3,5) by auto
  ultimately show ?thesis
    using quota_counter.Headroom_value [OF RedisCounter_quota_counter [OF assms(1)] assms(2-6)] by blast
qed

theorem quota_headroom_fraction_witness:
  "\<exists>h. Headroom (RedisCounter map_redis_counter) ''openai'' \<lparr>Limit = 60, Window = 60000000000\<rparr> 120
      ((\<lambda>_. 0)(''provider:openai:quota:2'' := 60)) =
        Some (Inr h, (\<lambda>_. 0)(''provider:openai:quota:2'' := 60)) \<and> h = 0"
proof -
  have "windowKey ''openai'' (Window \<lparr>Limit = 60, Window = 60000000000\<rparr>) 120 = Some ''provider:openai:quota:2''"
    by (simp add: windowKey_def wholeSeconds_def nsPerSecond_def signed_divide_int_def show_int_def
        show_nat.simps go_simps)
  from quota_headroom_fraction [OF map_redis_counter_laws this,
      of "(\<lambda>_. 0)(''provider:openai:quota:2'' := 60)"]
  show ?thesis by (auto simp: in_int64_def)
qed

text \<open>
  The governor fails open: \<^verbatim>\<open>Enforce\<close> throttles only when the counter answered a value above the
  limit, and panics only for a window shorter than a second.
\<close>

lemma quota_fails_open:
  "(Enforce counter p policy now w = None \<longleftrightarrow> wholeSeconds (Window policy) = 0) \<and>
   (\<forall>d n e w'. Enforce counter p policy now w = Some ((d, n, e), w') \<longrightarrow>
      (d = quota_Throttle \<longleftrightarrow> e = None \<and> n > Limit policy))"
  by (auto simp: Enforce_def Decide_def windowKey_def split: option.splits prod.splits sum.splits if_splits)

end
