(* ===== verification/Adapters.thy ===== *)
theory Adapters
  imports OZ_Prelude "HOL-Library.Word" "HOL-Library.AList"
begin

text \<open>
  The internal contract of the provider adapters
  (\<^verbatim>\<open>services/provider-gateway/internal/adapters/adapter.go\<close>): the normalised stream items, the
  request, the interfaces \<^verbatim>\<open>Stream\<close> and \<^verbatim>\<open>Adapter\<close>, the registry and the parsing of \<^verbatim>\<open>worker_ref\<close>.
  A \<^verbatim>\<open>Stream\<close> is its state together with a function \<^verbatim>\<open>Recv\<close> on it. The locale \<open>finite_stream\<close> is
  what a consumer needs of a stream to come to an end: every item it delivers uses up some of a
  measure. Every adapter of the gateway provides it.

  The HTTP transport the adapters share is an argument: URL parsing, and a client that answers a
  request with a status, the body's bytes and how the body ends (\<open>None\<close> is a clean end).
\<close>

section \<open>Model\<close>

type_synonym float32 = "32 word"

record Delta =
  Content :: "string option"
  FinishReason :: "string option"
  IsFinal :: bool
  PrefixCacheHandle :: "string option"
  InputTokens :: "int32 option"
  OutputTokens :: "int32 option"

definition zeroDelta :: Delta where
  "zeroDelta = \<lparr>Content = None, FinishReason = None, IsFinal = False, PrefixCacheHandle = None,
     InputTokens = None, OutputTokens = None\<rparr>"

type_synonym 'st Recv = "'st \<Rightarrow> Delta result \<times> 'st"

record Message =
  Role :: string
  MsgContent :: string

record InvokeRequest =
  RequestID :: string
  Model :: string
  Messages :: "Message list"
  MaxTokens :: "int32 option"
  Temperature :: "float32 option"

record ('st, 'w) Adapter =
  Adapter_Name :: string
  Adapter_Invoke :: "InvokeRequest \<Rightarrow> 'w \<Rightarrow> 'st result \<times> 'w"

text \<open>The registry's Go map, as an association list; \<^verbatim>\<open>Names\<close> promises no order.\<close>

type_synonym ('st, 'w) Registry = "(string \<times> ('st, 'w) Adapter) list"

definition NewRegistry :: "('st, 'w) Adapter list \<Rightarrow> ('st, 'w) Registry" where
  "NewRegistry adapters = fold (\<lambda>a r. AList.update (Adapter_Name a) a r) adapters []"

definition Names :: "('st, 'w) Registry \<Rightarrow> string list" where
  "Names r = map fst r"

definition Lookup :: "('st, 'w) Registry \<Rightarrow> string \<Rightarrow> ('st, 'w) Adapter result" where
  "Lookup r provider =
     (case map_of r provider of None \<Rightarrow> Inl (ErrUnknownProvider provider) | Some a \<Rightarrow> Inr a)"

definition ParseWorkerRef :: "string \<Rightarrow> (string \<times> string) result" where
  "ParseWorkerRef workerRef =
     (case strings_Cut workerRef (CHR '':'') of
        (provider, model, ok) \<Rightarrow>
          if \<not> ok \<or> provider = []
          then Inl (ErrorString (''worker_ref '' @ quoted workerRef @ '' is not in '' @ quoted ''<provider>:<model>'' @ '' form''))
          else Inr (provider, model))"

subsection \<open>The HTTP transport\<close>

record HttpRequest =
  req_Method :: string
  req_URL :: string
  req_Header :: "(string \<times> string) list"
  req_Body :: string

record HttpResponse =
  resp_StatusCode :: int
  resp_Body :: string
  resp_BodyErr :: "go_error option"

record 'w http_client =
  http_ParseURL :: "string \<Rightarrow> go_error option"
  http_Do :: "HttpRequest \<Rightarrow> 'w \<Rightarrow> HttpResponse result \<times> 'w"

text \<open>
  The common part of every \<^verbatim>\<open>Invoke\<close>: build the request, send it, and turn an answer other than
  200 into the adapter's \<^verbatim>\<open>UpstreamError\<close> with whatever could be read of the body.
\<close>

definition post_stream ::
  "string \<Rightarrow> 'w http_client \<Rightarrow> HttpRequest \<Rightarrow> 'w \<Rightarrow> HttpResponse result \<times> 'w" where
  "post_stream adapter client httpReq w =
     (case http_ParseURL client (req_URL httpReq) of
        Some err \<Rightarrow> (Inl (Wrap (adapter @ '' adapter: build request: '') err []), w)
      | None \<Rightarrow>
          (case http_Do client httpReq w of
             (Inl err, w1) \<Rightarrow> (Inl (Wrap (adapter @ '' adapter: request failed: '') err []), w1)
           | (Inr resp, w1) \<Rightarrow>
               if resp_StatusCode resp \<noteq> 200
               then (Inl (AdapterUpstreamError adapter (resp_StatusCode resp) (resp_Body resp)), w1)
               else (Inr resp, w1)))"

subsection \<open>Reading a stream to its end\<close>

text \<open>
  The loop every consumer of a \<^verbatim>\<open>Stream\<close> runs (\<^verbatim>\<open>Relay\<close>, the coalescing leader): receive until an
  error or until an item says it is final. \<open>None\<close> would be a loop that never ends.
\<close>

partial_function (option) drain :: "'st Recv \<Rightarrow> 'st \<Rightarrow> ((Delta list \<times> go_error option) \<times> 'st) option" where
  "drain recv s =
     (case recv s of
        (Inl err, s') \<Rightarrow> Some (([], Some err), s')
      | (Inr d, s') \<Rightarrow>
          if IsFinal d then Some (([d], None), s')
          else Option.bind (drain recv s') (\<lambda>((ds, err), s''). Some ((d # ds, err), s'')))"

section \<open>Facts\<close>

lemma ParseWorkerRef_ok:
  "ParseWorkerRef w = Inr (p, m) \<longleftrightarrow> p \<noteq> [] \<and> CHR '':'' \<notin> set p \<and> w = p @ CHR '':'' # m"
proof
  assume "ParseWorkerRef w = Inr (p, m)"
  then have c: "strings_Cut w (CHR '':'') = (p, m, True)" "p \<noteq> []"
    by (auto simp: ParseWorkerRef_def split: prod.splits if_splits)
  then have "CHR '':'' \<in> set w" using strings_Cut_not_found by fastforce
  with c show "p \<noteq> [] \<and> CHR '':'' \<notin> set p \<and> w = p @ CHR '':'' # m"
    using strings_Cut_found by fastforce
next
  assume "p \<noteq> [] \<and> CHR '':'' \<notin> set p \<and> w = p @ CHR '':'' # m"
  then show "ParseWorkerRef w = Inr (p, m)"
    by (simp add: ParseWorkerRef_def strings_Cut_append)
qed

lemma map_of_NewRegistry_aux:
  "map_of (fold (\<lambda>a r. AList.update (Adapter_Name a) a r) adapters r) =
     map_of r ++ map_of (rev (map (\<lambda>a. (Adapter_Name a, a)) adapters))"
  by (induction adapters arbitrary: r) (simp_all add: update_conv' map_add_def fun_eq_iff split: option.splits)

text \<open>The last adapter registered under a name wins.\<close>

lemma map_of_NewRegistry: "map_of (NewRegistry adapters) = map_of (rev (map (\<lambda>a. (Adapter_Name a, a)) adapters))"
  by (simp add: NewRegistry_def map_of_NewRegistry_aux)

lemma set_Names_NewRegistry: "set (Names (NewRegistry adapters)) = Adapter_Name ` set adapters"
proof -
  have "set (Names (NewRegistry adapters)) = dom (map_of (NewRegistry adapters))"
    by (simp add: Names_def dom_map_of_conv_image_fst)
  also have "\<dots> = Adapter_Name ` set adapters"
    unfolding map_of_NewRegistry dom_map_of_conv_image_fst by (simp add: image_comp)
  finally show ?thesis .
qed

text \<open>With distinct names every registered adapter is found, and nothing else.\<close>

lemma Lookup_NewRegistry:
  assumes "distinct (map Adapter_Name adapters)"
  shows "Lookup (NewRegistry adapters) p = Inr a \<longleftrightarrow> a \<in> set adapters \<and> Adapter_Name a = p"
    and "Lookup (NewRegistry adapters) p = Inl e \<longleftrightarrow> e = ErrUnknownProvider p \<and> p \<notin> Adapter_Name ` set adapters"
proof -
  let ?kv = "rev (map (\<lambda>a. (Adapter_Name a, a)) adapters)"
  have d: "distinct (map fst ?kv)"
    using assms by (simp add: rev_map [symmetric] comp_def)
  show "Lookup (NewRegistry adapters) p = Inr a \<longleftrightarrow> a \<in> set adapters \<and> Adapter_Name a = p"
    using map_of_eq_Some_iff [OF d, of p a]
    by (auto simp: Lookup_def map_of_NewRegistry split: option.splits)
  show "Lookup (NewRegistry adapters) p = Inl e \<longleftrightarrow> e = ErrUnknownProvider p \<and> p \<notin> Adapter_Name ` set adapters"
    using map_of_eq_None_iff [of ?kv p]
    by (auto simp: Lookup_def map_of_NewRegistry image_comp split: option.splits)
qed

section \<open>Streams that come to an end\<close>

text \<open>Induction along the items that a stream delivered.\<close>

lemma drain_items_induct [consumes 1, case_names error final more]:
  assumes "drain recv s = Some ((ds, err), s')"
    and error: "\<And>s e s'. recv s = (Inl e, s') \<Longrightarrow> P s [] (Some e) s'"
    and final: "\<And>s d s'. recv s = (Inr d, s') \<Longrightarrow> IsFinal d \<Longrightarrow> P s [d] None s'"
    and more: "\<And>s d s1 ds err s'. recv s = (Inr d, s1) \<Longrightarrow> \<not> IsFinal d \<Longrightarrow> P s1 ds err s' \<Longrightarrow> P s (d # ds) err s'"
  shows "P s ds err s'"
proof -
  have "recv = recv \<longrightarrow> P s (fst (fst ((ds, err), s'))) (snd (fst ((ds, err), s'))) (snd ((ds, err), s'))"
  proof (rule drain.raw_induct [where P = "\<lambda>rc s y. rc = recv \<longrightarrow> P s (fst (fst y)) (snd (fst y)) (snd y)",
        OF _ assms(1)], rule impI)
    fix drain and rc :: "'a Recv" and s and y :: "(Delta list \<times> go_error option) \<times> 'a"
    assume ih: "\<And>rc s y. drain rc s = Some y \<Longrightarrow> rc = recv \<longrightarrow> P s (fst (fst y)) (snd (fst y)) (snd y)"
      and y: "(case rc s of
          (Inl err, s') \<Rightarrow> Some (([], Some err), s')
        | (Inr d, s') \<Rightarrow>
            if IsFinal d then Some (([d], None), s')
            else Option.bind (drain rc s') (\<lambda>((ds, err), s''). Some ((d # ds, err), s''))) = Some y"
      and rc: "rc = recv"
    obtain r s1 where r: "recv s = (r, s1)" by fastforce
    show "P s (fst (fst y)) (snd (fst y)) (snd y)"
    proof (cases r)
      case (Inl e)
      with r y rc error show ?thesis by auto
    next
      case (Inr d)
      show ?thesis
      proof (cases "IsFinal d")
        case True
        with r Inr y rc final show ?thesis by auto
      next
        case False
        with r Inr y rc obtain z where z: "drain recv s1 = Some z" "y = ((d # fst (fst z), snd (fst z)), snd z)"
          by (auto split: bind_splits)
        with ih more r Inr False show ?thesis by simp
      qed
    qed
  qed
  then show ?thesis by simp
qed

locale finite_stream =
  fixes recv :: "'st Recv"
    and todo :: "'st \<Rightarrow> nat"
  assumes recv_uses_up: "fst (recv s) = Inr d \<Longrightarrow> todo (snd (recv s)) < todo s"
begin

text \<open>Whatever a consumer does with the items, it reaches a final item or an error.\<close>

lemma drain_induct [case_names drain]:
  assumes "\<And>s. (\<And>d s'. recv s = (Inr d, s') \<Longrightarrow> \<not> IsFinal d \<Longrightarrow> P s') \<Longrightarrow> P s"
  shows "P s"
proof (induction s rule: measure_induct_rule [of todo])
  case (less s)
  show ?case
  proof (rule assms)
    fix d s'
    assume "recv s = (Inr d, s')" "\<not> IsFinal d"
    then show "P s'" using less recv_uses_up [of s d] by simp
  qed
qed

lemma drain_returns:
  "\<exists>ds err s'. drain recv s = Some ((ds, err), s') \<and>
     list_all (\<lambda>d. \<not> IsFinal d) (if err = None then butlast ds else ds) \<and>
     (err = None \<longrightarrow> ds \<noteq> [] \<and> IsFinal (last ds))"
proof (induction s rule: drain_induct)
  case (drain s)
  obtain r s1 where r: "recv s = (r, s1)" by fastforce
  show ?case
  proof (cases r)
    case (Inl e)
    with r show ?thesis by (simp add: drain.simps [of recv s])
  next
    case (Inr d)
    show ?thesis
    proof (cases "IsFinal d")
      case True
      with r Inr show ?thesis by (simp add: drain.simps [of recv s])
    next
      case False
      with drain r Inr obtain ds err s' where
        "drain recv s1 = Some ((ds, err), s')"
        "list_all (\<lambda>d. \<not> IsFinal d) (if err = None then butlast ds else ds)"
        "err = None \<longrightarrow> ds \<noteq> [] \<and> IsFinal (last ds)" by blast
      with r Inr False show ?thesis
        by (intro exI [of _ "d # ds"] exI [of _ err] exI [of _ s']) (auto simp: drain.simps [of recv s])
    qed
  qed
qed

end

text \<open>
  The contract of the HTTP adapters' streams: an error or the final item closes the response body, and
  the items satisfy \<open>good\<close>.
\<close>

locale closing_stream = finite_stream +
  fixes closed :: "'a \<Rightarrow> bool"
    and good :: "Delta \<Rightarrow> bool"
  assumes recv_error_closes: "recv s = (Inl err, s') \<Longrightarrow> closed s'"
    and recv_final_closes: "recv s = (Inr d, s') \<Longrightarrow> IsFinal d \<Longrightarrow> closed s'"
    and recv_good: "recv s = (Inr d, s') \<Longrightarrow> good d"
begin

lemma drain_closes: "drain recv s = Some ((ds, err), s') \<Longrightarrow> closed s' \<and> list_all good ds"
proof (induction s arbitrary: ds rule: drain_induct)
  case (drain s)
  then show ?case
    by (subst (asm) (2) drain.simps)
      (auto split: prod.splits sum.splits if_splits bind_splits
        intro: recv_error_closes recv_final_closes recv_good)
qed

text \<open>Reading such a stream comes to an end, with the body closed.\<close>

lemma drain_safe:
  "\<exists>ds err s'. drain recv s = Some ((ds, err), s') \<and> closed s' \<and> list_all good ds \<and>
     list_all (\<lambda>d. \<not> IsFinal d) (if err = None then butlast ds else ds) \<and>
     (case err of None \<Rightarrow> ds \<noteq> [] \<and> IsFinal (last ds) | Some _ \<Rightarrow> True)"
proof -
  obtain ds err s' where d: "drain recv s = Some ((ds, err), s')"
      "list_all (\<lambda>d. \<not> IsFinal d) (if err = None then butlast ds else ds)"
      "err = None \<longrightarrow> ds \<noteq> [] \<and> IsFinal (last ds)"
    using drain_returns by blast
  with drain_closes [OF d(1)] show ?thesis
    by (intro exI [of _ ds] exI [of _ err] exI [of _ s']) (simp split: option.split)
qed

end

section \<open>Properties\<close>

text \<open>
  \<^verbatim>\<open>ParseWorkerRef\<close> accepts exactly the texts of the form \<open>provider:model\<close> with a non-empty
  provider and splits them at the first colon, so the model may itself contain colons and printing
  the two parts gives the text back.
\<close>

theorem ParseWorkerRef_roundtrip:
  "(\<exists>p m. ParseWorkerRef w = Inr (p, m)) = (\<exists>p m. p \<noteq> [] \<and> CHR '':'' \<notin> set p \<and> w = p @ '':'' @ m) \<and>
   (ParseWorkerRef w = Inr (p, m)) = (p \<noteq> [] \<and> CHR '':'' \<notin> set p \<and> w = p @ '':'' @ m)"
  by (simp add: ParseWorkerRef_ok)

end
