(* ===== verification/Sse.thy ===== *)
theory Sse
  imports Adapters
begin

text \<open>
  The Server-Sent-Events scanner of provider-gateway
  (\<^verbatim>\<open>services/provider-gateway/internal/adapters/sse/sse.go\<close>) over a model of \<^verbatim>\<open>bufio.Scanner\<close> with
  \<^verbatim>\<open>ScanLines\<close>. The scanner's state is the unread part of the body and how the body ends. The
  longest line is bounded by the buffer of \<^verbatim>\<open>NewScanner\<close> (1 MiB), and a longer one ends the scan with
  \<^verbatim>\<open>bufio.ErrTooLong\<close>. The round trip \<open>sse_roundtrip\<close> says that the frames a server prints are the
  events \<^verbatim>\<open>Next\<close> returns.
\<close>

section \<open>Model\<close>

subsection \<open>bufio.Scanner\<close>

definition maxTokenSize :: nat where
  "maxTokenSize = 1024 * 1024"

definition ErrTooLong :: go_error where
  "ErrTooLong = Sentinel ''bufio'' ''bufio.Scanner: token too long''"

text \<open>
  \<open>sc_data\<close> are the bytes not yet returned, \<open>sc_err\<close> the error the reader ends with (\<open>None\<close> for
  \<^verbatim>\<open>io.EOF\<close>), \<open>sc_full\<close> that the buffer overflowed: what it held is then the last token.
\<close>

record bufio_Scanner =
  sc_data :: string
  sc_err :: "go_error option"
  sc_full :: bool

definition dropCR :: "string \<Rightarrow> string" where
  "dropCR line = (if line \<noteq> [] \<and> last line = CHR 0x0D then butlast line else line)"

definition scanner_Scan :: "bufio_Scanner \<Rightarrow> string option \<times> bufio_Scanner" where
  "scanner_Scan sc =
     (let data = sc_data sc; raw = takeWhile (\<lambda>c. c \<noteq> newline) data
      in if data = [] then (None, sc)
         else if \<not> sc_full sc \<and> maxTokenSize \<le> length raw
         then (None, sc\<lparr>sc_data := take maxTokenSize data, sc_err := Some ErrTooLong, sc_full := True\<rparr>)
         else (Some (dropCR raw), sc\<lparr>sc_data := drop (Suc (length raw)) data\<rparr>))"

subsection \<open>strings.TrimSpace\<close>

text \<open>The UTF-8 encodings of the code points with the property White Space.\<close>

definition unicode_spaces :: "string list" where
  "unicode_spaces =
     [[CHR 0x09], [CHR 0x0A], [CHR 0x0B], [CHR 0x0C], [CHR 0x0D], [CHR 0x20],
      [CHR 0xC2, CHR 0x85], [CHR 0xC2, CHR 0xA0], [CHR 0xE1, CHR 0x9A, CHR 0x80],
      [CHR 0xE2, CHR 0x80, CHR 0x80], [CHR 0xE2, CHR 0x80, CHR 0x81], [CHR 0xE2, CHR 0x80, CHR 0x82],
      [CHR 0xE2, CHR 0x80, CHR 0x83], [CHR 0xE2, CHR 0x80, CHR 0x84], [CHR 0xE2, CHR 0x80, CHR 0x85],
      [CHR 0xE2, CHR 0x80, CHR 0x86], [CHR 0xE2, CHR 0x80, CHR 0x87], [CHR 0xE2, CHR 0x80, CHR 0x88],
      [CHR 0xE2, CHR 0x80, CHR 0x89], [CHR 0xE2, CHR 0x80, CHR 0x8A], [CHR 0xE2, CHR 0x80, CHR 0xA8],
      [CHR 0xE2, CHR 0x80, CHR 0xA9], [CHR 0xE2, CHR 0x80, CHR 0xAF], [CHR 0xE2, CHR 0x81, CHR 0x9F],
      [CHR 0xE3, CHR 0x80, CHR 0x80]]"

text \<open>Drop leading occurrences of the given non-empty texts.\<close>

function trim_front :: "string list \<Rightarrow> string \<Rightarrow> string" where
  "trim_front seqs s =
     (case find (\<lambda>p. p \<noteq> [] \<and> strings_HasPrefix s p) seqs of
        None \<Rightarrow> s
      | Some p \<Rightarrow> trim_front seqs (drop (length p) s))"
  by pat_completeness auto
termination
proof (relation "measure (\<lambda>(seqs, s). length s)", simp)
  fix seqs and s p :: string
  assume "find (\<lambda>p. p \<noteq> [] \<and> strings_HasPrefix s p) seqs = Some p"
  then have "p \<noteq> []" "strings_HasPrefix s p"
    by (auto simp: find_Some_iff)
  then have "0 < length p" "length p \<le> length s"
    by (auto simp: strings_HasPrefix_def dest: arg_cong [of _ _ length])
  then show "((seqs, drop (length p) s), seqs, s) \<in> measure (\<lambda>(seqs, s). length s)"
    by (cases p) auto
qed

declare trim_front.simps [simp del]

definition strings_TrimSpace :: "string \<Rightarrow> string" where
  "strings_TrimSpace s = rev (trim_front (map rev unicode_spaces) (rev (trim_front unicode_spaces s)))"

subsection \<open>Events\<close>

record Event =
  ev_Name :: string
  ev_Data :: string

definition sse_NewScanner :: "string \<Rightarrow> go_error option \<Rightarrow> bufio_Scanner" where
  "sse_NewScanner body end_err = \<lparr>sc_data = body, sc_err = end_err, sc_full = False\<rparr>"

lemma scanner_Scan_shorter: "scanner_Scan sc = (Some line, sc') \<Longrightarrow> length (sc_data sc') < length (sc_data sc)"
  by (auto simp: scanner_Scan_def Let_def split: if_splits)

lemma scanner_Scan_no_longer: "length (sc_data (snd (scanner_Scan sc))) \<le> length (sc_data sc)"
  by (simp add: scanner_Scan_def Let_def)

text \<open>The loop of \<^verbatim>\<open>Next\<close>: the event's name so far, its data lines, and whether the frame has begun.\<close>

function sse_loop ::
  "bufio_Scanner \<Rightarrow> string \<Rightarrow> string list \<Rightarrow> bool \<Rightarrow> Event result \<times> bufio_Scanner" where
  "sse_loop sc name dataLines sawAny =
     (case scanner_Scan sc of
        (Some line, sc') \<Rightarrow>
          if line = [] then
            (if sawAny then (Inr \<lparr>ev_Name = name, ev_Data = strings_Join dataLines [newline]\<rparr>, sc')
             else sse_loop sc' name dataLines sawAny)
          else if strings_HasPrefix line ''event:'' then
            sse_loop sc' (strings_TrimSpace (strings_TrimPrefix line ''event:'')) dataLines True
          else if strings_HasPrefix line ''data:'' then
            sse_loop sc' name (dataLines @ [strings_TrimPrefix (strings_TrimPrefix line ''data:'') '' '']) True
          else sse_loop sc' name dataLines True
      | (None, sc') \<Rightarrow>
          (case sc_err sc' of
             Some err \<Rightarrow> (Inl err, sc')
           | None \<Rightarrow>
               if sawAny then (Inr \<lparr>ev_Name = name, ev_Data = strings_Join dataLines [newline]\<rparr>, sc')
               else (Inl EOF, sc')))"
  by pat_completeness auto
termination
  by (relation "measure (\<lambda>(sc, name, dataLines, sawAny). length (sc_data sc))")
    (auto dest!: scanner_Scan_shorter [OF sym])

declare sse_loop.simps [simp del]

definition sse_Next :: "bufio_Scanner \<Rightarrow> Event result \<times> bufio_Scanner" where
  "sse_Next sc = sse_loop sc [] [] False"

section \<open>Facts\<close>

lemma sse_loop_shorter:
  "sse_loop sc name dl saw = (Inr ev, sc') \<Longrightarrow>
     length (sc_data sc') \<le> length (sc_data sc) \<and> (\<not> saw \<longrightarrow> length (sc_data sc') < length (sc_data sc))"
proof (induction sc name dl saw rule: sse_loop.induct)
  case (1 sc name dl saw)
  obtain line sc1 where s: "scanner_Scan sc = (line, sc1)" by fastforce
  show ?case
  proof (cases line)
    case None
    with "1.prems" s have "saw" "sc' = sc1"
      by (auto simp: sse_loop.simps [of sc] split: option.splits if_splits)
    then show ?thesis using scanner_Scan_no_longer [of sc] s by simp
  next
    case (Some l)
    with s have "length (sc_data sc1) < length (sc_data sc)" using scanner_Scan_shorter by blast
    then show ?thesis
      using "1.IH" "1.prems" s Some by (fastforce simp: sse_loop.simps [of sc] split: if_splits)
  qed
qed

text \<open>An event costs at least one byte of the body, so a body holds finitely many.\<close>

lemma sse_Next_shorter: "sse_Next sc = (Inr ev, sc') \<Longrightarrow> length (sc_data sc') < length (sc_data sc)"
  unfolding sse_Next_def by (drule sse_loop_shorter) simp


text \<open>All events of a body, and the error that ends it (\<^verbatim>\<open>io.EOF\<close> when it ends cleanly).\<close>

function sse_events :: "bufio_Scanner \<Rightarrow> Event list \<times> go_error" where
  "sse_events sc =
     (case sse_Next sc of
        (Inl err, _) \<Rightarrow> ([], err)
      | (Inr ev, sc') \<Rightarrow> (case sse_events sc' of (evs, err) \<Rightarrow> (ev # evs, err)))"
  by pat_completeness auto
termination
  by (relation "measure (\<lambda>sc. length (sc_data sc))") (auto dest!: sse_Next_shorter [OF sym])

declare sse_events.simps [simp del]

lemma sse_events_ConsE:
  assumes "sse_events sc = (ev # evs, err)"
  obtains sc' where "sse_Next sc = (Inr ev, sc')" "sse_events sc' = (evs, err)"
proof -
  obtain r sc' where n: "sse_Next sc = (r, sc')" by fastforce
  with assms have "r = Inr ev" "sse_events sc' = (evs, err)"
    by (auto simp: sse_events.simps [of sc] split: sum.splits prod.splits)
  with n that show thesis by simp
qed

section \<open>Printing frames\<close>

text \<open>
  A frame as a provider prints it: an optional line \<^verbatim>\<open>event: name\<close>, the lines of the payload, each after
  \<^verbatim>\<open>data: \<close>, and an empty line. A line must fit the buffer and must not itself contain a line break.
\<close>

definition sse_line_ok :: "string \<Rightarrow> bool" where
  "sse_line_ok l \<longleftrightarrow>
     newline \<notin> set l \<and> (l \<noteq> [] \<longrightarrow> last l \<noteq> CHR 0x0D) \<and> length l + 7 < maxTokenSize"

definition sse_frame_ok :: "string \<times> string list \<Rightarrow> bool" where
  "sse_frame_ok f \<longleftrightarrow>
     sse_line_ok (fst f) \<and> strings_TrimSpace (CHR '' '' # fst f) = fst f \<and>
     list_all sse_line_ok (snd f) \<and> snd f \<noteq> []"

definition sse_print_frame :: "string \<times> string list \<Rightarrow> string" where
  "sse_print_frame f =
     (if fst f = [] then [] else ''event: '' @ fst f @ [newline]) @
     concat (map (\<lambda>l. ''data: '' @ l @ [newline]) (snd f)) @ [newline]"

definition sse_frame_event :: "string \<times> string list \<Rightarrow> Event" where
  "sse_frame_event f = \<lparr>ev_Name = fst f, ev_Data = strings_Join (snd f) [newline]\<rparr>"

lemma scanner_Scan_line:
  assumes "newline \<notin> set l" "length l < maxTokenSize" "l \<noteq> [] \<longrightarrow> last l \<noteq> CHR 0x0D" "\<not> sc_full sc"
    and "sc_data sc = l @ newline # rest"
  shows "scanner_Scan sc = (Some l, sc\<lparr>sc_data := rest\<rparr>)"
proof -
  have "takeWhile (\<lambda>c. c \<noteq> newline) (l @ newline # rest) = l"
    using assms(1) by (auto simp: takeWhile_append)
  then show ?thesis
    using assms(2-5) by (auto simp: scanner_Scan_def Let_def dropCR_def)
qed

lemma sse_loop_data:
  assumes "list_all sse_line_ok ls" "\<not> sc_full sc"
    and "sc_data sc = concat (map (\<lambda>l. ''data: '' @ l @ [newline]) ls) @ newline # rest"
    and "saw \<or> ls \<noteq> []"
  shows "sse_loop sc name acc saw =
    (Inr \<lparr>ev_Name = name, ev_Data = strings_Join (acc @ ls) [newline]\<rparr>, sc\<lparr>sc_data := rest\<rparr>)"
  using assms
proof (induction ls arbitrary: sc acc saw)
  case Nil
  then have "scanner_Scan sc = (Some [], sc\<lparr>sc_data := rest\<rparr>)"
    by (intro scanner_Scan_line) (simp_all add: maxTokenSize_def)
  with Nil show ?case by (simp add: sse_loop.simps [of sc])
next
  case (Cons l ls)
  let ?rest = "concat (map (\<lambda>l. ''data: '' @ l @ [newline]) ls) @ newline # rest"
  have "scanner_Scan sc = (Some (''data: '' @ l), sc\<lparr>sc_data := ?rest\<rparr>)"
    using Cons.prems by (intro scanner_Scan_line) (auto simp: sse_line_ok_def maxTokenSize_def)
  moreover have "sse_loop (sc\<lparr>sc_data := ?rest\<rparr>) name (acc @ [l]) True =
      (Inr \<lparr>ev_Name = name, ev_Data = strings_Join ((acc @ [l]) @ ls) [newline]\<rparr>, sc\<lparr>sc_data := rest\<rparr>)"
    using Cons.IH [of "sc\<lparr>sc_data := ?rest\<rparr>"] Cons.prems by simp
  ultimately show ?case
    by (simp add: sse_loop.simps [of sc] strings_HasPrefix_def strings_TrimPrefix_def)
qed

lemma sse_Next_frame:
  assumes "sse_frame_ok f" "\<not> sc_full sc" "sc_data sc = sse_print_frame f @ rest"
  shows "sse_Next sc = (Inr (sse_frame_event f), sc\<lparr>sc_data := rest\<rparr>)"
proof (cases "fst f = []")
  case True
  have "sse_loop sc [] [] False =
      (Inr \<lparr>ev_Name = [], ev_Data = strings_Join ([] @ snd f) [newline]\<rparr>, sc\<lparr>sc_data := rest\<rparr>)"
    using assms True by (intro sse_loop_data) (simp_all add: sse_frame_ok_def sse_print_frame_def)
  then show ?thesis using True by (simp add: sse_Next_def sse_frame_event_def)
next
  case False
  let ?rest = "concat (map (\<lambda>l. ''data: '' @ l @ [newline]) (snd f)) @ newline # rest"
  have "scanner_Scan sc = (Some (''event: '' @ fst f), sc\<lparr>sc_data := ?rest\<rparr>)"
    using assms False
    by (intro scanner_Scan_line) (auto simp: sse_frame_ok_def sse_line_ok_def sse_print_frame_def maxTokenSize_def)
  moreover have "sse_loop (sc\<lparr>sc_data := ?rest\<rparr>) (fst f) [] True =
      (Inr \<lparr>ev_Name = fst f, ev_Data = strings_Join ([] @ snd f) [newline]\<rparr>, sc\<lparr>sc_data := ?rest, sc_data := rest\<rparr>)"
    using assms by (intro sse_loop_data) (simp_all add: sse_frame_ok_def)
  ultimately show ?thesis
    using assms by (simp add: sse_Next_def sse_loop.simps [of sc] strings_HasPrefix_def strings_TrimPrefix_def
        sse_frame_ok_def sse_frame_event_def)
qed

lemma sse_Next_end: "sc_data sc = [] \<Longrightarrow> sc_err sc = None \<Longrightarrow> sse_Next sc = (Inl EOF, sc)"
  by (simp add: sse_Next_def sse_loop.simps scanner_Scan_def)

text \<open>
  The frames a provider prints are the events the scanner returns: on a body that is a sequence of
  well-formed frames, repeated \<^verbatim>\<open>Next\<close> returns exactly one event per frame, in order, with the frame's
  name and its payload lines joined by line feeds, and then \<^verbatim>\<open>io.EOF\<close>.
\<close>

lemma sse_events_frames:
  assumes "list_all sse_frame_ok fs"
  shows "sse_events (sse_NewScanner (concat (map sse_print_frame fs)) None) = (map sse_frame_event fs, EOF)"
  using assms
proof (induction fs)
  case Nil
  then show ?case by (simp add: sse_events.simps sse_Next_end sse_NewScanner_def)
next
  case (Cons f fs)
  have "sse_Next (sse_NewScanner (concat (map sse_print_frame (f # fs))) None) =
      (Inr (sse_frame_event f), (sse_NewScanner (concat (map sse_print_frame (f # fs))) None)
         \<lparr>sc_data := concat (map sse_print_frame fs)\<rparr>)"
    using Cons.prems by (intro sse_Next_frame) (simp_all add: sse_NewScanner_def)
  with Cons show ?case by (subst sse_events.simps) (simp add: sse_NewScanner_def)
qed

end
