(* ===== verification/Openai.thy ===== *)
theory Openai
  imports Sse
begin

text \<open>
  The adapter for OpenAI's Chat Completions API
  (\<^verbatim>\<open>services/provider-gateway/internal/adapters/openai/openai.go\<close>), also registered for the
  OpenAI-compatible providers Grok, GLM and Kimi. Its stream holds back the finish reason until the
  usage arrives: \<^verbatim>\<open>Recv\<close> reads SSE frames until one of them has something to forward. The operations
  are defined over the two JSON codecs (\<^verbatim>\<open>json.Marshal\<close> of the request, \<^verbatim>\<open>json.Unmarshal\<close> of a chunk), which
  \<open>Openai_Wire\<close> defines. Nothing calls
  \<^verbatim>\<open>Recv\<close> after the body was closed; the model keeps the flag \<open>oa_closed\<close> to show that it always is.
\<close>

section \<open>Model\<close>

abbreviation openai_ProviderName :: string where "openai_ProviderName \<equiv> ''openai''"
abbreviation openai_defaultBaseURL :: string where "openai_defaultBaseURL \<equiv> ''https://api.openai.com''"
abbreviation openai_defaultCompletionsPath :: string where
  "openai_defaultCompletionsPath \<equiv> ''/v1/chat/completions''"

record openai_Adapter =
  oa_name :: string
  oa_apiKey :: string
  oa_baseURL :: string
  oa_completionsPath :: string

definition openai_NewNamedWithPath :: "string \<Rightarrow> string \<Rightarrow> string \<Rightarrow> string \<Rightarrow> openai_Adapter" where
  "openai_NewNamedWithPath name apiKey baseURL completionsPath =
     (let baseURL = (if baseURL = [] then openai_defaultBaseURL else baseURL);
          completionsPath = (if completionsPath = [] then openai_defaultCompletionsPath else completionsPath)
      in \<lparr>oa_name = name, oa_apiKey = apiKey, oa_baseURL = baseURL, oa_completionsPath = completionsPath\<rparr>)"

definition openai_NewNamed :: "string \<Rightarrow> string \<Rightarrow> string \<Rightarrow> openai_Adapter" where
  "openai_NewNamed name apiKey baseURL = openai_NewNamedWithPath name apiKey baseURL []"

definition openai_New :: "string \<Rightarrow> string \<Rightarrow> openai_Adapter" where
  "openai_New apiKey baseURL = openai_NewNamedWithPath openai_ProviderName apiKey baseURL []"

definition openai_Name :: "openai_Adapter \<Rightarrow> string" where
  "openai_Name a = oa_name a"

definition openai_SetAPIKey :: "string \<Rightarrow> openai_Adapter \<Rightarrow> openai_Adapter" where
  "openai_SetAPIKey key a = a\<lparr>oa_apiKey := key\<rparr>"

subsection \<open>Wire format\<close>

record openai_wireReqMessage =
  oq_Role :: string
  oq_Content :: string

record openai_wireRequest =
  oq_Model :: string
  oq_Messages :: "openai_wireReqMessage list"
  oq_Stream :: bool
  oq_IncludeUsage :: bool
  oq_MaxTokens :: "int32 option"
  oq_Temperature :: "float32 option"

record openai_wireChoice =
  oc_Content :: "string option"
  oc_FinishReason :: "string option"

record openai_wireUsage =
  ou_PromptTokens :: int32
  ou_CompletionTokens :: int32

record openai_wireError =
  oe_Message :: string
  oe_Type :: string

record openai_wireChunk =
  ock_Choices :: "openai_wireChoice list"
  ock_Usage :: "openai_wireUsage option"
  ock_Error :: "openai_wireError option"

subsection \<open>Invoke and the stream\<close>

record openai_stream =
  oa_scanner :: bufio_Scanner
  oa_closed :: bool
  oa_pendingFinishReason :: "string option"

definition openai_request :: "InvokeRequest \<Rightarrow> openai_wireRequest" where
  "openai_request req =
     \<lparr>oq_Model = Model req,
      oq_Messages = map (\<lambda>m. \<lparr>oq_Role = Role m, oq_Content = MsgContent m\<rparr>) (Messages req),
      oq_Stream = True, oq_IncludeUsage = True,
      oq_MaxTokens = MaxTokens req, oq_Temperature = Temperature req\<rparr>"

definition openai_Invoke ::
  "(openai_wireRequest \<Rightarrow> string result) \<Rightarrow> 'w http_client \<Rightarrow> openai_Adapter \<Rightarrow> InvokeRequest \<Rightarrow> 'w
     \<Rightarrow> openai_stream result \<times> 'w" where
  "openai_Invoke marshal client a req w =
     (case marshal (openai_request req) of
        Inl err \<Rightarrow> (Inl (Wrap ''openai adapter: marshal request: '' err []), w)
      | Inr body \<Rightarrow>
          (case post_stream ''openai'' client
                  \<lparr>req_Method = ''POST'', req_URL = oa_baseURL a @ oa_completionsPath a,
                   req_Header = [(''Content-Type'', ''application/json''),
                                 (''Authorization'', ''Bearer '' @ oa_apiKey a)],
                   req_Body = body\<rparr> w of
             (Inl err, w1) \<Rightarrow> (Inl err, w1)
           | (Inr resp, w1) \<Rightarrow>
               (Inr \<lparr>oa_scanner = sse_NewScanner (resp_Body resp) (resp_BodyErr resp), oa_closed = False,
                     oa_pendingFinishReason = None\<rparr>, w1)))"

function openai_Recv :: "(string \<Rightarrow> openai_wireChunk result) \<Rightarrow> openai_stream Recv" where
  "openai_Recv unmarshal s =
     (case sse_Next (oa_scanner s) of
        (Inl err, sc) \<Rightarrow>
          (if err = EOF then (Inl EOF, s\<lparr>oa_scanner := sc, oa_closed := True\<rparr>)
           else (Inl (Wrap ''openai adapter: read stream: '' err []), s\<lparr>oa_scanner := sc, oa_closed := True\<rparr>))
      | (Inr ev, sc) \<Rightarrow>
          (let s = s\<lparr>oa_scanner := sc\<rparr> in
           if ev_Data ev = ''[DONE]'' then
             (if oa_pendingFinishReason s \<noteq> None
              then (Inr (zeroDelta\<lparr>FinishReason := oa_pendingFinishReason s, IsFinal := True\<rparr>), s\<lparr>oa_closed := True\<rparr>)
              else (Inl EOF, s\<lparr>oa_closed := True\<rparr>))
           else
             (case unmarshal (ev_Data ev) of
                Inl err \<Rightarrow> (Inl (Wrap ''openai adapter: decode chunk: '' err []), s\<lparr>oa_closed := True\<rparr>)
              | Inr chunk \<Rightarrow>
                  (case ock_Error chunk of
                     Some e \<Rightarrow> (Inl (ErrorString (''openai adapter: stream error: '' @ oe_Message e)), s\<lparr>oa_closed := True\<rparr>)
                   | None \<Rightarrow>
                       (case ock_Choices chunk of
                          [] \<Rightarrow>
                            (case ock_Usage chunk of
                               None \<Rightarrow> openai_Recv unmarshal s
                             | Some u \<Rightarrow>
                                 (Inr (zeroDelta\<lparr>FinishReason := oa_pendingFinishReason s, IsFinal := True,
                                         InputTokens := Some (ou_PromptTokens u),
                                         OutputTokens := Some (ou_CompletionTokens u)\<rparr>),
                                  s\<lparr>oa_closed := True\<rparr>))
                        | choice # _ \<Rightarrow>
                            if oc_FinishReason choice \<noteq> None then
                              (case ock_Usage chunk of
                                 Some u \<Rightarrow>
                                   (Inr (zeroDelta\<lparr>FinishReason := oc_FinishReason choice, IsFinal := True,
                                           InputTokens := Some (ou_PromptTokens u),
                                           OutputTokens := Some (ou_CompletionTokens u)\<rparr>),
                                    s\<lparr>oa_closed := True\<rparr>)
                               | None \<Rightarrow>
                                   openai_Recv unmarshal (s\<lparr>oa_pendingFinishReason := oc_FinishReason choice\<rparr>))
                            else if oc_Content choice = None then openai_Recv unmarshal s
                            else (Inr (zeroDelta\<lparr>Content := oc_Content choice\<rparr>), s))))))"
  by pat_completeness auto
termination
  by (relation "measure (\<lambda>(u, s). length (sc_data (oa_scanner s)))")
    (auto dest!: sse_Next_shorter [OF sym])

declare openai_Recv.simps [simp del]

text \<open>The adapter as the registry sees it.\<close>

definition openai_Adapter_iface ::
  "(openai_wireRequest \<Rightarrow> string result) \<Rightarrow> 'w http_client \<Rightarrow> openai_Adapter \<Rightarrow> (openai_stream, 'w) Adapter" where
  "openai_Adapter_iface marshal client a =
     \<lparr>Adapter_Name = openai_Name a, Adapter_Invoke = openai_Invoke marshal client a\<rparr>"

section \<open>The contract of the stream\<close>

text \<open>What a consumer may rely on about an item: content unless final, and both token counts or none.\<close>

definition openai_item_ok :: "Delta \<Rightarrow> bool" where
  "openai_item_ok d \<longleftrightarrow>
     (if IsFinal d then Content d = None \<and> (InputTokens d = None \<longleftrightarrow> OutputTokens d = None) \<and>
                        (InputTokens d = None \<longrightarrow> FinishReason d \<noteq> None)
      else Content d \<noteq> None \<and> FinishReason d = None \<and> InputTokens d = None \<and> OutputTokens d = None)"

lemma openai_Recv_shorter:
  "openai_Recv u s = (Inr d, s') \<Longrightarrow> length (sc_data (oa_scanner s')) < length (sc_data (oa_scanner s))"
proof (induction u s rule: openai_Recv.induct)
  case (1 u s)
  obtain r sc where n: "sse_Next (oa_scanner s) = (r, sc)" by fastforce
  show ?case
  proof (cases r)
    case (Inl e)
    with n "1.prems" show ?thesis by (simp add: openai_Recv.simps [of u s] split: if_splits)
  next
    case (Inr ev)
    with n have "length (sc_data sc) < length (sc_data (oa_scanner s))" using sse_Next_shorter by blast
    then show ?thesis
      using "1.IH" [OF n [symmetric] Inr refl] "1.prems" n Inr
      by (fastforce simp: openai_Recv.simps [of u s] Let_def
          split: if_splits sum.splits option.splits list.splits)
  qed
qed

lemma openai_Recv_outcome:
  "openai_Recv u s = (r, s') \<Longrightarrow>
     (case r of Inl e \<Rightarrow> oa_closed s' | Inr d \<Rightarrow> openai_item_ok d \<and> (IsFinal d \<longrightarrow> oa_closed s'))"
proof (induction u s rule: openai_Recv.induct)
  case (1 u s)
  obtain q sc where n: "sse_Next (oa_scanner s) = (q, sc)" by fastforce
  show ?case
  proof (cases q)
    case (Inl e)
    with n "1.prems" show ?thesis by (auto simp: openai_Recv.simps [of u s] split: if_splits)
  next
    case (Inr ev)
    with "1.IH" [OF n [symmetric] Inr refl] "1.prems" n show ?thesis
      by (fastforce simp: openai_Recv.simps [of u s] Let_def openai_item_ok_def zeroDelta_def
          split: if_splits sum.splits option.splits list.splits)
  qed
qed

interpretation openai: closing_stream "openai_Recv unmarshal" "\<lambda>s. length (sc_data (oa_scanner s))"
    oa_closed openai_item_ok for unmarshal
proof
  fix s d s' err
  show "fst (openai_Recv unmarshal s) = Inr d \<Longrightarrow>
      length (sc_data (oa_scanner (snd (openai_Recv unmarshal s)))) < length (sc_data (oa_scanner s))"
    using openai_Recv_shorter by (metis prod.collapse)
  show "openai_Recv unmarshal s = (Inl err, s') \<Longrightarrow> oa_closed s'"
    using openai_Recv_outcome by fastforce
  show "openai_Recv unmarshal s = (Inr d, s') \<Longrightarrow> IsFinal d \<Longrightarrow> oa_closed s'"
    "openai_Recv unmarshal s = (Inr d, s') \<Longrightarrow> openai_item_ok d"
    using openai_Recv_outcome by fastforce+
qed

section \<open>A well-formed session\<close>

text \<open>
  What the providers send: a role-only chunk, the content chunks, the finish reason and the usage. OpenAI
  sends the usage in a chunk of its own after the finish reason, GLM on the chunk with the finish reason,
  and an endpoint that ignores \<^verbatim>\<open>include_usage\<close> not at all.
\<close>

datatype usage_shape = Usage_Trailing openai_wireUsage | Usage_Inline openai_wireUsage | Usage_Absent

definition oa_content_chunk :: "string option \<Rightarrow> openai_wireChunk" where
  "oa_content_chunk c =
     \<lparr>ock_Choices = [\<lparr>oc_Content = c, oc_FinishReason = None\<rparr>], ock_Usage = None, ock_Error = None\<rparr>"

definition oa_finish_chunk :: "string \<Rightarrow> openai_wireUsage option \<Rightarrow> openai_wireChunk" where
  "oa_finish_chunk r u =
     \<lparr>ock_Choices = [\<lparr>oc_Content = None, oc_FinishReason = Some r\<rparr>], ock_Usage = u, ock_Error = None\<rparr>"

definition oa_usage_chunk :: "openai_wireUsage \<Rightarrow> openai_wireChunk" where
  "oa_usage_chunk u = \<lparr>ock_Choices = [], ock_Usage = Some u, ock_Error = None\<rparr>"

fun oa_ending :: "string \<Rightarrow> usage_shape \<Rightarrow> openai_wireChunk list" where
  "oa_ending r (Usage_Trailing u) = [oa_finish_chunk r None, oa_usage_chunk u]"
| "oa_ending r (Usage_Inline u) = [oa_finish_chunk r (Some u)]"
| "oa_ending r Usage_Absent = [oa_finish_chunk r None]"

definition oa_session :: "string list \<Rightarrow> string \<Rightarrow> usage_shape \<Rightarrow> openai_wireChunk list" where
  "oa_session cs r u = oa_content_chunk None # map (\<lambda>c. oa_content_chunk (Some c)) cs @ oa_ending r u"

text \<open>The response body of a session, with a printer \<open>js\<close> for the chunks.\<close>

definition oa_body :: "(openai_wireChunk \<Rightarrow> string) \<Rightarrow> openai_wireChunk list \<Rightarrow> string" where
  "oa_body js chunks =
     concat (map (\<lambda>c. sse_print_frame ([], [js c])) chunks) @ sse_print_frame ([], [''[DONE]''])"

fun oa_final :: "string \<Rightarrow> usage_shape \<Rightarrow> Delta" where
  "oa_final r Usage_Absent = zeroDelta\<lparr>FinishReason := Some r, IsFinal := True\<rparr>"
| "oa_final r (Usage_Inline u) = zeroDelta\<lparr>FinishReason := Some r, IsFinal := True,
     InputTokens := Some (ou_PromptTokens u), OutputTokens := Some (ou_CompletionTokens u)\<rparr>"
| "oa_final r (Usage_Trailing u) = zeroDelta\<lparr>FinishReason := Some r, IsFinal := True,
     InputTokens := Some (ou_PromptTokens u), OutputTokens := Some (ou_CompletionTokens u)\<rparr>"

definition oa_printable :: "(openai_wireChunk \<Rightarrow> string) \<Rightarrow> (string \<Rightarrow> openai_wireChunk result) \<Rightarrow> openai_wireChunk \<Rightarrow> bool" where
  "oa_printable js unmarshal c \<longleftrightarrow> unmarshal (js c) = Inr c \<and> js c \<noteq> ''[DONE]'' \<and> sse_line_ok (js c)"

lemma trim_one_space: "strings_TrimSpace '' '' = []"
  by code_simp

lemma sse_Next_single:
  assumes "sse_line_ok l" "\<not> sc_full sc" "sc_data sc = sse_print_frame ([], [l]) @ rest"
  shows "sse_Next sc = (Inr \<lparr>ev_Name = [], ev_Data = l\<rparr>, sc\<lparr>sc_data := rest\<rparr>)"
proof -
  have "sse_frame_ok ([], [l])"
    using assms(1) by (simp add: sse_frame_ok_def trim_one_space sse_line_ok_def maxTokenSize_def)
  from sse_Next_frame [OF this assms(2,3)] show ?thesis by (simp add: sse_frame_event_def)
qed

lemma sse_line_ok_DONE: "sse_line_ok ''[DONE]''"
  by (simp add: sse_line_ok_def maxTokenSize_def)

lemma oa_next_chunk:
  assumes "oa_printable js u c" "\<not> sc_full (oa_scanner s)" "sc_data (oa_scanner s) = oa_body js (c # cs)"
  shows "sse_Next (oa_scanner s) =
    (Inr \<lparr>ev_Name = [], ev_Data = js c\<rparr>, (oa_scanner s)\<lparr>sc_data := oa_body js cs\<rparr>)"
  using assms by (intro sse_Next_single) (simp_all add: oa_printable_def oa_body_def)

lemma oa_next_done:
  assumes "\<not> sc_full (oa_scanner s)" "sc_data (oa_scanner s) = oa_body js []"
  shows "sse_Next (oa_scanner s) =
    (Inr \<lparr>ev_Name = [], ev_Data = ''[DONE]''\<rparr>, (oa_scanner s)\<lparr>sc_data := []\<rparr>)"
  using assms by (intro sse_Next_single sse_line_ok_DONE) (simp_all add: oa_body_def)

lemmas oa_chunk_defs = oa_content_chunk_def oa_finish_chunk_def oa_usage_chunk_def zeroDelta_def oa_printable_def

lemma oa_Recv_content:
  assumes "oa_printable js u (oa_content_chunk (Some x))" "\<not> sc_full (oa_scanner s)"
    and "sc_data (oa_scanner s) = oa_body js (oa_content_chunk (Some x) # cs)"
  shows "openai_Recv u s =
    (Inr (zeroDelta\<lparr>Content := Some x\<rparr>), s\<lparr>oa_scanner := (oa_scanner s)\<lparr>sc_data := oa_body js cs\<rparr>\<rparr>)"
  using oa_next_chunk [OF assms] assms(1) by (simp add: openai_Recv.simps [of u s] oa_chunk_defs)

lemma oa_Recv_role:
  assumes "oa_printable js u (oa_content_chunk None)" "\<not> sc_full (oa_scanner s)"
    and "sc_data (oa_scanner s) = oa_body js (oa_content_chunk None # cs)"
  shows "openai_Recv u s = openai_Recv u (s\<lparr>oa_scanner := (oa_scanner s)\<lparr>sc_data := oa_body js cs\<rparr>\<rparr>)"
  using oa_next_chunk [OF assms] assms(1) by (simp add: openai_Recv.simps [of u s] oa_chunk_defs)

lemma oa_Recv_defer:
  assumes "oa_printable js u (oa_finish_chunk r None)" "\<not> sc_full (oa_scanner s)"
    and "sc_data (oa_scanner s) = oa_body js (oa_finish_chunk r None # cs)"
  shows "openai_Recv u s = openai_Recv u
    (s\<lparr>oa_scanner := (oa_scanner s)\<lparr>sc_data := oa_body js cs\<rparr>, oa_pendingFinishReason := Some r\<rparr>)"
  using oa_next_chunk [OF assms] assms(1) by (simp add: openai_Recv.simps [of u s] oa_chunk_defs)

lemma oa_Recv_ending:
  assumes "\<forall>c \<in> set (oa_ending r sh). oa_printable js u c" "\<not> sc_full (oa_scanner s)"
    and "sc_data (oa_scanner s) = oa_body js (oa_ending r sh)"
  shows "fst (openai_Recv u s) = Inr (oa_final r sh)"
proof (cases sh)
  case (Usage_Inline us)
  with oa_next_chunk [of js u "oa_finish_chunk r (Some us)" s "[]"] assms show ?thesis
    by (simp add: openai_Recv.simps [of u s] oa_chunk_defs)
next
  case (Usage_Trailing us)
  let ?s = "s\<lparr>oa_scanner := (oa_scanner s)\<lparr>sc_data := oa_body js [oa_usage_chunk us]\<rparr>, oa_pendingFinishReason := Some r\<rparr>"
  have "openai_Recv u s = openai_Recv u ?s"
    using assms Usage_Trailing by (intro oa_Recv_defer) simp_all
  moreover have "fst (openai_Recv u ?s) = Inr (oa_final r sh)"
    using oa_next_chunk [of js u "oa_usage_chunk us" ?s "[]"] assms Usage_Trailing
    by (subst openai_Recv.simps) (simp add: oa_chunk_defs)
  ultimately show ?thesis by simp
next
  case Usage_Absent
  let ?s = "s\<lparr>oa_scanner := (oa_scanner s)\<lparr>sc_data := oa_body js []\<rparr>, oa_pendingFinishReason := Some r\<rparr>"
  have "openai_Recv u s = openai_Recv u ?s"
    using assms Usage_Absent by (intro oa_Recv_defer) simp_all
  moreover have "fst (openai_Recv u ?s) = Inr (oa_final r sh)"
    using oa_next_done [of ?s js] assms Usage_Absent
    by (subst openai_Recv.simps) (simp add: oa_chunk_defs)
  ultimately show ?thesis by simp
qed

lemma oa_final_IsFinal [simp]: "IsFinal (oa_final r sh)"
  by (cases sh) simp_all

lemma oa_drain_contents:
  assumes "\<forall>c \<in> set (map (\<lambda>c. oa_content_chunk (Some c)) cs @ oa_ending r sh). oa_printable js u c"
    and "\<not> sc_full (oa_scanner s)"
    and "sc_data (oa_scanner s) = oa_body js (map (\<lambda>c. oa_content_chunk (Some c)) cs @ oa_ending r sh)"
  shows "\<exists>s'. drain (openai_Recv u) s =
    Some ((map (\<lambda>c. zeroDelta\<lparr>Content := Some c\<rparr>) cs @ [oa_final r sh], None), s')"
  using assms
proof (induction cs arbitrary: s)
  case Nil
  then have "fst (openai_Recv u s) = Inr (oa_final r sh)" by (intro oa_Recv_ending) simp_all
  then show ?case by (cases "openai_Recv u s") (simp add: drain.simps [of _ s])
next
  case (Cons c cs)
  let ?rest = "map (\<lambda>c. oa_content_chunk (Some c)) cs @ oa_ending r sh"
  let ?s = "s\<lparr>oa_scanner := (oa_scanner s)\<lparr>sc_data := oa_body js ?rest\<rparr>\<rparr>"
  have "openai_Recv u s = (Inr (zeroDelta\<lparr>Content := Some c\<rparr>), ?s)"
    using Cons.prems by (intro oa_Recv_content) simp_all
  moreover obtain s' where "drain (openai_Recv u) ?s =
      Some ((map (\<lambda>c. zeroDelta\<lparr>Content := Some c\<rparr>) cs @ [oa_final r sh], None), s')"
    using Cons.IH [of ?s] Cons.prems by auto
  ultimately show ?case by (simp add: drain.simps [of _ s] zeroDelta_def)
qed

section \<open>Properties\<close>

text \<open>
  On a well-formed session the stream forwards every content chunk, in order and unchanged, followed by one
  final item that carries the finish reason and, in whichever of the two places the provider reports it,
  the token usage; without any usage the finish reason is still delivered at \<^verbatim>\<open>[DONE]\<close>.
\<close>

lemma openai_session_items:
  assumes "\<forall>c \<in> set (oa_session cs r u). oa_printable js unmarshal c"
    and "resp = \<lparr>resp_StatusCode = 200, resp_Body = oa_body js (oa_session cs r u), resp_BodyErr = None\<rparr>"
    and "marshal (openai_request req) = Inr body" "\<And>url. http_ParseURL client url = None"
    and "\<And>hr. http_Do client hr w = (Inr resp, w')"
  shows "\<exists>s s'. openai_Invoke marshal client a req w = (Inr s, w') \<and>
    drain (openai_Recv unmarshal) s =
      Some ((map (\<lambda>c. zeroDelta\<lparr>Content := Some c\<rparr>) cs @ [oa_final r u], None), s') \<and> oa_closed s'"
proof -
  define s where "s = \<lparr>oa_scanner = sse_NewScanner (resp_Body resp) None, oa_closed = False, oa_pendingFinishReason = None\<rparr>"
  have inv: "openai_Invoke marshal client a req w = (Inr s, w')"
    using assms(2-5) by (simp add: openai_Invoke_def post_stream_def s_def)
  let ?rest = "map (\<lambda>c. oa_content_chunk (Some c)) cs @ oa_ending r u"
  let ?s = "s\<lparr>oa_scanner := (oa_scanner s)\<lparr>sc_data := oa_body js ?rest\<rparr>\<rparr>"
  have data: "sc_data (oa_scanner s) = oa_body js (oa_content_chunk None # ?rest)" "\<not> sc_full (oa_scanner s)"
    by (simp_all add: s_def sse_NewScanner_def assms(2) oa_session_def)
  have "openai_Recv unmarshal s = openai_Recv unmarshal ?s"
    using assms(1) data by (intro oa_Recv_role) (auto simp: oa_session_def)
  then have "drain (openai_Recv unmarshal) s = drain (openai_Recv unmarshal) ?s"
    by (simp add: drain.simps [of _ s] drain.simps [of _ ?s])
  moreover obtain s' where "drain (openai_Recv unmarshal) ?s =
      Some ((map (\<lambda>c. zeroDelta\<lparr>Content := Some c\<rparr>) cs @ [oa_final r u], None), s')"
    using oa_drain_contents [of cs r u js unmarshal ?s] assms(1) data by (auto simp: oa_session_def)
  ultimately show ?thesis using inv openai.drain_closes by metis
qed

text \<open>
  Whatever bytes the provider sends, reading the stream comes to an end: it delivers content items and then
  either one final item, with both token counts or with neither, or an error, and in both cases the response
  body has been closed.
\<close>

theorem openai_stream_safe:
  "\<exists>ds err s'. drain (openai_Recv unmarshal) s = Some ((ds, err), s') \<and> oa_closed s' \<and>
     list_all openai_item_ok ds \<and>
     list_all (\<lambda>d. \<not> IsFinal d) (if err = None then butlast ds else ds) \<and>
     (case err of None \<Rightarrow> ds \<noteq> [] \<and> IsFinal (last ds) | Some _ \<Rightarrow> True)"
  by (rule openai.drain_safe)

end
