(* ===== verification/Json_Codec.thy ===== *)
theory Json_Codec
  imports Json
begin

text \<open>
  The parts of \<^verbatim>\<open>encoding/json\<close> beyond values and structs that several services use: how it writes numbers, optional fields and
  slices, when it refuses a value, structs of which one field is read, decoding whose error is ignored, the decoding of
  untyped maps, and one call of a \<^verbatim>\<open>json.Decoder\<close>. Which error that reports for a text that is not a value, or not a whole one, is an argument.
\<close>

section \<open>Model\<close>

subsection \<open>Writing\<close>

definition json_Marshal :: "bool \<Rightarrow> json \<Rightarrow> string result" where
  "json_Marshal encodable j = (if encodable then Inr (json_print j) else Inl (Sentinel ''json'' ''unsupported value''))"

definition json_int :: "int \<Rightarrow> json" where
  "json_int k = JsonNum (show_int k)"

text \<open>A pointer, a nil pointer with \<^verbatim>\<open>omitempty\<close>, and a slice that is nil while nothing was appended to it.\<close>

definition optional_string :: "string option \<Rightarrow> json" where
  "optional_string s = (case s of None \<Rightarrow> JsonNull | Some x \<Rightarrow> JsonStr x)"

definition omitempty :: "string \<Rightarrow> ('a \<Rightarrow> json) \<Rightarrow> 'a option \<Rightarrow> (string \<times> json) list" where
  "omitempty name f x = (case x of None \<Rightarrow> [] | Some y \<Rightarrow> [(name, f y)])"

definition nil_slice :: "('a \<Rightarrow> json) \<Rightarrow> 'a list \<Rightarrow> json" where
  "nil_slice f xs = (if xs = [] then JsonNull else JsonArr (map f xs))"

subsection \<open>Reading\<close>

text \<open>A struct whose only field is all the code reads of it.\<close>

definition dec_only :: "string \<Rightarrow> string \<Rightarrow> 'a json_dec \<Rightarrow> 'a json_dec" where
  "dec_only goType name dec = dec_struct goType [in_field name dec (\<lambda>x. x) (\<lambda>x _. x)]"

text \<open>
  A caller that ignores the error of \<^verbatim>\<open>Unmarshal\<close> sees what was decoded: a value of the wrong type is skipped.
\<close>

definition lenient :: "'a json_dec \<Rightarrow> 'a json_dec" where
  "lenient dec v x = (case dec v x of Inl _ \<Rightarrow> Inr x | Inr y \<Rightarrow> Inr y)"

definition Unmarshal_ignored :: "'a json_dec \<Rightarrow> 'a \<Rightarrow> string \<Rightarrow> 'a" where
  "Unmarshal_ignored dec zero data = (case json_Unmarshal dec zero data of Inl _ \<Rightarrow> zero | Inr x \<Rightarrow> x)"

definition dec_bool :: "string \<Rightarrow> bool json_dec" where
  "dec_bool goType v x =
     (case v of JsonNull \<Rightarrow> Inr x | JsonBool b \<Rightarrow> Inr b | _ \<Rightarrow> Inl (type_error goType (json_kind v)))"

text \<open>
  A \<^verbatim>\<open>map[string]any\<close> of which one key is read, if its value is a string. The keys of a map are not folded, and members with the same key
  overwrite each other. A number inside becomes a float64, which \<open>fits\<close> says of a literal; an error anywhere makes the whole call fail.
\<close>

fun any_fits :: "(string \<Rightarrow> bool) \<Rightarrow> json \<Rightarrow> bool" where
  "any_fits fits (JsonNum lit) \<longleftrightarrow> fits lit"
| "any_fits fits (JsonArr vs) \<longleftrightarrow> (\<forall>v \<in> set vs. any_fits fits v)"
| "any_fits fits (JsonObj ms) \<longleftrightarrow> (\<forall>m \<in> set ms. any_fits fits (snd m))"
| "any_fits fits _ \<longleftrightarrow> True"

fun json_as_string :: "json \<Rightarrow> string option" where
  "json_as_string (JsonStr s) = Some s"
| "json_as_string _ = None"

definition dec_map_string :: "(string \<Rightarrow> bool) \<Rightarrow> string \<Rightarrow> string option json_dec" where
  "dec_map_string fits key v x =
     (case v of
        JsonNull \<Rightarrow> Inr None
      | JsonObj ms \<Rightarrow>
          if any_fits fits v then Inr (fold (\<lambda>m acc. if fst m = key then json_as_string (snd m) else acc) ms x)
          else Inl (type_error ''float64'' ''number'')
      | _ \<Rightarrow> Inl (type_error ''map[string]interface {}'' (json_kind v)))"

subsection \<open>Decoders\<close>

text \<open>
  One call of \<^verbatim>\<open>Decode\<close> on what is left of a body that ends with a clean end of file or an error: the value and what is left then.
  The end of a string, number or literal is only seen at the byte after it, or at the end of the file.
\<close>

fun json_container :: "json \<Rightarrow> bool" where
  "json_container (JsonArr vs) = True"
| "json_container (JsonObj ms) = True"
| "json_container _ = False"

type_synonym decode_errors = "string \<Rightarrow> go_error option \<Rightarrow> go_error"

definition json_Decode :: "decode_errors \<Rightarrow> 'a json_dec \<Rightarrow> 'a \<Rightarrow> string \<Rightarrow> go_error option \<Rightarrow> ('a \<times> string) result" where
  "json_Decode bad dec zero s e =
     (if skip_ws s = [] then Inl (case e of None \<Rightarrow> EOF | Some err \<Rightarrow> err)
      else
        (case parse_value (2 * length s + 2) maxNestingDepth s of
           None \<Rightarrow> Inl (bad (skip_ws s) e)
         | Some (v, r) \<Rightarrow>
             if r = [] \<and> e \<noteq> None \<and> \<not> json_container v then Inl (bad (skip_ws s) e)
             else (case dec v zero of Inl err \<Rightarrow> Inl err | Inr x \<Rightarrow> Inr (x, r))))"

section \<open>Facts\<close>

lemma in_int32_int64: "in_int32 k \<Longrightarrow> in_int64 k"
  by (simp add: in_int32_def in_int64_def)

lemma json_int_facts [simp]:
  "wf_json (json_int k)" "json_depth (json_int k) = 0"
  "in_int32 k \<Longrightarrow> dec_int t in_int32 (json_int k) x = Inr k"
  by (simp_all add: json_int_def scan_number_show_int in_int32_int64)

lemma optional_string_facts:
  "pred_option utf8_valid s \<Longrightarrow> wf_json (optional_string s)" "json_depth (optional_string s) = 0"
  "dec_ptr (dec_string t) [] (optional_string s) None = Inr s"
  by (cases s; simp add: optional_string_def)+

lemma dec_only_members [simp]: "dec_only t name dec (JsonObj ms) x = dec_members [in_field name dec (\<lambda>x. x) (\<lambda>x _. x)] ms x"
  by (simp add: dec_only_def)

lemma dec_elems_map:
  "(\<And>x. x \<in> set xs \<Longrightarrow> dec (f x) zero = Inr x) \<Longrightarrow> dec_elems dec zero (map f xs) [] = Inr xs"
  by (induction xs) simp_all

lemma dec_bool_values [simp]: "dec_bool t (JsonBool b) x = Inr b"
  by (simp add: dec_bool_def)

lemma json_int64_dec [simp]: "in_int64 k \<Longrightarrow> dec_int t in_int64 (json_int k) x = Inr k"
  by (simp add: json_int_def)

lemma json_Decode_shorter: "json_Decode bad dec zero s e = Inr (x, r) \<Longrightarrow> length r < length s"
  using parse_lengths [THEN conjunct1, rule_format]
  by (auto simp: json_Decode_def simp del: parse_value.simps split: if_splits option.splits sum.splits)

lemma skip_ws_print: "wf_json j \<Longrightarrow> skip_ws (json_print j @ r) \<noteq> []"
  by (metis append_Cons json_print_hd list.distinct(1) skip_ws_id)

text \<open>A printed object is read whatever follows it.\<close>

lemma json_Decode_print:
  assumes "wf_json j" "json_depth j \<le> maxNestingDepth" "j = JsonObj ms" "ends r"
  shows "json_Decode bad dec zero (json_print j @ r) e = (case dec j zero of Inl err \<Rightarrow> Inl err | Inr x \<Rightarrow> Inr (x, r))"
proof -
  have "parse_value (2 * length (json_print j @ r) + 2) maxNestingDepth (json_print j @ r) = Some (j, r)"
    by (rule readsD [OF json_reads [OF assms(1,2)] assms(4)]) simp
  then show ?thesis
    using skip_ws_print [OF assms(1), of r] assms(3) unfolding json_Decode_def by (simp del: parse_value.simps json_print.simps)
qed

end
