(* ===== verification/Wire.thy ===== *)
theory Wire
  imports Sse Json_Codec
begin

text \<open>
  What the wire formats of the adapters have in common: when a temperature can be sent, and why a printed JSON value is one line of a
  server-sent event.
\<close>

text \<open>A float32 is its bits; an exponent of all ones is an infinity or a NaN, which JSON does not have.\<close>

definition float32_finite :: "float32 \<Rightarrow> bool" where
  "float32_finite t \<longleftrightarrow> uint t div 2 ^ 23 mod 2 ^ 8 \<noteq> 255"

lemma json_print_ne: "wf_json j \<Longrightarrow> json_print j \<noteq> []"
  by (metis json_print_hd list.distinct(1))

lemma json_line_ok:
  assumes "wf_json j" "length (json_print j) + 7 < maxTokenSize"
  shows "sse_line_ok (json_print j)"
proof -
  note p = json_print_printable [OF assms(1)]
  have "newline \<notin> set (json_print j)" "last (json_print j) \<noteq> CHR 0x0D"
    using p [of newline] p [OF last_in_set [OF json_print_ne [OF assms(1)]]] by auto
  with assms(2) show ?thesis by (simp add: sse_line_ok_def)
qed

end
