(* ===== verification/Openai_Wire.thy ===== *)
theory Openai_Wire
  imports Openai Wire
begin

text \<open>
  The JSON of the OpenAI adapter (\<^verbatim>\<open>services/provider-gateway/internal/adapters/openai/openai.go\<close>): the struct
  tags of its wire types, as the printer of the request and the decoder of a chunk. How \<^verbatim>\<open>encoding/json\<close> writes a
  finite float32 is an argument; it refuses one that is not finite. The last theorem follows a session
  from the bytes the provider sends to the items the gateway forwards.
\<close>

section \<open>Model\<close>

subsection \<open>The request\<close>

definition openai_message_json :: "openai_wireReqMessage \<Rightarrow> json" where
  "openai_message_json m = JsonObj [(''role'', JsonStr (oq_Role m)), (''content'', JsonStr (oq_Content m))]"

definition openai_request_json :: "(float32 \<Rightarrow> string) \<Rightarrow> openai_wireRequest \<Rightarrow> json" where
  "openai_request_json fmtFloat q =
     JsonObj ([(''model'', JsonStr (oq_Model q)),
               (''messages'', JsonArr (map openai_message_json (oq_Messages q))),
               (''stream'', JsonBool (oq_Stream q)),
               (''stream_options'', JsonObj [(''include_usage'', JsonBool (oq_IncludeUsage q))])] @
              omitempty ''max_tokens'' json_int (oq_MaxTokens q) @
              omitempty ''temperature'' (JsonNum \<circ> fmtFloat) (oq_Temperature q))"

definition openai_marshal :: "(float32 \<Rightarrow> string) \<Rightarrow> openai_wireRequest \<Rightarrow> string result" where
  "openai_marshal fmtFloat q =
     json_Marshal (pred_option float32_finite (oq_Temperature q)) (openai_request_json fmtFloat q)"

subsection \<open>The chunks\<close>

definition openai_choice_fields :: "openai_wireChoice json_field list" where
  "openai_choice_fields =
     [in_field ''delta''
        (dec_struct ''openai.wireDelta''
           [in_field ''content'' (dec_ptr (dec_string ''string'') []) (\<lambda>c. c) (\<lambda>c _. c)])
        oc_Content (\<lambda>c r. r\<lparr>oc_Content := c\<rparr>),
      in_field ''finish_reason'' (dec_ptr (dec_string ''string'') []) oc_FinishReason (\<lambda>f r. r\<lparr>oc_FinishReason := f\<rparr>)]"

definition openai_usage_fields :: "openai_wireUsage json_field list" where
  "openai_usage_fields =
     [in_field ''prompt_tokens'' (dec_int ''int32'' in_int32) ou_PromptTokens (\<lambda>k r. r\<lparr>ou_PromptTokens := k\<rparr>),
      in_field ''completion_tokens'' (dec_int ''int32'' in_int32) ou_CompletionTokens (\<lambda>k r. r\<lparr>ou_CompletionTokens := k\<rparr>)]"

definition openai_error_fields :: "openai_wireError json_field list" where
  "openai_error_fields =
     [in_field ''message'' (dec_string ''string'') oe_Message (\<lambda>s r. r\<lparr>oe_Message := s\<rparr>),
      in_field ''type'' (dec_string ''string'') oe_Type (\<lambda>s r. r\<lparr>oe_Type := s\<rparr>)]"

definition openai_chunk_fields :: "openai_wireChunk json_field list" where
  "openai_chunk_fields =
     [in_field ''choices''
        (dec_slice ''[]openai.wireChoice'' (dec_struct ''openai.wireChoice'' openai_choice_fields)
           \<lparr>oc_Content = None, oc_FinishReason = None\<rparr>)
        ock_Choices (\<lambda>cs r. r\<lparr>ock_Choices := cs\<rparr>),
      in_field ''usage''
        (dec_ptr (dec_struct ''openai.wireUsage'' openai_usage_fields) \<lparr>ou_PromptTokens = 0, ou_CompletionTokens = 0\<rparr>)
        ock_Usage (\<lambda>u r. r\<lparr>ock_Usage := u\<rparr>),
      in_field ''error''
        (dec_ptr (dec_struct ''openai.wireError'' openai_error_fields) \<lparr>oe_Message = [], oe_Type = []\<rparr>)
        ock_Error (\<lambda>e r. r\<lparr>ock_Error := e\<rparr>)]"

definition openai_unmarshal :: "string \<Rightarrow> openai_wireChunk result" where
  "openai_unmarshal =
     json_Unmarshal (dec_struct ''openai.wireChunk'' openai_chunk_fields)
       \<lparr>ock_Choices = [], ock_Usage = None, ock_Error = None\<rparr>"

section \<open>What a provider sends\<close>

text \<open>
  A chunk as the provider writes it: members \<open>meta\<close> of its own (an id, the model and whatever else the adapter
  has no field for), the choices with an index and a role the adapter ignores, and the usage, null when there is none.
\<close>

definition oa_choice_json :: "openai_wireChoice \<Rightarrow> json" where
  "oa_choice_json c =
     JsonObj [(''index'', json_int 0),
              (''delta'', JsonObj [(''role'', JsonStr ''assistant''), (''content'', optional_string (oc_Content c))]),
              (''finish_reason'', optional_string (oc_FinishReason c))]"

definition oa_usage_json :: "openai_wireUsage option \<Rightarrow> json" where
  "oa_usage_json u =
     (case u of None \<Rightarrow> JsonNull
      | Some x \<Rightarrow> JsonObj [(''prompt_tokens'', json_int (ou_PromptTokens x)),
                          (''completion_tokens'', json_int (ou_CompletionTokens x))])"

definition oa_chunk_json :: "(string \<times> json) list \<Rightarrow> openai_wireChunk \<Rightarrow> json" where
  "oa_chunk_json meta c =
     JsonObj (meta @ [(''choices'', JsonArr (map oa_choice_json (ock_Choices c))), (''usage'', oa_usage_json (ock_Usage c))])"

definition oa_chunk_text :: "(string \<times> json) list \<Rightarrow> openai_wireChunk \<Rightarrow> string" where
  "oa_chunk_text meta c = json_print (oa_chunk_json meta c)"

definition oa_meta_ok :: "(string \<times> json) list \<Rightarrow> bool" where
  "oa_meta_ok meta \<longleftrightarrow>
     list_all (\<lambda>(k, v). utf8_valid k \<and> wf_json v \<and> json_depth v < maxNestingDepth \<and>
       foldName k \<notin> {''CHOICES'', ''USAGE'', ''ERROR''}) meta"

definition oa_usage_ok :: "openai_wireUsage \<Rightarrow> bool" where
  "oa_usage_ok u \<longleftrightarrow> in_int32 (ou_PromptTokens u) \<and> in_int32 (ou_CompletionTokens u)"

definition oa_choice_ok :: "openai_wireChoice \<Rightarrow> bool" where
  "oa_choice_ok c \<longleftrightarrow> pred_option utf8_valid (oc_Content c) \<and> pred_option utf8_valid (oc_FinishReason c)"

definition oa_chunk_ok :: "openai_wireChunk \<Rightarrow> bool" where
  "oa_chunk_ok c \<longleftrightarrow> list_all oa_choice_ok (ock_Choices c) \<and> pred_option oa_usage_ok (ock_Usage c) \<and> ock_Error c = None"

section \<open>Facts\<close>

lemma oa_names:
  "foldName ''choices'' = ''CHOICES''" "foldName ''usage'' = ''USAGE''" "foldName ''error'' = ''ERROR''"
  "foldName ''delta'' = ''DELTA''" "foldName ''content'' = ''CONTENT''" "foldName ''finish_reason'' = ''FINISH_REASON''"
  "foldName ''prompt_tokens'' = ''PROMPT_TOKENS''" "foldName ''completion_tokens'' = ''COMPLETION_TOKENS''"
  "foldName ''index'' = ''INDEX''" "foldName ''role'' = ''ROLE''"
  by (simp_all add: fold_eval)

lemma oa_names_valid:
  "utf8_valid ''choices''" "utf8_valid ''usage''" "utf8_valid ''delta''" "utf8_valid ''content''"
  "utf8_valid ''finish_reason''" "utf8_valid ''prompt_tokens''" "utf8_valid ''completion_tokens''" "utf8_valid ''index''"
  "utf8_valid ''role''" "utf8_valid ''assistant''"
  by (simp_all add: utf8_valid_ascii)

lemma oa_choice_json_facts:
  assumes "oa_choice_ok c"
  shows "wf_json (oa_choice_json c)" "json_depth (oa_choice_json c) = 2"
    "dec_struct t openai_choice_fields (oa_choice_json c) \<lparr>oc_Content = None, oc_FinishReason = None\<rparr> = Inr c"
  using assms
  by (simp_all add: oa_choice_ok_def oa_choice_json_def optional_string_facts oa_names oa_names_valid
      openai_choice_fields_def)

lemma oa_usage_json_facts:
  assumes "pred_option oa_usage_ok u"
  shows "wf_json (oa_usage_json u)" "json_depth (oa_usage_json u) \<le> 1"
    "dec_ptr (dec_struct t openai_usage_fields) \<lparr>ou_PromptTokens = 0, ou_CompletionTokens = 0\<rparr> (oa_usage_json u) None = Inr u"
  using assms
  by (cases u; simp add: oa_usage_ok_def oa_usage_json_def oa_names oa_names_valid in_int32_int64
      openai_usage_fields_def)+

lemma dec_choices:
  "list_all oa_choice_ok cs \<Longrightarrow>
    dec_elems (dec_struct t openai_choice_fields) \<lparr>oc_Content = None, oc_FinishReason = None\<rparr> (map oa_choice_json cs) [] = Inr cs"
  by (rule dec_elems_map) (simp add: list_all_iff oa_choice_json_facts)

lemma oa_chunk_json_wf:
  assumes "oa_meta_ok meta" "oa_chunk_ok c"
  shows "wf_json (oa_chunk_json meta c)" "json_depth (oa_chunk_json meta c) \<le> maxNestingDepth"
proof -
  show "wf_json (oa_chunk_json meta c)"
    using assms by (auto simp: oa_chunk_json_def oa_meta_ok_def oa_chunk_ok_def list_all_iff oa_names_valid oa_choice_json_facts oa_usage_json_facts)
  have "\<forall>d \<in> set (map (json_depth \<circ> snd) meta). d \<le> maxNestingDepth - 1"
    using assms(1) by (auto simp: oa_meta_ok_def list_all_iff)
  moreover have "json_depth (JsonArr (map oa_choice_json (ock_Choices c))) \<le> maxNestingDepth - 1"
    using assms(2) by (auto simp: maxNestingDepth_def foldr_max_le oa_chunk_ok_def list_all_iff oa_choice_json_facts)
  moreover have "json_depth (oa_usage_json (ock_Usage c)) \<le> maxNestingDepth - 1"
    using assms(2) oa_usage_json_facts(2) [of "ock_Usage c"] by (simp add: oa_chunk_ok_def maxNestingDepth_def)
  ultimately have "foldr max (map (json_depth \<circ> snd)
      (meta @ [(''choices'', JsonArr (map oa_choice_json (ock_Choices c))), (''usage'', oa_usage_json (ock_Usage c))])) 0 \<le> maxNestingDepth - 1"
    unfolding foldr_max_le by auto
  then show "json_depth (oa_chunk_json meta c) \<le> maxNestingDepth"
    by (simp add: oa_chunk_json_def maxNestingDepth_def)
qed

lemma unmarshal_chunk_text:
  assumes "oa_meta_ok meta" "oa_chunk_ok c"
  shows "openai_unmarshal (oa_chunk_text meta c) = Inr c"
proof -
  let ?zero = "\<lparr>ock_Choices = [], ock_Usage = None, ock_Error = None\<rparr>"
  let ?ms = "[(''choices'', JsonArr (map oa_choice_json (ock_Choices c))), (''usage'', oa_usage_json (ock_Usage c))]"
  have "\<forall>m \<in> set meta. \<forall>f \<in> set openai_chunk_fields. foldName (fst f) \<noteq> foldName (fst m)"
    using assms(1) by (auto simp: oa_meta_ok_def list_all_iff openai_chunk_fields_def oa_names)
  then have "dec_members openai_chunk_fields (meta @ ?ms) ?zero = dec_members openai_chunk_fields ?ms ?zero"
    by (rule dec_members_skip)
  also have "\<dots> = Inr c"
    using assms(2) by (simp add: openai_chunk_fields_def oa_names oa_chunk_ok_def dec_choices oa_usage_json_facts)
  finally show ?thesis
    unfolding openai_unmarshal_def oa_chunk_text_def
    by (subst json_Unmarshal_print [OF oa_chunk_json_wf [OF assms]]) (simp add: oa_chunk_json_def)
qed

lemma oa_chunk_printable:
  assumes "oa_meta_ok meta" "oa_chunk_ok c" "length (oa_chunk_text meta c) + 7 < maxTokenSize"
  shows "oa_printable (oa_chunk_text meta) openai_unmarshal c"
proof -
  have "hd (oa_chunk_text meta c) = CHR ''{''" by (simp add: oa_chunk_text_def oa_chunk_json_def)
  then have "oa_chunk_text meta c \<noteq> ''[DONE]''" by auto
  with assms show ?thesis
    by (simp add: oa_printable_def oa_chunk_text_def json_line_ok oa_chunk_json_wf unmarshal_chunk_text [unfolded oa_chunk_text_def])
qed

lemma oa_session_ok:
  assumes "list_all utf8_valid cs" "utf8_valid r"
    and "case u of Usage_Trailing x \<Rightarrow> oa_usage_ok x | Usage_Inline x \<Rightarrow> oa_usage_ok x | Usage_Absent \<Rightarrow> True"
    and "c \<in> set (oa_session cs r u)"
  shows "oa_chunk_ok c"
  using assms
  by (cases u) (auto simp: oa_session_def oa_content_chunk_def oa_finish_chunk_def oa_usage_chunk_def oa_chunk_ok_def oa_choice_ok_def
      list_all_iff)

section \<open>Properties\<close>

text \<open>
  C19. A session over the wire. The provider answers with server-sent events whose data are JSON texts of its chunks, with whatever
  other members it adds. Then the request is sent, the stream forwards every content text unchanged and in order, and ends with one
  item that has the finish reason and the token counts the provider reported, wherever it reported them; the body is closed. The
  texts have to be valid UTF-8, the counts to fit an int32, each line to fit the scanner's buffer, and a temperature to be finite.
\<close>

theorem openai_wire_session:
  assumes "oa_meta_ok meta" "list_all utf8_valid cs" "utf8_valid r"
    and "case u of Usage_Trailing x \<Rightarrow> oa_usage_ok x | Usage_Inline x \<Rightarrow> oa_usage_ok x | Usage_Absent \<Rightarrow> True"
    and "\<forall>c \<in> set (oa_session cs r u). length (oa_chunk_text meta c) + 7 < maxTokenSize"
    and "resp = \<lparr>resp_StatusCode = 200, resp_Body = oa_body (oa_chunk_text meta) (oa_session cs r u), resp_BodyErr = None\<rparr>"
    and "pred_option float32_finite (Temperature req)" "\<And>url. http_ParseURL client url = None"
    and "\<And>hr. http_Do client hr w = (Inr resp, w')"
  shows "\<exists>s s'. openai_Invoke (openai_marshal fmtFloat) client a req w = (Inr s, w') \<and>
    drain (openai_Recv openai_unmarshal) s =
      Some ((map (\<lambda>c. zeroDelta\<lparr>Content := Some c\<rparr>) cs @ [oa_final r u], None), s') \<and> oa_closed s'"
proof -
  have p: "\<forall>c \<in> set (oa_session cs r u). oa_printable (oa_chunk_text meta) openai_unmarshal c"
    using assms(1-5) by (auto intro!: oa_chunk_printable oa_session_ok)
  have "openai_marshal fmtFloat (openai_request req) = Inr (json_print (openai_request_json fmtFloat (openai_request req)))"
    using assms(7) by (simp add: openai_marshal_def json_Marshal_def openai_request_def)
  from openai_session_items [where marshal = "openai_marshal fmtFloat", OF p assms(6) this assms(8,9)] show ?thesis .
qed

text \<open>A session of a GLM endpoint, which reports the usage with the finish reason, and an endpoint that answers with it.\<close>

definition glm_meta :: "(string \<times> json) list" where
  "glm_meta = [(''id'', JsonStr ''c1''), (''created'', JsonNum ''1719''), (''model'', JsonStr ''glm-4'')]"

definition glm_usage :: usage_shape where
  "glm_usage = Usage_Inline \<lparr>ou_PromptTokens = 13, ou_CompletionTokens = 9\<rparr>"

definition glm_client :: "unit http_client" where
  "glm_client =
     \<lparr>http_ParseURL = \<lambda>_. None,
      http_Do = \<lambda>_ w. (Inr \<lparr>resp_StatusCode = 200,
        resp_Body = oa_body (oa_chunk_text glm_meta) (oa_session [''Hi'', '' there''] ''stop'' glm_usage), resp_BodyErr = None\<rparr>, w)\<rparr>"

lemma glm_meta_ok: "oa_meta_ok glm_meta"
proof -
  have "utf8_valid ''id''" "utf8_valid ''created''" "utf8_valid ''model''" "utf8_valid ''c1''" "utf8_valid ''glm-4''"
    "foldName ''id'' = ''ID''" "foldName ''created'' = ''CREATED''" "foldName ''model'' = ''MODEL''"
    "scan_number ''1719'' = Some (''1719'', [])"
    by code_simp+
  then show ?thesis by (simp add: oa_meta_ok_def glm_meta_def maxNestingDepth_def)
qed

theorem openai_wire_session_witness:
  "\<exists>s s'. openai_Invoke (openai_marshal (\<lambda>_. ''0.5'')) glm_client (openai_NewNamed ''glm'' ''key'' ''https://api.z.ai'')
      \<lparr>RequestID = ''r'', Model = ''glm-4'', Messages = [], MaxTokens = Some 64, Temperature = Some 0x3F000000\<rparr> () = (Inr s, ()) \<and>
    drain (openai_Recv openai_unmarshal) s =
      Some (([zeroDelta\<lparr>Content := Some ''Hi''\<rparr>, zeroDelta\<lparr>Content := Some '' there''\<rparr>,
              zeroDelta\<lparr>FinishReason := Some ''stop'', IsFinal := True, InputTokens := Some 13, OutputTokens := Some 9\<rparr>], None), s') \<and>
    oa_closed s'"
proof -
  have v: "list_all utf8_valid [''Hi'', '' there'']" "utf8_valid ''stop''" by code_simp+
  have u: "case glm_usage of Usage_Trailing x \<Rightarrow> oa_usage_ok x | Usage_Inline x \<Rightarrow> oa_usage_ok x | Usage_Absent \<Rightarrow> True"
    by (simp add: glm_usage_def oa_usage_ok_def in_int32_def)
  have "\<forall>c \<in> set (oa_session [''Hi'', '' there''] ''stop'' glm_usage). length (oa_chunk_text glm_meta c) < 1000" by code_simp
  then have l: "\<forall>c \<in> set (oa_session [''Hi'', '' there''] ''stop'' glm_usage). length (oa_chunk_text glm_meta c) + 7 < maxTokenSize"
    by (fastforce simp: maxTokenSize_def)
  show ?thesis
    using openai_wire_session [OF glm_meta_ok v u l refl, where client = glm_client and w = "()" and w' = "()"
        and req = "\<lparr>RequestID = ''r'', Model = ''glm-4'', Messages = [], MaxTokens = Some 64, Temperature = Some 0x3F000000\<rparr>"
        and fmtFloat = "\<lambda>_. ''0.5''" and a = "openai_NewNamed ''glm'' ''key'' ''https://api.z.ai''"]
    by (simp add: glm_client_def glm_usage_def float32_finite_def)
qed

end
