(* ===== verification/Anthropic.thy ===== *)
theory Anthropic
  imports Sse
begin

text \<open>
  The adapter for Anthropic's Messages API
  (\<^verbatim>\<open>services/provider-gateway/internal/adapters/anthropic/anthropic.go\<close>): system messages are lifted
  out of the conversation, the stream is named SSE events, and the token usage comes in two halves, the
  input count with \<^verbatim>\<open>message_start\<close> and the output count with \<^verbatim>\<open>message_delta\<close>. The operations are
  defined over the JSON codecs (record \<open>anthropic_json\<close>), which \<open>Anthropic_Wire\<close> defines; the decoder of the error event has no error, since the code
  ignores it and uses whatever was decoded.
\<close>

section \<open>Model\<close>

abbreviation anthropic_ProviderName :: string where "anthropic_ProviderName \<equiv> ''anthropic''"
abbreviation anthropic_defaultBaseURL :: string where "anthropic_defaultBaseURL \<equiv> ''https://api.anthropic.com''"
abbreviation anthropic_apiVersion :: string where "anthropic_apiVersion \<equiv> ''2023-06-01''"
abbreviation anthropic_defaultMaxTokens :: int32 where "anthropic_defaultMaxTokens \<equiv> 256"

record anthropic_Adapter =
  an_apiKey :: string
  an_baseURL :: string

definition anthropic_New :: "string \<Rightarrow> string \<Rightarrow> anthropic_Adapter" where
  "anthropic_New apiKey baseURL =
     \<lparr>an_apiKey = apiKey, an_baseURL = (if baseURL = [] then anthropic_defaultBaseURL else baseURL)\<rparr>"

definition anthropic_SetAPIKey :: "string \<Rightarrow> anthropic_Adapter \<Rightarrow> anthropic_Adapter" where
  "anthropic_SetAPIKey key a = a\<lparr>an_apiKey := key\<rparr>"

subsection \<open>Wire format\<close>

record anthropic_wireReqMessage =
  aq_Role :: string
  aq_Content :: string

record anthropic_wireRequest =
  aq_Model :: string
  aq_System :: string
  aq_Messages :: "anthropic_wireReqMessage list"
  aq_Stream :: bool
  aq_MaxTokens :: int32
  aq_Temperature :: "float32 option"

record anthropic_wireContentBlockDelta =
  ab_Type :: string
  ab_Text :: string

record anthropic_wireMessageDelta =
  am_StopReason :: "string option"
  am_OutputTokens :: int32

record anthropic_json =
  aj_Request :: "anthropic_wireRequest \<Rightarrow> string result"
  aj_MessageStart :: "string \<Rightarrow> int32 result"
  aj_ContentBlockDelta :: "string \<Rightarrow> anthropic_wireContentBlockDelta result"
  aj_MessageDelta :: "string \<Rightarrow> anthropic_wireMessageDelta result"
  aj_ErrorMessage :: "string \<Rightarrow> string"

subsection \<open>Invoke\<close>

fun anthropic_split_loop ::
  "Message list \<Rightarrow> string list \<Rightarrow> anthropic_wireReqMessage list \<Rightarrow> string list \<times> anthropic_wireReqMessage list" where
  "anthropic_split_loop [] systemParts rest = (systemParts, rest)"
| "anthropic_split_loop (m # ms) systemParts rest =
     (if Role m = ''system'' then anthropic_split_loop ms (systemParts @ [MsgContent m]) rest
      else anthropic_split_loop ms systemParts (rest @ [\<lparr>aq_Role = Role m, aq_Content = MsgContent m\<rparr>]))"

definition anthropic_splitSystem :: "Message list \<Rightarrow> string \<times> anthropic_wireReqMessage list" where
  "anthropic_splitSystem messages =
     (case anthropic_split_loop messages [] [] of
        ([], rest) \<Rightarrow> ([], rest)
      | (p # ps, rest) \<Rightarrow> (foldl (\<lambda>system q. system @ newline # q) p ps, rest))"

record anthropic_stream =
  an_scanner :: bufio_Scanner
  an_closed :: bool
  an_inputTokens :: "int32 option"

definition anthropic_request :: "InvokeRequest \<Rightarrow> anthropic_wireRequest" where
  "anthropic_request req =
     (case anthropic_splitSystem (Messages req) of
        (system, messages) \<Rightarrow>
          \<lparr>aq_Model = Model req, aq_System = system, aq_Messages = messages, aq_Stream = True,
           aq_MaxTokens = (case MaxTokens req of None \<Rightarrow> anthropic_defaultMaxTokens | Some n \<Rightarrow> n),
           aq_Temperature = Temperature req\<rparr>)"

definition anthropic_Invoke ::
  "anthropic_json \<Rightarrow> 'w http_client \<Rightarrow> anthropic_Adapter \<Rightarrow> InvokeRequest \<Rightarrow> 'w \<Rightarrow> anthropic_stream result \<times> 'w" where
  "anthropic_Invoke json client a req w =
     (case aj_Request json (anthropic_request req) of
        Inl err \<Rightarrow> (Inl (Wrap ''anthropic adapter: marshal request: '' err []), w)
      | Inr body \<Rightarrow>
          (case post_stream ''anthropic'' client
                  \<lparr>req_Method = ''POST'', req_URL = an_baseURL a @ ''/v1/messages'',
                   req_Header = [(''Content-Type'', ''application/json''), (''x-api-key'', an_apiKey a),
                                 (''anthropic-version'', anthropic_apiVersion)],
                   req_Body = body\<rparr> w of
             (Inl err, w1) \<Rightarrow> (Inl err, w1)
           | (Inr resp, w1) \<Rightarrow>
               (Inr \<lparr>an_scanner = sse_NewScanner (resp_Body resp) (resp_BodyErr resp), an_closed = False,
                     an_inputTokens = None\<rparr>, w1)))"

subsection \<open>Recv\<close>

function anthropic_Recv :: "anthropic_json \<Rightarrow> anthropic_stream Recv" where
  "anthropic_Recv json s =
     (case sse_Next (an_scanner s) of
        (Inl err, sc) \<Rightarrow>
          (if err = EOF then (Inl EOF, s\<lparr>an_scanner := sc, an_closed := True\<rparr>)
           else (Inl (Wrap ''anthropic adapter: read stream: '' err []), s\<lparr>an_scanner := sc, an_closed := True\<rparr>))
      | (Inr ev, sc) \<Rightarrow>
          (let s = s\<lparr>an_scanner := sc\<rparr> in
           if ev_Name ev = ''message_start'' then
             (case aj_MessageStart json (ev_Data ev) of
                Inl err \<Rightarrow> (Inl (Wrap ''anthropic adapter: decode message_start: '' err []), s\<lparr>an_closed := True\<rparr>)
              | Inr inputTokens \<Rightarrow> anthropic_Recv json (s\<lparr>an_inputTokens := Some inputTokens\<rparr>))
           else if ev_Name ev = ''content_block_delta'' then
             (case aj_ContentBlockDelta json (ev_Data ev) of
                Inl err \<Rightarrow> (Inl (Wrap ''anthropic adapter: decode content_block_delta: '' err []), s\<lparr>an_closed := True\<rparr>)
              | Inr d \<Rightarrow>
                  if ab_Type d \<noteq> ''text_delta'' \<or> ab_Text d = [] then anthropic_Recv json s
                  else (Inr (zeroDelta\<lparr>Content := Some (ab_Text d)\<rparr>), s))
           else if ev_Name ev = ''message_delta'' then
             (case aj_MessageDelta json (ev_Data ev) of
                Inl err \<Rightarrow> (Inl (Wrap ''anthropic adapter: decode message_delta: '' err []), s\<lparr>an_closed := True\<rparr>)
              | Inr d \<Rightarrow>
                  (Inr (zeroDelta\<lparr>FinishReason := am_StopReason d, IsFinal := True,
                          InputTokens := an_inputTokens s, OutputTokens := Some (am_OutputTokens d)\<rparr>),
                   s\<lparr>an_closed := True\<rparr>))
           else if ev_Name ev = ''error'' then
             (Inl (ErrorString (''anthropic adapter: stream error: '' @ aj_ErrorMessage json (ev_Data ev))),
              s\<lparr>an_closed := True\<rparr>)
           else anthropic_Recv json s))"
  by pat_completeness auto
termination
  by (relation "measure (\<lambda>(j, s). length (sc_data (an_scanner s)))")
    (auto dest!: sse_Next_shorter [OF sym])

declare anthropic_Recv.simps [simp del]

definition anthropic_Adapter_iface ::
  "anthropic_json \<Rightarrow> 'w http_client \<Rightarrow> anthropic_Adapter \<Rightarrow> (anthropic_stream, 'w) Adapter" where
  "anthropic_Adapter_iface json client a =
     \<lparr>Adapter_Name = anthropic_ProviderName, Adapter_Invoke = anthropic_Invoke json client a\<rparr>"

section \<open>The contract of the stream\<close>

definition anthropic_item_ok :: "Delta \<Rightarrow> bool" where
  "anthropic_item_ok d \<longleftrightarrow>
     (if IsFinal d then Content d = None \<and> OutputTokens d \<noteq> None
      else Content d \<notin> {None, Some []} \<and> FinishReason d = None \<and> InputTokens d = None \<and> OutputTokens d = None)"

lemma anthropic_Recv_shorter:
  "anthropic_Recv j s = (Inr d, s') \<Longrightarrow> length (sc_data (an_scanner s')) < length (sc_data (an_scanner s))"
proof (induction j s rule: anthropic_Recv.induct)
  case (1 j s)
  obtain r sc where n: "sse_Next (an_scanner s) = (r, sc)" by fastforce
  show ?case
  proof (cases r)
    case (Inl e)
    with n "1.prems" show ?thesis by (simp add: anthropic_Recv.simps [of j s] split: if_splits)
  next
    case (Inr ev)
    with n have "length (sc_data sc) < length (sc_data (an_scanner s))" using sse_Next_shorter by blast
    then show ?thesis
      using "1.IH" [OF n [symmetric] Inr refl] "1.prems" n Inr
      by (fastforce simp: anthropic_Recv.simps [of j s] Let_def split: if_splits sum.splits)
  qed
qed

lemma anthropic_Recv_outcome:
  "anthropic_Recv j s = (r, s') \<Longrightarrow>
     (case r of Inl e \<Rightarrow> an_closed s' | Inr d \<Rightarrow> anthropic_item_ok d \<and> (IsFinal d \<longrightarrow> an_closed s'))"
proof (induction j s rule: anthropic_Recv.induct)
  case (1 j s)
  obtain q sc where n: "sse_Next (an_scanner s) = (q, sc)" by fastforce
  show ?case
  proof (cases q)
    case (Inl e)
    with n "1.prems" show ?thesis by (auto simp: anthropic_Recv.simps [of j s] split: if_splits)
  next
    case (Inr ev)
    with "1.IH" [OF n [symmetric] Inr refl] "1.prems" n show ?thesis
      by (fastforce simp: anthropic_Recv.simps [of j s] Let_def anthropic_item_ok_def zeroDelta_def
          split: if_splits sum.splits)
  qed
qed

interpretation anthropic: closing_stream "anthropic_Recv json" "\<lambda>s. length (sc_data (an_scanner s))"
    an_closed anthropic_item_ok for json
proof
  fix s d s' err
  show "fst (anthropic_Recv json s) = Inr d \<Longrightarrow>
      length (sc_data (an_scanner (snd (anthropic_Recv json s)))) < length (sc_data (an_scanner s))"
    using anthropic_Recv_shorter by (metis prod.collapse)
  show "anthropic_Recv json s = (Inl err, s') \<Longrightarrow> an_closed s'"
    using anthropic_Recv_outcome by fastforce
  show "anthropic_Recv json s = (Inr d, s') \<Longrightarrow> IsFinal d \<Longrightarrow> an_closed s'"
    "anthropic_Recv json s = (Inr d, s') \<Longrightarrow> anthropic_item_ok d"
    using anthropic_Recv_outcome by fastforce+
qed

section \<open>Lifting out the system messages\<close>

lemma anthropic_split_loop_eq:
  "anthropic_split_loop ms sp rest =
     (sp @ map MsgContent (filter (\<lambda>m. Role m = ''system'') ms),
      rest @ map (\<lambda>m. \<lparr>aq_Role = Role m, aq_Content = MsgContent m\<rparr>) (filter (\<lambda>m. Role m \<noteq> ''system'') ms))"
  by (induction ms arbitrary: sp rest) simp_all

lemma foldl_join: "foldl (\<lambda>a q. a @ c # q) p ps = strings_Join (p # ps) [c]"
proof (induction ps arbitrary: p)
  case (Cons q qs)
  have j: "strings_Join ((x @ y) # ys) [c] = x @ strings_Join (y # ys) [c]" for x y :: string and ys
    by (cases ys) simp_all
  show ?case using Cons.IH [of "p @ c # q"] j [of "p @ [c]" q qs] by simp
qed simp

section \<open>Events of a message\<close>

text \<open>An event that does not end the message and decodes, the text it contributes and its input count.\<close>

definition anth_inner :: "anthropic_json \<Rightarrow> Event \<Rightarrow> bool" where
  "anth_inner json ev \<longleftrightarrow>
     ev_Name ev \<notin> {''message_delta'', ''error''} \<and>
     (ev_Name ev = ''message_start'' \<longrightarrow> isl (aj_MessageStart json (ev_Data ev)) = False) \<and>
     (ev_Name ev = ''content_block_delta'' \<longrightarrow> isl (aj_ContentBlockDelta json (ev_Data ev)) = False)"

definition anth_text :: "anthropic_json \<Rightarrow> Event \<Rightarrow> string option" where
  "anth_text json ev =
     (if ev_Name ev = ''content_block_delta'' then
        (case aj_ContentBlockDelta json (ev_Data ev) of
           Inl _ \<Rightarrow> None
         | Inr d \<Rightarrow> if ab_Type d = ''text_delta'' \<and> ab_Text d \<noteq> [] then Some (ab_Text d) else None)
      else None)"

definition anth_input :: "anthropic_json \<Rightarrow> Event \<Rightarrow> int32 option" where
  "anth_input json ev =
     (if ev_Name ev = ''message_start'' then
        (case aj_MessageStart json (ev_Data ev) of Inl _ \<Rightarrow> None | Inr n \<Rightarrow> Some n)
      else None)"

definition last_input :: "anthropic_json \<Rightarrow> int32 option \<Rightarrow> Event list \<Rightarrow> int32 option" where
  "last_input json acc evs = foldl (\<lambda>acc ev. case anth_input json ev of None \<Rightarrow> acc | Some n \<Rightarrow> Some n) acc evs"

lemma anthropic_drain_events:
  assumes "sse_events (an_scanner s) = (pre @ ev # post, err)"
    and "list_all (anth_inner json) pre"
    and "ev_Name ev = ''message_delta''" "aj_MessageDelta json (ev_Data ev) = Inr d"
  shows "\<exists>s'. drain (anthropic_Recv json) s =
    Some ((map (\<lambda>t. zeroDelta\<lparr>Content := Some t\<rparr>) (List.map_filter (anth_text json) pre) @
           [zeroDelta\<lparr>FinishReason := am_StopReason d, IsFinal := True,
              InputTokens := last_input json (an_inputTokens s) pre,
              OutputTokens := Some (am_OutputTokens d)\<rparr>], None), s')"
  using assms
proof (induction pre arbitrary: s)
  case Nil
  then obtain sc where "sse_Next (an_scanner s) = (Inr ev, sc)"
    by (auto elim: sse_events_ConsE)
  with Nil show ?case
    by (simp add: drain.simps [of _ s] anthropic_Recv.simps [of _ s] last_input_def map_filter_def)
next
  case (Cons e pre)
  then obtain sc where n: "sse_Next (an_scanner s) = (Inr e, sc)" "sse_events sc = (pre @ ev # post, err)"
    by (auto elim: sse_events_ConsE)
  define s1 where "s1 = s\<lparr>an_scanner := sc, an_inputTokens :=
      (case anth_input json e of None \<Rightarrow> an_inputTokens s | Some k \<Rightarrow> Some k)\<rparr>"
  obtain s' where ih: "drain (anthropic_Recv json) s1 =
    Some ((map (\<lambda>t. zeroDelta\<lparr>Content := Some t\<rparr>) (List.map_filter (anth_text json) pre) @
           [zeroDelta\<lparr>FinishReason := am_StopReason d, IsFinal := True,
              InputTokens := last_input json (an_inputTokens s1) pre,
              OutputTokens := Some (am_OutputTokens d)\<rparr>], None), s')"
    using Cons.IH [of s1] Cons.prems n(2) by (auto simp: s1_def)
  have "s1 = s\<lparr>an_scanner := sc\<rparr>" if "anth_input json e = None"
    using that by (simp add: s1_def)
  then have "anthropic_Recv json s = (case anth_text json e of
      None \<Rightarrow> anthropic_Recv json s1 | Some t \<Rightarrow> (Inr (zeroDelta\<lparr>Content := Some t\<rparr>), s1))"
    using n(1) Cons.prems(2)
    by (auto simp: anthropic_Recv.simps [of _ s] s1_def anth_inner_def anth_text_def anth_input_def
        split: sum.splits)
  then have "drain (anthropic_Recv json) s = (case anth_text json e of
      None \<Rightarrow> drain (anthropic_Recv json) s1
    | Some t \<Rightarrow> Option.bind (drain (anthropic_Recv json) s1)
        (\<lambda>((ds, err), s''). Some ((zeroDelta\<lparr>Content := Some t\<rparr> # ds, err), s'')))"
    by (auto simp: drain.simps [of _ s] drain.simps [of _ s1] zeroDelta_def split: option.splits)
  moreover have "last_input json (an_inputTokens s) (e # pre) = last_input json (an_inputTokens s1) pre"
    by (simp add: last_input_def s1_def)
  ultimately show ?case using ih by (auto simp: map_filter_def split: option.splits)
qed

section \<open>Properties\<close>

text \<open>
  For any response body whose events up to the first \<^verbatim>\<open>message_delta\<close> decode and contain no error event, the
  stream delivers the non-empty text deltas in order, whatever pings and block markers come between them, and
  ends with one final item that joins the stop reason, the input count of the last \<^verbatim>\<open>message_start\<close> before it
  and the output count of the \<^verbatim>\<open>message_delta\<close>, with the body closed.
\<close>

lemma anthropic_usage_joined:
  assumes "sse_events (sse_NewScanner body end_err) = (pre @ ev # post, err)"
    and "list_all (anth_inner json) pre"
    and "ev_Name ev = ''message_delta''" "aj_MessageDelta json (ev_Data ev) = Inr d"
  shows "\<exists>s'. drain (anthropic_Recv json)
      \<lparr>an_scanner = sse_NewScanner body end_err, an_closed = False, an_inputTokens = None\<rparr> =
    Some ((map (\<lambda>t. zeroDelta\<lparr>Content := Some t\<rparr>) (List.map_filter (anth_text json) pre) @
           [zeroDelta\<lparr>FinishReason := am_StopReason d, IsFinal := True,
              InputTokens := last_input json None pre,
              OutputTokens := Some (am_OutputTokens d)\<rparr>], None), s') \<and> an_closed s'"
proof -
  let ?s = "\<lparr>an_scanner = sse_NewScanner body end_err, an_closed = False, an_inputTokens = None\<rparr>"
  show ?thesis
    using anthropic_drain_events [of ?s pre ev post err json d] assms anthropic.drain_closes [of json ?s]
    by fastforce
qed

text \<open>
  \<^verbatim>\<open>splitSystem\<close> loses nothing: the other messages keep their order, roles and contents, and the system
  text is the contents of the system messages in order, separated by line feeds.
\<close>

theorem anthropic_splitSystem_partition:
  "anthropic_splitSystem ms =
     (strings_Join (map MsgContent (filter (\<lambda>m. Role m = ''system'') ms)) [newline],
      map (\<lambda>m. \<lparr>aq_Role = Role m, aq_Content = MsgContent m\<rparr>) (filter (\<lambda>m. Role m \<noteq> ''system'') ms))"
  by (auto simp: anthropic_splitSystem_def anthropic_split_loop_eq foldl_join split: list.splits)

text \<open>Whatever the provider sends, reading the stream comes to an end with the body closed.\<close>

lemmas anthropic_stream_safe = anthropic.drain_safe

end
