(* ===== verification/Anthropic_Wire.thy ===== *)
theory Anthropic_Wire
  imports Anthropic Wire
begin

text \<open>
  The JSON of the Anthropic adapter (\<^verbatim>\<open>services/provider-gateway/internal/adapters/anthropic/anthropic.go\<close>): the struct tags of
  its wire types as the printer of the request and the decoders of the four events it reads. The last theorem follows
  a message from the bytes on the wire to the items of the stream.
\<close>

section \<open>Model\<close>

definition anthropic_message_json :: "anthropic_wireReqMessage \<Rightarrow> json" where
  "anthropic_message_json m = JsonObj [(''role'', JsonStr (aq_Role m)), (''content'', JsonStr (aq_Content m))]"

text \<open>A conversation of system messages only leaves the slice of the other messages nil, which is written as null.\<close>

definition anthropic_request_json :: "(float32 \<Rightarrow> string) \<Rightarrow> anthropic_wireRequest \<Rightarrow> json" where
  "anthropic_request_json fmtFloat q =
     JsonObj ([(''model'', JsonStr (aq_Model q))] @
              (if aq_System q = [] then [] else [(''system'', JsonStr (aq_System q))]) @
              [(''messages'', nil_slice anthropic_message_json (aq_Messages q)),
               (''stream'', JsonBool (aq_Stream q)),
               (''max_tokens'', json_int (aq_MaxTokens q))] @
              omitempty ''temperature'' (JsonNum \<circ> fmtFloat) (aq_Temperature q))"

definition anthropic_block_fields :: "anthropic_wireContentBlockDelta json_field list" where
  "anthropic_block_fields =
     [in_field ''type'' (dec_string ''string'') ab_Type (\<lambda>s r. r\<lparr>ab_Type := s\<rparr>),
      in_field ''text'' (dec_string ''string'') ab_Text (\<lambda>s r. r\<lparr>ab_Text := s\<rparr>)]"

definition anthropic_delta_fields :: "anthropic_wireMessageDelta json_field list" where
  "anthropic_delta_fields =
     [in_field ''delta'' (dec_only ''struct'' ''stop_reason'' (dec_ptr (dec_string ''string'') []))
        am_StopReason (\<lambda>s r. r\<lparr>am_StopReason := s\<rparr>),
      in_field ''usage'' (dec_only ''struct'' ''output_tokens'' (dec_int ''int32'' in_int32))
        am_OutputTokens (\<lambda>k r. r\<lparr>am_OutputTokens := k\<rparr>)]"

text \<open>
  The codec of the adapter. The type of an error event is decoded and not used, and since the error of the decoder is ignored,
  a type of the wrong kind does not matter.
\<close>

definition anthropic_codec :: "(float32 \<Rightarrow> string) \<Rightarrow> anthropic_json" where
  "anthropic_codec fmtFloat =
     \<lparr>aj_Request = (\<lambda>q. json_Marshal (pred_option float32_finite (aq_Temperature q)) (anthropic_request_json fmtFloat q)),
      aj_MessageStart =
        json_Unmarshal (dec_only ''anthropic.wireMessageStart'' ''message''
          (dec_only ''struct'' ''usage'' (dec_only ''struct'' ''input_tokens'' (dec_int ''int32'' in_int32)))) 0,
      aj_ContentBlockDelta =
        json_Unmarshal (dec_only ''anthropic.wireContentBlockDelta'' ''delta'' (dec_struct ''struct'' anthropic_block_fields))
          \<lparr>ab_Type = [], ab_Text = []\<rparr>,
      aj_MessageDelta =
        json_Unmarshal (dec_struct ''anthropic.wireMessageDelta'' anthropic_delta_fields)
          \<lparr>am_StopReason = None, am_OutputTokens = 0\<rparr>,
      aj_ErrorMessage =
        Unmarshal_ignored (dec_only ''anthropic.wireErrorEvent'' ''error''
          (lenient (dec_only ''struct'' ''message'' (lenient (dec_string ''string''))))) []\<rparr>"

section \<open>What the provider sends\<close>

text \<open>
  The events of a message, with the members the adapter has no field for. A mark is one of the events without a payload of interest:
  \<^verbatim>\<open>ping\<close>, \<^verbatim>\<open>content_block_start\<close>, \<^verbatim>\<open>content_block_stop\<close>, \<^verbatim>\<open>message_stop\<close>. A piece of another kind than text
  is a part of a tool call.
\<close>

datatype anth_event =
    AE_start string int32
  | AE_text string
  | AE_piece string
  | AE_mark string
  | AE_end "string option" int32

definition anth_marks :: "string set" where
  "anth_marks = {''ping'', ''content_block_start'', ''content_block_stop'', ''message_stop''}"

fun ae_name :: "anth_event \<Rightarrow> string" where
  "ae_name (AE_start i n) = ''message_start''"
| "ae_name (AE_text t) = ''content_block_delta''"
| "ae_name (AE_piece t) = ''content_block_delta''"
| "ae_name (AE_mark m) = m"
| "ae_name (AE_end r n) = ''message_delta''"

fun ae_payload :: "anth_event \<Rightarrow> (string \<times> json) list" where
  "ae_payload (AE_start i n) =
     [(''message'', JsonObj [(''id'', JsonStr i), (''usage'', JsonObj [(''input_tokens'', json_int n), (''output_tokens'', json_int 1)])])]"
| "ae_payload (AE_text t) =
     [(''index'', json_int 0), (''delta'', JsonObj [(''type'', JsonStr ''text_delta''), (''text'', JsonStr t)])]"
| "ae_payload (AE_piece t) =
     [(''index'', json_int 0), (''delta'', JsonObj [(''type'', JsonStr ''input_json_delta''), (''partial_json'', JsonStr t)])]"
| "ae_payload (AE_mark m) = []"
| "ae_payload (AE_end r n) =
     [(''delta'', JsonObj [(''stop_reason'', optional_string r), (''stop_sequence'', JsonNull)]),
      (''usage'', JsonObj [(''output_tokens'', json_int n)])]"

definition ae_json :: "anth_event \<Rightarrow> json" where
  "ae_json e = JsonObj ((''type'', JsonStr (ae_name e)) # ae_payload e)"

definition ae_frame :: "anth_event \<Rightarrow> string \<times> string list" where
  "ae_frame e = (ae_name e, [json_print (ae_json e)])"

fun ae_valid :: "anth_event \<Rightarrow> bool" where
  "ae_valid (AE_start i n) \<longleftrightarrow> utf8_valid i \<and> in_int32 n"
| "ae_valid (AE_text t) \<longleftrightarrow> utf8_valid t"
| "ae_valid (AE_piece t) \<longleftrightarrow> utf8_valid t"
| "ae_valid (AE_mark m) \<longleftrightarrow> m \<in> anth_marks"
| "ae_valid (AE_end r n) \<longleftrightarrow> pred_option utf8_valid r \<and> in_int32 n"

definition ae_ok :: "anth_event \<Rightarrow> bool" where
  "ae_ok e \<longleftrightarrow> ae_valid e \<and> length (json_print (ae_json e)) + 7 < maxTokenSize"

fun ae_within :: "anth_event \<Rightarrow> bool" where
  "ae_within (AE_start i n) = False"
| "ae_within (AE_end r n) = False"
| "ae_within _ = True"

fun ae_text :: "anth_event \<Rightarrow> string option" where
  "ae_text (AE_text t) = (if t = [] then None else Some t)"
| "ae_text _ = None"

section \<open>Facts\<close>

lemma ae_names:
  "foldName ''type'' = ''TYPE''" "foldName ''message'' = ''MESSAGE''" "foldName ''usage'' = ''USAGE''" "foldName ''id'' = ''ID''"
  "foldName ''input_tokens'' = ''INPUT_TOKENS''" "foldName ''output_tokens'' = ''OUTPUT_TOKENS''" "foldName ''index'' = ''INDEX''"
  "foldName ''delta'' = ''DELTA''" "foldName ''text'' = ''TEXT''" "foldName ''partial_json'' = ''PARTIAL_JSON''"
  "foldName ''stop_reason'' = ''STOP_REASON''" "foldName ''stop_sequence'' = ''STOP_SEQUENCE''"
  by (simp_all add: fold_eval)

lemma ae_names_valid:
  "utf8_valid ''type''" "utf8_valid ''message''" "utf8_valid ''usage''" "utf8_valid ''id''" "utf8_valid ''input_tokens''"
  "utf8_valid ''output_tokens''" "utf8_valid ''index''" "utf8_valid ''delta''" "utf8_valid ''text''" "utf8_valid ''partial_json''"
  "utf8_valid ''stop_reason''" "utf8_valid ''stop_sequence''" "utf8_valid ''text_delta''" "utf8_valid ''input_json_delta''"
  "utf8_valid ''message_start''" "utf8_valid ''content_block_delta''" "utf8_valid ''message_delta''"
  by (simp_all add: utf8_valid_ascii)

lemma anth_marks_valid: "\<forall>m \<in> anth_marks. utf8_valid m \<and> strings_TrimSpace (CHR '' '' # m) = m \<and> sse_line_ok m \<and>
    m \<notin> {''message_start'', ''content_block_delta'', ''message_delta'', ''error''}"
proof -
  have "\<forall>m \<in> anth_marks. utf8_valid m \<and> strings_TrimSpace (CHR '' '' # m) = m" by code_simp
  moreover have "\<forall>m \<in> anth_marks. sse_line_ok m" by (simp add: anth_marks_def sse_line_ok_def maxTokenSize_def)
  ultimately show ?thesis by (simp add: anth_marks_def)
qed

lemma ae_json_wf: "ae_valid e \<Longrightarrow> wf_json (ae_json e)" "json_depth (ae_json e) \<le> maxNestingDepth"
  by (cases e; auto simp: ae_json_def ae_names_valid optional_string_facts maxNestingDepth_def dest: bspec [OF anth_marks_valid])+

lemma ae_frame_ok:
  assumes "ae_ok e"
  shows "sse_frame_ok (ae_frame e)"
proof -
  have t: "strings_TrimSpace '' message_start'' = ''message_start''" "strings_TrimSpace '' message_delta'' = ''message_delta''"
    "strings_TrimSpace '' content_block_delta'' = ''content_block_delta''"
    by code_simp+
  have l: "sse_line_ok ''message_start''" "sse_line_ok ''message_delta''" "sse_line_ok ''content_block_delta''"
    by (simp_all add: sse_line_ok_def maxTokenSize_def)
  have "sse_line_ok (ae_name e) \<and> strings_TrimSpace (CHR '' '' # ae_name e) = ae_name e"
    using assms t l anth_marks_valid by (cases e) (simp_all add: ae_ok_def)
  with assms json_line_ok [OF ae_json_wf(1)] show ?thesis by (simp add: sse_frame_ok_def ae_frame_def ae_ok_def)
qed

lemmas codec_simps = json_Unmarshal_print [OF ae_json_wf] anthropic_codec_def ae_names anthropic_block_fields_def anthropic_delta_fields_def
  optional_string_facts

lemma codec_reads:
  "ae_valid (AE_start i n) \<Longrightarrow> aj_MessageStart (anthropic_codec fmt) (json_print (ae_json (AE_start i n))) = Inr n"
  "ae_valid (AE_text t) \<Longrightarrow>
     aj_ContentBlockDelta (anthropic_codec fmt) (json_print (ae_json (AE_text t))) = Inr \<lparr>ab_Type = ''text_delta'', ab_Text = t\<rparr>"
  "ae_valid (AE_piece t) \<Longrightarrow>
     aj_ContentBlockDelta (anthropic_codec fmt) (json_print (ae_json (AE_piece t))) = Inr \<lparr>ab_Type = ''input_json_delta'', ab_Text = []\<rparr>"
  "ae_valid (AE_end r k) \<Longrightarrow>
     aj_MessageDelta (anthropic_codec fmt) (json_print (ae_json (AE_end r k))) = Inr \<lparr>am_StopReason = r, am_OutputTokens = k\<rparr>"
  by (simp_all add: codec_simps del: ae_valid.simps, simp_all add: ae_json_def ae_names optional_string_facts)

lemma ae_event:
  "ev_Name (sse_frame_event (ae_frame e)) = ae_name e" "ev_Data (sse_frame_event (ae_frame e)) = json_print (ae_json e)"
  by (simp_all add: sse_frame_event_def ae_frame_def)

lemma ae_event_reads:
  assumes "ae_valid e"
  shows "anth_text (anthropic_codec fmt) (sse_frame_event (ae_frame e)) = ae_text e"
    and "anth_input (anthropic_codec fmt) (sse_frame_event (ae_frame e)) = (case e of AE_start i n \<Rightarrow> Some n | _ \<Rightarrow> None)"
    and "(\<forall>r k. e \<noteq> AE_end r k) \<Longrightarrow> anth_inner (anthropic_codec fmt) (sse_frame_event (ae_frame e))"
proof -
  have m: "e = AE_mark m \<Longrightarrow> m \<notin> {''message_start'', ''content_block_delta'', ''message_delta'', ''error''}" for m
    using assms anth_marks_valid by auto
  note r = codec_reads [where fmt = fmt]
  show "anth_text (anthropic_codec fmt) (sse_frame_event (ae_frame e)) = ae_text e"
    using assms m by (cases e) (auto simp: anth_text_def ae_event r simp del: ae_valid.simps)
  show "anth_input (anthropic_codec fmt) (sse_frame_event (ae_frame e)) = (case e of AE_start i n \<Rightarrow> Some n | _ \<Rightarrow> None)"
    using assms m by (cases e) (auto simp: anth_input_def ae_event r simp del: ae_valid.simps)
  show "(\<forall>r k. e \<noteq> AE_end r k) \<Longrightarrow> anth_inner (anthropic_codec fmt) (sse_frame_event (ae_frame e))"
    using assms m by (cases e) (auto simp: anth_inner_def ae_event r simp del: ae_valid.simps)
qed

lemma ae_texts:
  "list_all ae_valid es \<Longrightarrow>
    List.map_filter (anth_text (anthropic_codec fmt)) (map (sse_frame_event \<circ> ae_frame) es) = List.map_filter ae_text es"
  by (induction es) (simp_all add: map_filter_simps ae_event_reads split: option.split)

lemma ae_last_input:
  "list_all ae_valid es \<Longrightarrow> list_all ae_within es \<Longrightarrow>
    last_input (anthropic_codec fmt) acc (map (sse_frame_event \<circ> ae_frame) es) = acc"
proof (induction es)
  case (Cons e es)
  then show ?case by (cases e) (simp_all add: last_input_def ae_event_reads)
qed (simp add: last_input_def)

section \<open>Properties\<close>

text \<open>
  C20. A message over the wire. The provider starts with the input count, sends pieces and marks in any order and number, and ends with the
  stop reason and the output count; whatever follows is not read. Then the request is sent and the stream forwards the
  texts that are not empty, unchanged and in order, and one final item that joins the stop reason with both counts;
  the body is closed. The texts have to be valid UTF-8, the counts to fit an int32, each line to fit the
  scanner's buffer, and a temperature to be finite.
\<close>

theorem anthropic_wire_session:
  assumes "list_all ae_ok (AE_start i n # es @ AE_end r k # post)" "list_all ae_within es"
    and "resp = \<lparr>resp_StatusCode = 200,
      resp_Body = concat (map (sse_print_frame \<circ> ae_frame) (AE_start i n # es @ AE_end r k # post)), resp_BodyErr = None\<rparr>"
    and "pred_option float32_finite (Temperature req)" "\<And>url. http_ParseURL client url = None"
    and "\<And>hr. http_Do client hr w = (Inr resp, w')"
  shows "\<exists>s s'. anthropic_Invoke (anthropic_codec fmtFloat) client a req w = (Inr s, w') \<and>
    drain (anthropic_Recv (anthropic_codec fmtFloat)) s =
      Some ((map (\<lambda>t. zeroDelta\<lparr>Content := Some t\<rparr>) (List.map_filter ae_text es) @
             [zeroDelta\<lparr>FinishReason := r, IsFinal := True, InputTokens := Some n, OutputTokens := Some k\<rparr>], None), s') \<and> an_closed s'"
proof -
  let ?c = "anthropic_codec fmtFloat" and ?ev = "sse_frame_event \<circ> ae_frame"
  let ?pre = "map ?ev (AE_start i n # es)"
  define s where "s = \<lparr>an_scanner = sse_NewScanner (resp_Body resp) None, an_closed = False, an_inputTokens = None\<rparr>"
  have v: "list_all ae_valid es" "ae_valid (AE_start i n)" "ae_valid (AE_end r k)"
    using assms(1) by (auto simp: ae_ok_def list_all_iff)
  have "isl (aj_Request ?c (anthropic_request req)) = False"
    using assms(4) by (simp add: anthropic_codec_def json_Marshal_def anthropic_request_def case_prod_beta)
  then have inv: "anthropic_Invoke ?c client a req w = (Inr s, w')"
    using assms(3,5,6) by (auto simp: anthropic_Invoke_def post_stream_def s_def split: sum.splits)
  have "list_all sse_frame_ok (map ae_frame (AE_start i n # es @ AE_end r k # post))"
    using assms(1) by (auto simp: list_all_iff ae_frame_ok)
  from sse_events_frames [OF this]
  have "sse_events (sse_NewScanner (resp_Body resp) None) = (?pre @ ?ev (AE_end r k) # map ?ev post, EOF)"
    by (simp add: assms(3) comp_def)
  moreover have "list_all (anth_inner ?c) ?pre"
    using v assms(2) by (auto simp: list_all_iff intro!: ae_event_reads(3))
  moreover have "aj_MessageDelta ?c (ev_Data (?ev (AE_end r k))) = Inr \<lparr>am_StopReason = r, am_OutputTokens = k\<rparr>"
    using codec_reads(4) [OF v(3)] by (simp add: ae_event)
  ultimately obtain s' where d: "drain (anthropic_Recv ?c) s =
    Some ((map (\<lambda>t. zeroDelta\<lparr>Content := Some t\<rparr>) (List.map_filter (anth_text ?c) ?pre) @
           [zeroDelta\<lparr>FinishReason := r, IsFinal := True, InputTokens := last_input ?c None ?pre, OutputTokens := Some k\<rparr>], None), s')"
    "an_closed s'"
    using anthropic_usage_joined [of "resp_Body resp" None ?pre "?ev (AE_end r k)" "map ?ev post" EOF ?c "\<lparr>am_StopReason = r, am_OutputTokens = k\<rparr>"]
    by (auto simp: ae_event s_def)
  have "List.map_filter (anth_text ?c) ?pre = List.map_filter ae_text es"
    using v ae_texts [OF v(1), of fmtFloat] by (simp add: map_filter_simps ae_event_reads del: ae_valid.simps)
  moreover have "last_input ?c None ?pre = Some n"
    using v ae_last_input [OF v(1) assms(2), of fmtFloat "Some n"] by (simp add: last_input_def ae_event_reads del: ae_valid.simps)
  ultimately show ?thesis using inv d by auto
qed

text \<open>A message with a ping between its pieces and an empty piece, and an endpoint that answers with it.\<close>

definition haiku_events :: "anth_event list" where
  "haiku_events = [AE_mark ''content_block_start'', AE_text ''Hel'', AE_mark ''ping'', AE_text [], AE_text ''lo'', AE_mark ''content_block_stop'']"

definition haiku_body :: string where
  "haiku_body = concat (map (sse_print_frame \<circ> ae_frame)
     (AE_start ''m1'' 7 # haiku_events @ AE_end (Some ''end_turn'') 2 # [AE_mark ''message_stop'']))"

definition haiku_client :: "unit http_client" where
  "haiku_client =
     \<lparr>http_ParseURL = \<lambda>_. None, http_Do = \<lambda>_ w. (Inr \<lparr>resp_StatusCode = 200, resp_Body = haiku_body, resp_BodyErr = None\<rparr>, w)\<rparr>"

theorem anthropic_wire_session_witness:
  "\<exists>s s'. anthropic_Invoke (anthropic_codec (\<lambda>_. ''1'')) haiku_client (anthropic_New ''key'' [])
      \<lparr>RequestID = ''r'', Model = ''haiku'', Messages = [], MaxTokens = None, Temperature = Some 0x3F800000\<rparr> () = (Inr s, ()) \<and>
    drain (anthropic_Recv (anthropic_codec (\<lambda>_. ''1''))) s =
      Some (([zeroDelta\<lparr>Content := Some ''Hel''\<rparr>, zeroDelta\<lparr>Content := Some ''lo''\<rparr>,
              zeroDelta\<lparr>FinishReason := Some ''end_turn'', IsFinal := True, InputTokens := Some 7, OutputTokens := Some 2\<rparr>], None), s') \<and>
    an_closed s'"
proof -
  let ?es = "AE_start ''m1'' 7 # haiku_events @ AE_end (Some ''end_turn'') 2 # [AE_mark ''message_stop'']"
  have "\<forall>e \<in> set (AE_start ''m1'' 7 # AE_mark ''message_stop'' # haiku_events). ae_valid e \<and> length (json_print (ae_json e)) < 1000"
    by code_simp
  moreover have "utf8_valid ''end_turn''" "length (json_print (ae_json (AE_end (Some ''end_turn'') 2))) < 1000" "in_int32 2" by code_simp+
  ultimately have "\<forall>e \<in> set ?es. ae_valid e \<and> length (json_print (ae_json e)) < 1000" by simp
  then have ok: "list_all ae_ok ?es" unfolding list_all_iff ae_ok_def maxTokenSize_def by fastforce
  have w: "list_all ae_within haiku_events" by (simp add: haiku_events_def)
  have "resp = \<lparr>resp_StatusCode = 200, resp_Body = haiku_body, resp_BodyErr = None\<rparr> \<Longrightarrow> resp = \<lparr>resp_StatusCode = 200,
      resp_Body = concat (map (sse_print_frame \<circ> ae_frame) ?es), resp_BodyErr = None\<rparr>" for resp :: HttpResponse
    by (simp add: haiku_body_def)
  from anthropic_wire_session [OF ok w this [OF refl], where client = haiku_client and w = "()" and w' = "()"
      and req = "\<lparr>RequestID = ''r'', Model = ''haiku'', Messages = [], MaxTokens = None, Temperature = Some 0x3F800000\<rparr>"
      and fmtFloat = "\<lambda>_. ''1''" and a = "anthropic_New ''key'' []"]
  show ?thesis
    by (simp add: haiku_client_def float32_finite_def haiku_events_def map_filter_simps)
qed

end
