(* ===== verification/Google.thy ===== *)
theory Google
  imports Sse
begin

text \<open>
  The adapter for Gemini's \<^verbatim>\<open>streamGenerateContent\<close>
  (\<^verbatim>\<open>services/provider-gateway/internal/adapters/google/google.go\<close>): messages become contents with parts,
  the role \<^verbatim>\<open>assistant\<close> becomes \<^verbatim>\<open>model\<close>, system text is a field of its own, and the usage is read off
  the chunk that carries the finish reason. The JSON codecs are
  arguments here and defined in \<open>Google_Wire\<close>.
\<close>

section \<open>Model\<close>

abbreviation google_ProviderName :: string where "google_ProviderName \<equiv> ''google''"
abbreviation google_defaultBaseURL :: string where
  "google_defaultBaseURL \<equiv> ''https://generativelanguage.googleapis.com''"

record google_Adapter =
  go_apiKey :: string
  go_baseURL :: string

definition google_New :: "string \<Rightarrow> string \<Rightarrow> google_Adapter" where
  "google_New apiKey baseURL =
     \<lparr>go_apiKey = apiKey, go_baseURL = (if baseURL = [] then google_defaultBaseURL else baseURL)\<rparr>"

subsection \<open>Wire format\<close>

type_synonym google_wirePart = string

record google_wireContent =
  gc_Role :: string
  gc_Parts :: "google_wirePart list"

record google_wireGenerationConfig =
  gg_MaxOutputTokens :: "int32 option"
  gg_Temperature :: "float32 option"

record google_wireRequest =
  gq_Contents :: "google_wireContent list"
  gq_SystemInstruction :: "google_wireContent option"
  gq_GenerationConfig :: "google_wireGenerationConfig option"

record google_wireCandidate =
  gd_Content :: google_wireContent
  gd_FinishReason :: "string option"

record google_wireUsageMetadata =
  gu_PromptTokenCount :: int32
  gu_CandidatesTokenCount :: int32

record google_wireChunk =
  gk_Candidates :: "google_wireCandidate list"
  gk_UsageMetadata :: "google_wireUsageMetadata option"

subsection \<open>Invoke\<close>

definition google_mapRole :: "string \<Rightarrow> string" where
  "google_mapRole role = (if role = ''assistant'' then ''model'' else role)"

fun google_split_loop ::
  "Message list \<Rightarrow> string list \<Rightarrow> google_wireContent list \<Rightarrow> string list \<times> google_wireContent list" where
  "google_split_loop [] systemParts rest = (systemParts, rest)"
| "google_split_loop (m # ms) systemParts rest =
     (if Role m = ''system'' then google_split_loop ms (systemParts @ [MsgContent m]) rest
      else google_split_loop ms systemParts
             (rest @ [\<lparr>gc_Role = google_mapRole (Role m), gc_Parts = [MsgContent m]\<rparr>]))"

definition google_splitSystem :: "Message list \<Rightarrow> google_wireContent option \<times> google_wireContent list" where
  "google_splitSystem messages =
     (case google_split_loop messages [] [] of
        ([], rest) \<Rightarrow> (None, rest)
      | (p # ps, rest) \<Rightarrow>
          (Some \<lparr>gc_Role = [], gc_Parts = [foldl (\<lambda>joined q. joined @ newline # q) p ps]\<rparr>, rest))"

record google_stream =
  go_scanner :: bufio_Scanner
  go_closed :: bool

definition google_request :: "InvokeRequest \<Rightarrow> google_wireRequest" where
  "google_request req =
     (case google_splitSystem (Messages req) of
        (systemInstruction, contents) \<Rightarrow>
          \<lparr>gq_Contents = contents, gq_SystemInstruction = systemInstruction,
           gq_GenerationConfig =
             (if MaxTokens req \<noteq> None \<or> Temperature req \<noteq> None
              then Some \<lparr>gg_MaxOutputTokens = MaxTokens req, gg_Temperature = Temperature req\<rparr> else None)\<rparr>)"

definition google_Invoke ::
  "(google_wireRequest \<Rightarrow> string result) \<Rightarrow> 'w http_client \<Rightarrow> google_Adapter \<Rightarrow> InvokeRequest \<Rightarrow> 'w
     \<Rightarrow> google_stream result \<times> 'w" where
  "google_Invoke marshal client a req w =
     (case marshal (google_request req) of
        Inl err \<Rightarrow> (Inl (Wrap ''google adapter: marshal request: '' err []), w)
      | Inr body \<Rightarrow>
          (case post_stream ''google'' client
                  \<lparr>req_Method = ''POST'',
                   req_URL = go_baseURL a @ ''/v1beta/models/'' @ Model req @ '':streamGenerateContent?alt=sse'',
                   req_Header = [(''Content-Type'', ''application/json''), (''x-goog-api-key'', go_apiKey a)],
                   req_Body = body\<rparr> w of
             (Inl err, w1) \<Rightarrow> (Inl err, w1)
           | (Inr resp, w1) \<Rightarrow>
               (Inr \<lparr>go_scanner = sse_NewScanner (resp_Body resp) (resp_BodyErr resp), go_closed = False\<rparr>, w1)))"

subsection \<open>Recv\<close>

function google_Recv :: "(string \<Rightarrow> google_wireChunk result) \<Rightarrow> google_stream Recv" where
  "google_Recv unmarshal s =
     (case sse_Next (go_scanner s) of
        (Inl err, sc) \<Rightarrow>
          (if err = EOF then (Inl EOF, s\<lparr>go_scanner := sc, go_closed := True\<rparr>)
           else (Inl (Wrap ''google adapter: read stream: '' err []), s\<lparr>go_scanner := sc, go_closed := True\<rparr>))
      | (Inr ev, sc) \<Rightarrow>
          (let s = s\<lparr>go_scanner := sc\<rparr> in
           case unmarshal (ev_Data ev) of
             Inl err \<Rightarrow> (Inl (Wrap ''google adapter: decode chunk: '' err []), s\<lparr>go_closed := True\<rparr>)
           | Inr chunk \<Rightarrow>
               (case gk_Candidates chunk of
                  [] \<Rightarrow> google_Recv unmarshal s
                | candidate # _ \<Rightarrow>
                    (let text = (case gc_Parts (gd_Content candidate) of [] \<Rightarrow> [] | p # _ \<Rightarrow> p)
                     in if gd_FinishReason candidate \<noteq> None then
                          (let delta = zeroDelta\<lparr>Content := (if text \<noteq> [] then Some text else None),
                                         FinishReason := gd_FinishReason candidate, IsFinal := True\<rparr>
                           in (Inr (case gk_UsageMetadata chunk of
                                      None \<Rightarrow> delta
                                    | Some u \<Rightarrow> delta\<lparr>InputTokens := Some (gu_PromptTokenCount u),
                                                      OutputTokens := Some (gu_CandidatesTokenCount u)\<rparr>),
                               s\<lparr>go_closed := True\<rparr>))
                        else if text = [] then google_Recv unmarshal s
                        else (Inr (zeroDelta\<lparr>Content := Some text\<rparr>), s)))))"
  by pat_completeness auto
termination
  by (relation "measure (\<lambda>(u, s). length (sc_data (go_scanner s)))")
    (auto dest!: sse_Next_shorter [OF sym])

declare google_Recv.simps [simp del]

definition google_Adapter_iface ::
  "(google_wireRequest \<Rightarrow> string result) \<Rightarrow> 'w http_client \<Rightarrow> google_Adapter \<Rightarrow> (google_stream, 'w) Adapter" where
  "google_Adapter_iface marshal client a =
     \<lparr>Adapter_Name = google_ProviderName, Adapter_Invoke = google_Invoke marshal client a\<rparr>"

section \<open>The contract of the stream\<close>

definition google_item_ok :: "Delta \<Rightarrow> bool" where
  "google_item_ok d \<longleftrightarrow>
     Content d \<noteq> Some [] \<and> (InputTokens d = None \<longleftrightarrow> OutputTokens d = None) \<and>
     (if IsFinal d then FinishReason d \<noteq> None
      else Content d \<noteq> None \<and> FinishReason d = None \<and> InputTokens d = None)"

lemma google_Recv_shorter:
  "google_Recv u s = (Inr d, s') \<Longrightarrow> length (sc_data (go_scanner s')) < length (sc_data (go_scanner s))"
proof (induction u s rule: google_Recv.induct)
  case (1 u s)
  obtain r sc where n: "sse_Next (go_scanner s) = (r, sc)" by fastforce
  show ?case
  proof (cases r)
    case (Inl e)
    with n "1.prems" show ?thesis by (simp add: google_Recv.simps [of u s] split: if_splits)
  next
    case (Inr ev)
    with n have "length (sc_data sc) < length (sc_data (go_scanner s))" using sse_Next_shorter by blast
    then show ?thesis
      using "1.IH" [OF n [symmetric] Inr refl] "1.prems" n Inr
      by (fastforce simp: google_Recv.simps [of u s] Let_def split: if_splits sum.splits list.splits)
  qed
qed

lemma google_Recv_outcome:
  "google_Recv u s = (r, s') \<Longrightarrow>
     (case r of Inl e \<Rightarrow> go_closed s' | Inr d \<Rightarrow> google_item_ok d \<and> (IsFinal d \<longrightarrow> go_closed s'))"
proof (induction u s rule: google_Recv.induct)
  case (1 u s)
  obtain q sc where n: "sse_Next (go_scanner s) = (q, sc)" by fastforce
  show ?case
  proof (cases q)
    case (Inl e)
    with n "1.prems" show ?thesis by (auto simp: google_Recv.simps [of u s] split: if_splits)
  next
    case (Inr ev)
    with "1.IH" [OF n [symmetric] Inr refl] "1.prems" n show ?thesis
      by (fastforce simp: google_Recv.simps [of u s] Let_def google_item_ok_def zeroDelta_def
          split: if_splits sum.splits list.splits option.splits)
  qed
qed

interpretation google: closing_stream "google_Recv unmarshal" "\<lambda>s. length (sc_data (go_scanner s))"
    go_closed google_item_ok for unmarshal
proof
  fix s d s' err
  show "fst (google_Recv unmarshal s) = Inr d \<Longrightarrow>
      length (sc_data (go_scanner (snd (google_Recv unmarshal s)))) < length (sc_data (go_scanner s))"
    using google_Recv_shorter by (metis prod.collapse)
  show "google_Recv unmarshal s = (Inl err, s') \<Longrightarrow> go_closed s'"
    using google_Recv_outcome by fastforce
  show "google_Recv unmarshal s = (Inr d, s') \<Longrightarrow> IsFinal d \<Longrightarrow> go_closed s'"
    "google_Recv unmarshal s = (Inr d, s') \<Longrightarrow> google_item_ok d"
    using google_Recv_outcome by fastforce+
qed

section \<open>Facts\<close>

lemma google_split_loop_eq:
  "google_split_loop ms sp rest =
     (sp @ map MsgContent (filter (\<lambda>m. Role m = ''system'') ms),
      rest @ map (\<lambda>m. \<lparr>gc_Role = google_mapRole (Role m), gc_Parts = [MsgContent m]\<rparr>)
        (filter (\<lambda>m. Role m \<noteq> ''system'') ms))"
  by (induction ms arbitrary: sp rest) simp_all

text \<open>No content carries the roles that Gemini does not know.\<close>

lemma google_roles:
  "c \<in> set (snd (google_splitSystem ms)) \<Longrightarrow> gc_Role c \<noteq> ''system'' \<and> gc_Role c \<noteq> ''assistant'' \<and> length (gc_Parts c) = 1"
  by (auto simp: google_splitSystem_def google_split_loop_eq google_mapRole_def split: list.splits if_splits)

text \<open>Whatever the provider sends, reading the stream comes to an end with the body closed.\<close>

lemmas google_stream_safe = google.drain_safe

end
