(* ===== verification/Google_Wire.thy ===== *)
theory Google_Wire
  imports Google Wire
begin

text \<open>
  The JSON of the Google adapter (\<^verbatim>\<open>services/provider-gateway/internal/adapters/google/google.go\<close>): the struct tags of its wire
  types as the printer of the request and the decoder of a chunk, and the adapter on a session of Gemini.
\<close>

section \<open>Model\<close>

definition google_part_json :: "google_wirePart \<Rightarrow> json" where
  "google_part_json t = JsonObj [(''text'', JsonStr t)]"

definition google_content_json :: "google_wireContent \<Rightarrow> json" where
  "google_content_json c =
     JsonObj [(''role'', JsonStr (gc_Role c)), (''parts'', JsonArr (map google_part_json (gc_Parts c)))]"

definition google_config_json :: "(float32 \<Rightarrow> string) \<Rightarrow> google_wireGenerationConfig \<Rightarrow> json" where
  "google_config_json fmtFloat g =
     JsonObj (omitempty ''maxOutputTokens'' json_int (gg_MaxOutputTokens g) @
              omitempty ''temperature'' (JsonNum \<circ> fmtFloat) (gg_Temperature g))"

definition google_request_json :: "(float32 \<Rightarrow> string) \<Rightarrow> google_wireRequest \<Rightarrow> json" where
  "google_request_json fmtFloat q =
     JsonObj ([(''contents'', nil_slice google_content_json (gq_Contents q))] @
              omitempty ''systemInstruction'' google_content_json (gq_SystemInstruction q) @
              omitempty ''generationConfig'' (google_config_json fmtFloat) (gq_GenerationConfig q))"

definition google_marshal :: "(float32 \<Rightarrow> string) \<Rightarrow> google_wireRequest \<Rightarrow> string result" where
  "google_marshal fmtFloat q =
     json_Marshal (pred_option (\<lambda>g. pred_option float32_finite (gg_Temperature g)) (gq_GenerationConfig q))
       (google_request_json fmtFloat q)"

definition google_content_fields :: "google_wireContent json_field list" where
  "google_content_fields =
     [in_field ''role'' (dec_string ''string'') gc_Role (\<lambda>s r. r\<lparr>gc_Role := s\<rparr>),
      in_field ''parts'' (dec_slice ''[]google.wirePart'' (dec_only ''google.wirePart'' ''text'' (dec_string ''string'')) [])
        gc_Parts (\<lambda>ps r. r\<lparr>gc_Parts := ps\<rparr>)]"

definition google_candidate_fields :: "google_wireCandidate json_field list" where
  "google_candidate_fields =
     [in_field ''content'' (dec_struct ''google.wireContent'' google_content_fields) gd_Content (\<lambda>c r. r\<lparr>gd_Content := c\<rparr>),
      in_field ''finishReason'' (dec_ptr (dec_string ''string'') []) gd_FinishReason (\<lambda>f r. r\<lparr>gd_FinishReason := f\<rparr>)]"

definition google_usage_fields :: "google_wireUsageMetadata json_field list" where
  "google_usage_fields =
     [in_field ''promptTokenCount'' (dec_int ''int32'' in_int32) gu_PromptTokenCount (\<lambda>k r. r\<lparr>gu_PromptTokenCount := k\<rparr>),
      in_field ''candidatesTokenCount'' (dec_int ''int32'' in_int32) gu_CandidatesTokenCount (\<lambda>k r. r\<lparr>gu_CandidatesTokenCount := k\<rparr>)]"

definition google_zeroCandidate :: google_wireCandidate where
  "google_zeroCandidate = \<lparr>gd_Content = \<lparr>gc_Role = [], gc_Parts = []\<rparr>, gd_FinishReason = None\<rparr>"

definition google_chunk_fields :: "google_wireChunk json_field list" where
  "google_chunk_fields =
     [in_field ''candidates''
        (dec_slice ''[]google.wireCandidate'' (dec_struct ''google.wireCandidate'' google_candidate_fields) google_zeroCandidate)
        gk_Candidates (\<lambda>cs r. r\<lparr>gk_Candidates := cs\<rparr>),
      in_field ''usageMetadata''
        (dec_ptr (dec_struct ''google.wireUsageMetadata'' google_usage_fields) \<lparr>gu_PromptTokenCount = 0, gu_CandidatesTokenCount = 0\<rparr>)
        gk_UsageMetadata (\<lambda>u r. r\<lparr>gk_UsageMetadata := u\<rparr>)]"

definition google_unmarshal :: "string \<Rightarrow> google_wireChunk result" where
  "google_unmarshal =
     json_Unmarshal (dec_struct ''google.wireChunk'' google_chunk_fields) \<lparr>gk_Candidates = [], gk_UsageMetadata = None\<rparr>"

section \<open>What the provider sends\<close>

text \<open>A chunk as Gemini writes it, with members the adapter has no field for.\<close>

definition go_candidate_json :: "google_wireCandidate \<Rightarrow> json" where
  "go_candidate_json c =
     JsonObj ([(''content'', google_content_json (gd_Content c))] @ omitempty ''finishReason'' JsonStr (gd_FinishReason c) @
              [(''index'', json_int 0)])"

definition go_usage_json :: "google_wireUsageMetadata \<Rightarrow> json" where
  "go_usage_json u =
     JsonObj [(''promptTokenCount'', json_int (gu_PromptTokenCount u)), (''candidatesTokenCount'', json_int (gu_CandidatesTokenCount u)),
              (''totalTokenCount'', json_int (gu_PromptTokenCount u + gu_CandidatesTokenCount u))]"

definition go_chunk_json :: "string \<Rightarrow> google_wireChunk \<Rightarrow> json" where
  "go_chunk_json version c =
     JsonObj ([(''candidates'', JsonArr (map go_candidate_json (gk_Candidates c)))] @
              omitempty ''usageMetadata'' go_usage_json (gk_UsageMetadata c) @ [(''modelVersion'', JsonStr version)])"

definition go_frame :: "string \<Rightarrow> google_wireChunk \<Rightarrow> string \<times> string list" where
  "go_frame version c = ([], [json_print (go_chunk_json version c)])"

definition go_content_ok :: "google_wireContent \<Rightarrow> bool" where
  "go_content_ok c \<longleftrightarrow> utf8_valid (gc_Role c) \<and> list_all utf8_valid (gc_Parts c)"

definition go_candidate_ok :: "google_wireCandidate \<Rightarrow> bool" where
  "go_candidate_ok c \<longleftrightarrow> go_content_ok (gd_Content c) \<and> pred_option utf8_valid (gd_FinishReason c)"

definition go_usage_ok :: "google_wireUsageMetadata \<Rightarrow> bool" where
  "go_usage_ok u \<longleftrightarrow> in_int32 (gu_PromptTokenCount u) \<and> in_int32 (gu_CandidatesTokenCount u)"

definition go_chunk_ok :: "string \<Rightarrow> google_wireChunk \<Rightarrow> bool" where
  "go_chunk_ok version c \<longleftrightarrow>
     list_all go_candidate_ok (gk_Candidates c) \<and> pred_option go_usage_ok (gk_UsageMetadata c) \<and>
     length (json_print (go_chunk_json version c)) + 7 < maxTokenSize"

text \<open>What the adapter makes of a chunk: the first part of the first candidate, and whether it is the last chunk.\<close>

definition go_text :: "google_wireChunk \<Rightarrow> string option" where
  "go_text c =
     (case gk_Candidates c of
        [] \<Rightarrow> None
      | d # _ \<Rightarrow> (case gc_Parts (gd_Content d) of [] \<Rightarrow> None | p # _ \<Rightarrow> if p = [] then None else Some p))"

definition go_reason :: "google_wireChunk \<Rightarrow> string option" where
  "go_reason c = (case gk_Candidates c of [] \<Rightarrow> None | d # _ \<Rightarrow> gd_FinishReason d)"

definition go_final :: "google_wireChunk \<Rightarrow> Delta" where
  "go_final c =
     zeroDelta\<lparr>Content := go_text c, FinishReason := go_reason c, IsFinal := True,
       InputTokens := map_option gu_PromptTokenCount (gk_UsageMetadata c),
       OutputTokens := map_option gu_CandidatesTokenCount (gk_UsageMetadata c)\<rparr>"

section \<open>Facts\<close>

lemma go_names:
  "foldName ''role'' = ''ROLE''" "foldName ''parts'' = ''PARTS''" "foldName ''text'' = ''TEXT''" "foldName ''content'' = ''CONTENT''"
  "foldName ''finishReason'' = ''FINISHREASON''" "foldName ''index'' = ''INDEX''" "foldName ''candidates'' = ''CANDIDATES''"
  "foldName ''usageMetadata'' = ''USAGEMETADATA''" "foldName ''modelVersion'' = ''MODELVERSION''"
  "foldName ''promptTokenCount'' = ''PROMPTTOKENCOUNT''" "foldName ''candidatesTokenCount'' = ''CANDIDATESTOKENCOUNT''"
  "foldName ''totalTokenCount'' = ''TOTALTOKENCOUNT''"
  by (simp_all add: fold_eval)

lemma go_names_valid:
  "utf8_valid ''role''" "utf8_valid ''parts''" "utf8_valid ''text''" "utf8_valid ''content''" "utf8_valid ''finishReason''"
  "utf8_valid ''index''" "utf8_valid ''candidates''" "utf8_valid ''usageMetadata''" "utf8_valid ''modelVersion''"
  "utf8_valid ''promptTokenCount''" "utf8_valid ''candidatesTokenCount''" "utf8_valid ''totalTokenCount''"
  by (simp_all add: utf8_valid_ascii)

lemma go_content_facts:
  assumes "go_content_ok c"
  shows "wf_json (google_content_json c)" "json_depth (google_content_json c) \<le> 3"
    "dec_struct t google_content_fields (google_content_json c) \<lparr>gc_Role = [], gc_Parts = []\<rparr> = Inr c"
proof -
  show "wf_json (google_content_json c)"
    using assms by (auto simp: google_content_json_def google_part_json_def go_content_ok_def go_names_valid list_all_iff)
  show "json_depth (google_content_json c) \<le> 3"
    by (auto simp: google_content_json_def google_part_json_def foldr_max_le)
  have "dec_elems (dec_only pt ''text'' (dec_string ''string'')) [] (map google_part_json ps) [] = Inr ps" for pt ps
    by (rule dec_elems_map) (simp add: google_part_json_def go_names)
  then show "dec_struct t google_content_fields (google_content_json c) \<lparr>gc_Role = [], gc_Parts = []\<rparr> = Inr c"
    by (simp add: google_content_json_def google_content_fields_def go_names)
qed

lemma go_candidate_facts:
  assumes "go_candidate_ok c"
  shows "wf_json (go_candidate_json c)" "json_depth (go_candidate_json c) \<le> 4"
    "dec_struct t google_candidate_fields (go_candidate_json c) google_zeroCandidate = Inr c"
  using assms go_content_facts [of "gd_Content c"]
  by (cases "gd_FinishReason c"; simp add: go_candidate_json_def omitempty_def go_candidate_ok_def go_names go_names_valid
      google_candidate_fields_def google_zeroCandidate_def)+

lemma go_usage_facts:
  assumes "go_usage_ok u"
  shows "wf_json (go_usage_json u)" "json_depth (go_usage_json u) = 1"
    "dec_struct t google_usage_fields (go_usage_json u) \<lparr>gu_PromptTokenCount = 0, gu_CandidatesTokenCount = 0\<rparr> = Inr u"
  using assms by (simp_all add: go_usage_json_def go_usage_ok_def go_names go_names_valid google_usage_fields_def)

lemma go_chunk_json_wf:
  assumes "utf8_valid v" "go_chunk_ok v c"
  shows "wf_json (go_chunk_json v c)" "json_depth (go_chunk_json v c) \<le> maxNestingDepth"
proof -
  have m: "wf_json (JsonArr (map go_candidate_json (gk_Candidates c)))" "json_depth (JsonArr (map go_candidate_json (gk_Candidates c))) \<le> 5"
    using assms(2) by (auto simp: go_chunk_ok_def list_all_iff go_candidate_facts foldr_max_le)
  with assms show "wf_json (go_chunk_json v c)" "json_depth (go_chunk_json v c) \<le> maxNestingDepth"
    by (cases "gk_UsageMetadata c"; simp add: go_chunk_json_def omitempty_def go_names_valid go_chunk_ok_def go_usage_facts maxNestingDepth_def)+
qed

lemma google_unmarshal_chunk:
  assumes "utf8_valid v" "go_chunk_ok v c"
  shows "google_unmarshal (json_print (go_chunk_json v c)) = Inr c"
proof -
  have "dec_elems (dec_struct t google_candidate_fields) google_zeroCandidate (map go_candidate_json (gk_Candidates c)) [] = Inr (gk_Candidates c)" for t
    using assms(2) by (intro dec_elems_map) (auto simp: go_chunk_ok_def list_all_iff go_candidate_facts)
  moreover have "dec_ptr (dec_struct t google_usage_fields) z (go_usage_json u) None =
      (case dec_struct t google_usage_fields (go_usage_json u) z of Inl e \<Rightarrow> Inl e | Inr y \<Rightarrow> Inr (Some y))" for t z u
    by (simp add: go_usage_json_def)
  ultimately show ?thesis
    unfolding google_unmarshal_def json_Unmarshal_print [OF go_chunk_json_wf [OF assms]] using assms(2)
    by (cases "gk_UsageMetadata c") (simp_all add: go_chunk_json_def omitempty_def google_chunk_fields_def go_names go_chunk_ok_def go_usage_facts)
qed

lemma go_frame_ok:
  assumes "utf8_valid v" "go_chunk_ok v c"
  shows "sse_frame_ok (go_frame v c)"
proof -
  have "strings_TrimSpace '' '' = []" by code_simp
  moreover have "sse_line_ok (json_print (go_chunk_json v c))"
    using json_line_ok [OF go_chunk_json_wf(1) [OF assms]] assms(2) by (simp add: go_chunk_ok_def)
  ultimately show ?thesis by (simp add: sse_frame_ok_def go_frame_def sse_line_ok_def maxTokenSize_def)
qed

text \<open>One chunk that decodes.\<close>

lemma google_Recv_chunk:
  assumes "sse_Next (go_scanner s) = (Inr ev, sc)" "unmarshal (ev_Data ev) = Inr c"
  shows "google_Recv unmarshal s =
    (if go_reason c \<noteq> None then (Inr (go_final c), s\<lparr>go_scanner := sc, go_closed := True\<rparr>)
     else case go_text c of
       None \<Rightarrow> google_Recv unmarshal (s\<lparr>go_scanner := sc\<rparr>)
     | Some t \<Rightarrow> (Inr (zeroDelta\<lparr>Content := Some t\<rparr>), s\<lparr>go_scanner := sc\<rparr>))"
  using assms by (subst google_Recv.simps)
    (auto simp: go_reason_def go_text_def go_final_def zeroDelta_def Let_def split: list.splits option.splits)

lemma google_drain_chunks:
  assumes "sse_events (go_scanner s) = (map ev pre @ ev lst # post, err)"
    and "\<And>c. c \<in> set (lst # pre) \<Longrightarrow> unmarshal (ev_Data (ev c)) = Inr c"
    and "\<forall>c \<in> set pre. go_reason c = None" "go_reason lst \<noteq> None"
  shows "\<exists>s'. drain (google_Recv unmarshal) s =
    Some ((map (\<lambda>t. zeroDelta\<lparr>Content := Some t\<rparr>) (List.map_filter go_text pre) @ [go_final lst], None), s')"
  using assms
proof (induction pre arbitrary: s)
  case Nil
  then obtain sc where "sse_Next (go_scanner s) = (Inr (ev lst), sc)" by (auto elim: sse_events_ConsE)
  from google_Recv_chunk [where unmarshal = unmarshal, OF this] Nil show ?case
    by (simp add: drain.simps [of _ s] go_final_def map_filter_simps)
next
  case (Cons c pre)
  then obtain sc where n: "sse_Next (go_scanner s) = (Inr (ev c), sc)" "sse_events sc = (map ev pre @ ev lst # post, err)"
    by (auto elim: sse_events_ConsE)
  let ?s = "s\<lparr>go_scanner := sc\<rparr>"
  obtain s' where ih: "drain (google_Recv unmarshal) ?s =
      Some ((map (\<lambda>t. zeroDelta\<lparr>Content := Some t\<rparr>) (List.map_filter go_text pre) @ [go_final lst], None), s')"
    using Cons.IH [of ?s] Cons.prems n(2) by auto
  have r: "google_Recv unmarshal s =
      (case go_text c of None \<Rightarrow> google_Recv unmarshal ?s | Some t \<Rightarrow> (Inr (zeroDelta\<lparr>Content := Some t\<rparr>), ?s))"
    using google_Recv_chunk [where unmarshal = unmarshal, OF n(1)] Cons.prems(2,3) by simp
  show ?case
  proof (cases "go_text c")
    case None
    then have "drain (google_Recv unmarshal) s = drain (google_Recv unmarshal) ?s"
      using r by (simp add: drain.simps [of _ s] drain.simps [of _ ?s])
    with ih None show ?thesis by (simp add: map_filter_simps)
  next
    case (Some t)
    with r ih show ?thesis by (simp add: drain.simps [of _ s] zeroDelta_def map_filter_simps)
  qed
qed

section \<open>Properties\<close>

text \<open>
  C21. A session of Gemini over the wire: chunks without a finish reason, then one with it; whatever follows is not read. The
  request is sent, the stream forwards the first part of each chunk that has a text, unchanged and in order, and one final item with the last
  text, the finish reason and the token counts of that chunk; the body is closed. The further parts and candidates of a
  chunk are dropped.
\<close>

theorem google_wire_session:
  assumes "utf8_valid v" "list_all (go_chunk_ok v) (pre @ lst # post)" "list_all (\<lambda>c. go_reason c = None) pre" "go_reason lst \<noteq> None"
    and "resp = \<lparr>resp_StatusCode = 200, resp_Body = concat (map (sse_print_frame \<circ> go_frame v) (pre @ lst # post)), resp_BodyErr = None\<rparr>"
    and "pred_option float32_finite (Temperature req)" "\<And>url. http_ParseURL client url = None"
    and "\<And>hr. http_Do client hr w = (Inr resp, w')"
  shows "\<exists>s s'. google_Invoke (google_marshal fmtFloat) client a req w = (Inr s, w') \<and>
    drain (google_Recv google_unmarshal) s =
      Some ((map (\<lambda>t. zeroDelta\<lparr>Content := Some t\<rparr>) (List.map_filter go_text pre) @ [go_final lst], None), s') \<and> go_closed s'"
proof -
  let ?ev = "sse_frame_event \<circ> go_frame v"
  define s where "s = \<lparr>go_scanner = sse_NewScanner (resp_Body resp) None, go_closed = False\<rparr>"
  have "isl (google_marshal fmtFloat (google_request req)) = False"
    using assms(6) by (auto simp: google_marshal_def json_Marshal_def google_request_def case_prod_beta)
  then have inv: "google_Invoke (google_marshal fmtFloat) client a req w = (Inr s, w')"
    using assms(5,7,8) by (auto simp: google_Invoke_def post_stream_def s_def split: sum.splits)
  have "list_all sse_frame_ok (map (go_frame v) (pre @ lst # post))"
    using assms(1,2) by (auto simp: list_all_iff go_frame_ok)
  from sse_events_frames [OF this]
  have "sse_events (go_scanner s) = (map ?ev pre @ ?ev lst # map ?ev post, EOF)"
    by (simp add: s_def assms(5) comp_def)
  moreover have "google_unmarshal (ev_Data (?ev c)) = Inr c" if "c \<in> set (lst # pre)" for c
    using that assms(1,2) by (auto simp: sse_frame_event_def go_frame_def list_all_iff google_unmarshal_chunk)
  ultimately obtain s' where "drain (google_Recv google_unmarshal) s =
      Some ((map (\<lambda>t. zeroDelta\<lparr>Content := Some t\<rparr>) (List.map_filter go_text pre) @ [go_final lst], None), s')"
    using google_drain_chunks [of s ?ev pre lst "map ?ev post" EOF google_unmarshal] assms(3,4) by (auto simp: list_all_iff)
  with inv google.drain_closes show ?thesis by metis
qed

text \<open>Two chunks of text and one with the finish reason, and an endpoint that answers with them.\<close>

definition flash_chunk :: "string \<Rightarrow> string option \<Rightarrow> google_wireChunk" where
  "flash_chunk t r =
     \<lparr>gk_Candidates = [\<lparr>gd_Content = \<lparr>gc_Role = ''model'', gc_Parts = [t]\<rparr>, gd_FinishReason = r\<rparr>],
      gk_UsageMetadata = Some \<lparr>gu_PromptTokenCount = 5, gu_CandidatesTokenCount = 3\<rparr>\<rparr>"

definition flash_chunks :: "google_wireChunk list" where
  "flash_chunks = [flash_chunk ''Hel'' None, flash_chunk [] None]"

definition flash_last :: google_wireChunk where
  "flash_last = flash_chunk ''lo'' (Some ''STOP'')"

definition flash_response :: HttpResponse where
  "flash_response = \<lparr>resp_StatusCode = 200,
     resp_Body = concat (map (sse_print_frame \<circ> go_frame ''flash'') (flash_chunks @ flash_last # [])), resp_BodyErr = None\<rparr>"

definition flash_client :: "unit http_client" where
  "flash_client = \<lparr>http_ParseURL = \<lambda>_. None, http_Do = \<lambda>_ w. (Inr flash_response, w)\<rparr>"

theorem google_wire_session_witness:
  "\<exists>s s'. google_Invoke (google_marshal (\<lambda>_. ''1'')) flash_client (google_New ''key'' [])
      \<lparr>RequestID = ''r'', Model = ''flash'', Messages = [], MaxTokens = None, Temperature = None\<rparr> () = (Inr s, ()) \<and>
    drain (google_Recv google_unmarshal) s =
      Some (([zeroDelta\<lparr>Content := Some ''Hel''\<rparr>,
              zeroDelta\<lparr>Content := Some ''lo'', FinishReason := Some ''STOP'', IsFinal := True, InputTokens := Some 5, OutputTokens := Some 3\<rparr>],
             None), s') \<and>
    go_closed s'"
proof -
  have "utf8_valid ''flash''" "utf8_valid ''model''" "utf8_valid ''Hel''" "utf8_valid ''lo''" "utf8_valid ''STOP''" by (simp_all add: utf8_valid_ascii)
  moreover have "\<forall>c \<in> set (flash_chunks @ flash_last # []). length (json_print (go_chunk_json ''flash'' c)) < 1000" by code_simp
  ultimately have ok: "list_all (go_chunk_ok ''flash'') (flash_chunks @ flash_last # [])" and v: "utf8_valid ''flash''"
    by (auto simp: go_chunk_ok_def go_candidate_ok_def go_content_ok_def go_usage_ok_def flash_chunks_def flash_last_def flash_chunk_def
        in_int32_def maxTokenSize_def)
  have p: "list_all (\<lambda>c. go_reason c = None) flash_chunks" "go_reason flash_last \<noteq> None"
    by (simp_all add: flash_chunks_def flash_last_def flash_chunk_def go_reason_def)
  from google_wire_session [OF v ok p flash_response_def, where client = flash_client and w = "()" and w' = "()"
      and req = "\<lparr>RequestID = ''r'', Model = ''flash'', Messages = [], MaxTokens = None, Temperature = None\<rparr>"
      and fmtFloat = "\<lambda>_. ''1''" and a = "google_New ''key'' []"]
  show ?thesis
    by (simp add: flash_client_def flash_chunks_def flash_last_def flash_chunk_def go_text_def go_final_def go_reason_def map_filter_simps zeroDelta_def)
qed

end
