(* ===== verification/Fake_Adapter.thy ===== *)
theory Fake_Adapter
  imports Adapters
begin

text \<open>
  The test-only adapter for the provider-fake harness
  (\<^verbatim>\<open>services/provider-gateway/internal/adapters/fake/fake.go\<close>) and the three scaffolded adapters whose
  \<^verbatim>\<open>Invoke\<close> always fails (\<^verbatim>\<open>azure\<close>, \<^verbatim>\<open>bedrock\<close>, \<^verbatim>\<open>vllm\<close>). The JSON decoder over the body is the
  list of the chunks it decodes and the error it ends with, which \<open>Fake_Wire\<close> defines; the stream is not read any further
  after an error.
\<close>

section \<open>Model\<close>

subsection \<open>The adapter\<close>

abbreviation fake_ProviderName :: string where "fake_ProviderName \<equiv> ''fake''"

record fake_Adapter =
  fk_baseURL :: string

definition fake_New :: "string \<Rightarrow> fake_Adapter" where
  "fake_New baseURL = \<lparr>fk_baseURL = baseURL\<rparr>"

record fake_wireMessage =
  fm_Role :: string
  fm_Content :: string

record fake_wireRequest =
  fq_RequestID :: string
  fq_Messages :: "fake_wireMessage list"
  fq_Mode :: string
  fq_FailStatus :: int

record fake_wireChunk =
  fc_RequestID :: string
  fc_Content :: "string option"
  fc_FinishReason :: "string option"
  fc_IsFinal :: bool
  fc_PrefixCacheHandle :: "string option"
  fc_InputTokens :: "int32 option"
  fc_OutputTokens :: "int32 option"

definition fake_parseMode :: "string \<Rightarrow> (string \<times> int) result" where
  "fake_parseMode model =
     (case strings_Cut model (CHR '':'') of
        (provider, rest, _) \<Rightarrow>
          if provider \<in> {''normal'', ''slow'', ''fail_mid_stream''} then Inr (provider, 0)
          else if provider = ''fail'' then
            (if rest = [] then Inr (''fail'', 0)
             else case strconv_Atoi rest of
                    Inl err \<Rightarrow> Inl (Wrap (''fake adapter: invalid fail status '' @ quoted rest @ '': '') err [])
                  | Inr status \<Rightarrow> Inr (''fail'', status))
          else Inl (ErrorString (''fake adapter: unknown mode '' @ quoted model @
                 '' (want normal, slow, fail, fail:<status>, or fail_mid_stream)'')))"

record fake_stream =
  fk_chunks :: "fake_wireChunk list"
  fk_end :: go_error
  fk_closed :: bool

definition fake_Invoke ::
  "(fake_wireRequest \<Rightarrow> string result) \<Rightarrow> (string \<Rightarrow> go_error option \<Rightarrow> fake_wireChunk list \<times> go_error)
     \<Rightarrow> 'w http_client \<Rightarrow> fake_Adapter \<Rightarrow> InvokeRequest \<Rightarrow> 'w \<Rightarrow> fake_stream result \<times> 'w" where
  "fake_Invoke marshal decode client a req w =
     (case fake_parseMode (Model req) of
        Inl err \<Rightarrow> (Inl err, w)
      | Inr (mode, failStatus) \<Rightarrow>
          (case marshal \<lparr>fq_RequestID = RequestID req,
                         fq_Messages = map (\<lambda>m. \<lparr>fm_Role = Role m, fm_Content = MsgContent m\<rparr>) (Messages req),
                         fq_Mode = mode, fq_FailStatus = failStatus\<rparr> of
             Inl err \<Rightarrow> (Inl (Wrap ''fake adapter: marshal request: '' err []), w)
           | Inr body \<Rightarrow>
               (case post_stream ''fake'' client
                       \<lparr>req_Method = ''POST'', req_URL = fk_baseURL a @ ''/v1/fake-complete'',
                        req_Header = [(''Content-Type'', ''application/json'')], req_Body = body\<rparr> w of
                  (Inl err, w1) \<Rightarrow> (Inl err, w1)
                | (Inr resp, w1) \<Rightarrow>
                    (case decode (resp_Body resp) (resp_BodyErr resp) of
                       (chunks, err) \<Rightarrow> (Inr \<lparr>fk_chunks = chunks, fk_end = err, fk_closed = False\<rparr>, w1)))))"

definition fake_Recv :: "fake_stream Recv" where
  "fake_Recv s =
     (case fk_chunks s of
        [] \<Rightarrow>
          (if fk_end s = EOF then (Inl EOF, s\<lparr>fk_closed := True\<rparr>)
           else (Inl (Wrap ''fake adapter: decode chunk: '' (fk_end s) []), s\<lparr>fk_closed := True\<rparr>))
      | chunk # rest \<Rightarrow>
          (let s = s\<lparr>fk_chunks := rest\<rparr>;
               s = (if fc_IsFinal chunk then s\<lparr>fk_closed := True\<rparr> else s)
           in (Inr \<lparr>Content = fc_Content chunk, FinishReason = fc_FinishReason chunk, IsFinal = fc_IsFinal chunk,
                    PrefixCacheHandle = fc_PrefixCacheHandle chunk, InputTokens = fc_InputTokens chunk,
                    OutputTokens = fc_OutputTokens chunk\<rparr>, s)))"

definition fake_Adapter_iface ::
  "(fake_wireRequest \<Rightarrow> string result) \<Rightarrow> (string \<Rightarrow> go_error option \<Rightarrow> fake_wireChunk list \<times> go_error)
     \<Rightarrow> 'w http_client \<Rightarrow> fake_Adapter \<Rightarrow> (fake_stream, 'w) Adapter" where
  "fake_Adapter_iface marshal decode client a =
     \<lparr>Adapter_Name = fake_ProviderName, Adapter_Invoke = fake_Invoke marshal decode client a\<rparr>"

subsection \<open>Scaffolds\<close>

definition azure_Adapter_iface :: "('st, 'w) Adapter" where
  "azure_Adapter_iface =
     \<lparr>Adapter_Name = ''azure'', Adapter_Invoke = \<lambda>_ w.
        (Inl (Sentinel ''azure'' ''azure adapter: scaffolded in Phase-02 Step J7, not implemented''), w)\<rparr>"

definition bedrock_Adapter_iface :: "('st, 'w) Adapter" where
  "bedrock_Adapter_iface =
     \<lparr>Adapter_Name = ''bedrock'', Adapter_Invoke = \<lambda>_ w.
        (Inl (Sentinel ''bedrock'' ''bedrock adapter: scaffolded in Phase-02 Step J7, not implemented''), w)\<rparr>"

definition vllm_Adapter_iface :: "('st, 'w) Adapter" where
  "vllm_Adapter_iface =
     \<lparr>Adapter_Name = ''vllm'', Adapter_Invoke = \<lambda>_ w.
        (Inl (Sentinel ''vllm'' ''vllm adapter: scaffolded in Phase-02 Step J7, wired in Phase-11''), w)\<rparr>"

section \<open>Facts\<close>

interpretation fake: closing_stream fake_Recv "\<lambda>s. length (fk_chunks s)" fk_closed "\<lambda>_. True"
  by unfold_locales
    (auto simp: fake_Recv_def Let_def split: list.splits if_splits)

text \<open>The modes that the test harness names are the ones \<^verbatim>\<open>parseMode\<close> accepts, and the status survives.\<close>

lemma fake_parseMode_roundtrip:
  "fake_parseMode ''normal'' = Inr (''normal'', 0)" "fake_parseMode ''slow'' = Inr (''slow'', 0)"
  "fake_parseMode ''fail_mid_stream'' = Inr (''fail_mid_stream'', 0)" "fake_parseMode ''fail'' = Inr (''fail'', 0)"
  "in_int64 st \<Longrightarrow> fake_parseMode (''fail:'' @ show_int st) = Inr (''fail'', st)"
proof -
  show "fake_parseMode ''normal'' = Inr (''normal'', 0)" "fake_parseMode ''slow'' = Inr (''slow'', 0)"
    "fake_parseMode ''fail_mid_stream'' = Inr (''fail_mid_stream'', 0)" "fake_parseMode ''fail'' = Inr (''fail'', 0)"
    by (simp_all add: fake_parseMode_def strings_Cut_def)
  assume st: "in_int64 st"
  have "strings_Cut (''fail'' @ CHR '':'' # show_int st) (CHR '':'') = (''fail'', show_int st, True)"
    by (rule strings_Cut_append) simp
  moreover have "show_int st \<noteq> []" by (simp add: show_int_def)
  ultimately show "fake_parseMode (''fail:'' @ show_int st) = Inr (''fail'', st)"
    using st by (simp add: fake_parseMode_def strconv_Atoi_show_int)
qed

end
