(* ===== verification/Fake_Wire.thy ===== *)
theory Fake_Wire
  imports Fake_Adapter Wire
begin

text \<open>
  The JSON between the test adapter (\<^verbatim>\<open>services/provider-gateway/internal/adapters/fake/fake.go\<close>) and its harness: the values of a body
  one after the other, as \<^verbatim>\<open>json.Decoder\<close> gives them, and the struct tags of the adapter's wire types.
\<close>

section \<open>Model\<close>

text \<open>All the values of a body, as one call of \<^verbatim>\<open>Decode\<close> after the other gives them, and the error that ends them.\<close>

function decode_all :: "decode_errors \<Rightarrow> 'a json_dec \<Rightarrow> 'a \<Rightarrow> string \<Rightarrow> go_error option \<Rightarrow> 'a list \<times> go_error" where
  "decode_all bad dec zero s e =
     (case json_Decode bad dec zero s e of
        Inl err \<Rightarrow> ([], err)
      | Inr (x, r) \<Rightarrow> (case decode_all bad dec zero r e of (xs, err) \<Rightarrow> (x # xs, err)))"
  by pat_completeness auto
termination
  by (relation "measure (\<lambda>(bad, dec, zero, s, e). length s)") (auto intro: json_Decode_shorter)

declare decode_all.simps [simp del]

subsection \<open>The adapter's wire types\<close>

definition fake_message_json :: "fake_wireMessage \<Rightarrow> json" where
  "fake_message_json m = JsonObj [(''role'', JsonStr (fm_Role m)), (''content'', JsonStr (fm_Content m))]"

definition fake_request_json :: "fake_wireRequest \<Rightarrow> json" where
  "fake_request_json q =
     JsonObj ([(''request_id'', JsonStr (fq_RequestID q)), (''messages'', JsonArr (map fake_message_json (fq_Messages q))),
               (''mode'', JsonStr (fq_Mode q))] @
              (if fq_FailStatus q = 0 then [] else [(''fail_status'', json_int (fq_FailStatus q))]))"

definition fake_marshal :: "fake_wireRequest \<Rightarrow> string result" where
  "fake_marshal q = Inr (json_print (fake_request_json q))"

definition fake_chunk_fields :: "fake_wireChunk json_field list" where
  "fake_chunk_fields =
     [in_field ''request_id'' (dec_string ''string'') fc_RequestID (\<lambda>x r. r\<lparr>fc_RequestID := x\<rparr>),
      in_field ''content'' (dec_ptr (dec_string ''string'') []) fc_Content (\<lambda>x r. r\<lparr>fc_Content := x\<rparr>),
      in_field ''finish_reason'' (dec_ptr (dec_string ''string'') []) fc_FinishReason (\<lambda>x r. r\<lparr>fc_FinishReason := x\<rparr>),
      in_field ''is_final'' (dec_bool ''bool'') fc_IsFinal (\<lambda>x r. r\<lparr>fc_IsFinal := x\<rparr>),
      in_field ''prefix_cache_handle'' (dec_ptr (dec_string ''string'') []) fc_PrefixCacheHandle (\<lambda>x r. r\<lparr>fc_PrefixCacheHandle := x\<rparr>),
      in_field ''input_tokens'' (dec_ptr (dec_int ''int32'' in_int32) 0) fc_InputTokens (\<lambda>x r. r\<lparr>fc_InputTokens := x\<rparr>),
      in_field ''output_tokens'' (dec_ptr (dec_int ''int32'' in_int32) 0) fc_OutputTokens (\<lambda>x r. r\<lparr>fc_OutputTokens := x\<rparr>)]"

definition fake_zeroChunk :: fake_wireChunk where
  "fake_zeroChunk =
     \<lparr>fc_RequestID = [], fc_Content = None, fc_FinishReason = None, fc_IsFinal = False, fc_PrefixCacheHandle = None,
      fc_InputTokens = None, fc_OutputTokens = None\<rparr>"

definition fake_decode :: "decode_errors \<Rightarrow> string \<Rightarrow> go_error option \<Rightarrow> fake_wireChunk list \<times> go_error" where
  "fake_decode bad = decode_all bad (dec_struct ''fake.wireChunk'' fake_chunk_fields) fake_zeroChunk"

section \<open>Facts\<close>

text \<open>The line feed after a value is skipped before the next.\<close>

lemma json_Decode_newline: "json_Decode bad dec zero (newline # s) e = json_Decode bad dec zero s e"
proof -
  have k: "skip_ws (newline # s) = skip_ws s" by (simp add: skip_ws_def)
  have "parse_value (2 * length (newline # s) + 2) d (newline # s) = parse_value (2 * length (newline # s) + 2) d s" for d
    by (simp add: k)
  also have "\<dots> d = parse_value (2 * length s + 2) d s" for d by (rule parse_fuel(1)) simp_all
  finally show ?thesis unfolding json_Decode_def k by (simp only:)
qed

lemma decode_all_newline: "decode_all bad dec zero (newline # s) e = decode_all bad dec zero s e"
  by (subst (1 2) decode_all.simps) (simp add: json_Decode_newline)

lemma decode_all_lines:
  assumes "\<And>x. x \<in> set xs \<Longrightarrow> wf_json (enc x) \<and> json_depth (enc x) \<le> maxNestingDepth \<and> (\<exists>ms. enc x = JsonObj ms) \<and> dec (enc x) zero = Inr (f x)"
  shows "decode_all bad dec zero (concat (map (\<lambda>x. json_print (enc x) @ [newline]) xs) @ rest) e =
    (case decode_all bad dec zero rest e of (ys, err) \<Rightarrow> (map f xs @ ys, err))"
  using assms
proof (induction xs)
  case (Cons x xs)
  let ?rest = "concat (map (\<lambda>x. json_print (enc x) @ [newline]) xs) @ rest"
  have "ends (newline # ?rest)" by (simp add: num_char_def is_digit_def)
  with Cons.prems [of x] have "json_Decode bad dec zero (json_print (enc x) @ newline # ?rest) e = Inr (f x, newline # ?rest)"
    by (auto simp: json_Decode_print simp del: json_print.simps)
  then have "decode_all bad dec zero (concat (map (\<lambda>x. json_print (enc x) @ [newline]) (x # xs)) @ rest) e =
      (case decode_all bad dec zero ?rest e of (ys, err) \<Rightarrow> (f x # ys, err))"
    by (simp add: decode_all.simps [of _ _ _ "json_print (enc x) @ _"] decode_all_newline del: json_print.simps)
  with Cons show ?case by (simp add: case_prod_beta)
qed simp

end
