(* ===== verification/Coalesce.thy ===== *)
theory Coalesce
  imports Adapters
begin

text \<open>
  Request coalescing of provider-gateway (\<^verbatim>\<open>services/provider-gateway/internal/coalesce\<close>): the broadcast
  that fans one upstream call out to its subscribers, the group that decides who leads a call and who
  follows, and the key that makes two calls identical.

  The code is concurrent: every \<^verbatim>\<open>Invoke\<close> may be interleaved with the leader goroutines and with the
  subscribers' \<^verbatim>\<open>Recv\<close>. Each critical section (a body under \<^verbatim>\<open>g.mu\<close> or \<^verbatim>\<open>b.mu\<close>) and each return of the
  upstream is one event; \<open>co_exec\<close> executes an event, or is \<open>None\<close> when it cannot happen, and
  \<open>co_reachable\<close> are the states of all interleavings. The upstream's answers are part of the events, so
  the theorems hold for every upstream. The ghost fields \<open>ld_upstream\<close> and \<open>sb_got\<close> record what the
  upstream returned and what a subscriber received.
\<close>

section \<open>Model\<close>

subsection \<open>The broadcast\<close>

record broadcast =
  deltas :: "Delta list"
  b_done :: bool
  b_err :: "go_error option"

definition newBroadcast :: broadcast where
  "newBroadcast = \<lparr>deltas = [], b_done = False, b_err = None\<rparr>"

definition publish :: "Delta \<Rightarrow> broadcast \<Rightarrow> broadcast" where
  "publish d b = b\<lparr>deltas := deltas b @ [d]\<rparr>"

definition finish :: "go_error option \<Rightarrow> broadcast \<Rightarrow> broadcast" where
  "finish err b = b\<lparr>b_done := True, b_err := err\<rparr>"

text \<open>\<^verbatim>\<open>Recv\<close> of a subscriber at index \<open>idx\<close>; \<open>None\<close> is waiting on the condition variable.\<close>

definition subscriber_Recv :: "broadcast \<Rightarrow> nat \<Rightarrow> (Delta result \<times> nat) option" where
  "subscriber_Recv b idx =
     (if idx \<ge> length (deltas b) \<and> \<not> b_done b then None
      else if idx < length (deltas b) then Some (Inr (deltas b ! idx), Suc idx)
      else case b_err b of Some err \<Rightarrow> Some (Inl err, idx) | None \<Rightarrow> Some (Inl EOF, idx))"

subsection \<open>The group\<close>

text \<open>Where a leader goroutine is in \<^verbatim>\<open>lead\<close>.\<close>

datatype lead_pc =
    Calling
  | Receiving
  | Publishing Delta
  | Releasing "go_error option"
  | Finishing "go_error option"
  | Exited

record leader =
  ld_key :: string
  ld_pc :: lead_pc
  ld_upstream :: "Delta list"

record subscriber =
  sb_b :: nat
  sb_idx :: nat
  sb_got :: "Delta list"
  sb_end :: "go_error option"

text \<open>Broadcasts are heap objects: the pointer is the index, the same for the broadcast and its leader.\<close>

record Group =
  inFlight :: "string \<rightharpoonup> nat"
  broadcasts :: "broadcast list"
  leaders :: "leader list"
  subscribers :: "subscriber list"

definition NewGroup :: Group where
  "NewGroup = \<lparr>inFlight = Map.empty, broadcasts = [], leaders = [], subscribers = []\<rparr>"

definition Group_Invoke :: "string \<Rightarrow> Group \<Rightarrow> Group" where
  "Group_Invoke key g =
     (case inFlight g key of
        Some b \<Rightarrow> g\<lparr>subscribers := subscribers g @ [\<lparr>sb_b = b, sb_idx = 0, sb_got = [], sb_end = None\<rparr>]\<rparr>
      | None \<Rightarrow>
          (let b = length (broadcasts g)
           in g\<lparr>inFlight := (inFlight g)(key \<mapsto> b),
                broadcasts := broadcasts g @ [newBroadcast],
                leaders := leaders g @ [\<lparr>ld_key = key, ld_pc = Calling, ld_upstream = []\<rparr>],
                subscribers := subscribers g @ [\<lparr>sb_b = b, sb_idx = 0, sb_got = [], sb_end = None\<rparr>]\<rparr>))"

definition Group_release :: "string \<Rightarrow> Group \<Rightarrow> Group" where
  "Group_release key g = g\<lparr>inFlight := (inFlight g)(key := None)\<rparr>"

text \<open>One step of \<^verbatim>\<open>lead\<close>. The upstream's answer is consulted where the code waits for it.\<close>

datatype upstream_answer = CallOk | CallErr go_error | RecvDelta Delta | RecvErr go_error | NoAnswer

fun lead_step :: "nat \<Rightarrow> upstream_answer \<Rightarrow> leader \<Rightarrow> Group \<Rightarrow> (leader \<times> Group) option" where
  "lead_step i ans l g =
     (case (ld_pc l, ans) of
        (Calling, CallErr err) \<Rightarrow> Some (l\<lparr>ld_pc := Releasing (Some err)\<rparr>, g)
      | (Calling, CallOk) \<Rightarrow> Some (l\<lparr>ld_pc := Receiving\<rparr>, g)
      | (Receiving, RecvErr err) \<Rightarrow>
          Some (l\<lparr>ld_pc := Releasing (if errors_Is err EOF then None else Some err)\<rparr>, g)
      | (Receiving, RecvDelta d) \<Rightarrow> Some (l\<lparr>ld_pc := Publishing d, ld_upstream := ld_upstream l @ [d]\<rparr>, g)
      | (Publishing d, NoAnswer) \<Rightarrow>
          Some (l\<lparr>ld_pc := (if IsFinal d then Releasing None else Receiving)\<rparr>,
                g\<lparr>broadcasts := (broadcasts g)[i := publish d (broadcasts g ! i)]\<rparr>)
      | (Releasing err, NoAnswer) \<Rightarrow> Some (l\<lparr>ld_pc := Finishing err\<rparr>, Group_release (ld_key l) g)
      | (Finishing err, NoAnswer) \<Rightarrow>
          Some (l\<lparr>ld_pc := Exited\<rparr>, g\<lparr>broadcasts := (broadcasts g)[i := finish err (broadcasts g ! i)]\<rparr>)
      | _ \<Rightarrow> None)"

datatype co_event = Invoke string | Lead nat upstream_answer | Read nat

fun co_exec :: "co_event \<Rightarrow> Group \<Rightarrow> Group option" where
  "co_exec (Invoke key) g = Some (Group_Invoke key g)"
| "co_exec (Lead i ans) g =
     (if i < length (leaders g)
      then (case lead_step i ans (leaders g ! i) g of
              None \<Rightarrow> None
            | Some (l, g') \<Rightarrow> Some (g'\<lparr>leaders := (leaders g')[i := l]\<rparr>))
      else None)"
| "co_exec (Read j) g =
     (if j < length (subscribers g) \<and> sb_end (subscribers g ! j) = None
      then (let s = subscribers g ! j
            in case subscriber_Recv (broadcasts g ! sb_b s) (sb_idx s) of
                 None \<Rightarrow> None
               | Some (Inr d, idx) \<Rightarrow>
                   Some (g\<lparr>subscribers := (subscribers g)[j := s\<lparr>sb_idx := idx, sb_got := sb_got s @ [d]\<rparr>]\<rparr>)
               | Some (Inl err, idx) \<Rightarrow>
                   Some (g\<lparr>subscribers := (subscribers g)[j := s\<lparr>sb_idx := idx, sb_end := Some err\<rparr>]\<rparr>))
      else None)"

declare lead_step.simps [simp del] co_exec.simps(2,3) [simp del]

inductive co_reachable :: "Group \<Rightarrow> bool" where
  co_init: "co_reachable NewGroup"
| co_step: "co_reachable g \<Longrightarrow> co_exec e g = Some g' \<Longrightarrow> co_reachable g'"

fun co_run :: "co_event list \<Rightarrow> Group \<Rightarrow> Group option" where
  "co_run [] g = Some g"
| "co_run (e # es) g = (case co_exec e g of None \<Rightarrow> None | Some g' \<Rightarrow> co_run es g')"

subsection \<open>A leader on its own\<close>

text \<open>
  The whole of \<^verbatim>\<open>lead\<close> on its broadcast, for a call that ran: what it published and how it finished,
  with the state its upstream was left in.
\<close>

partial_function (option) lead_loop :: "'st Recv \<Rightarrow> 'st \<Rightarrow> broadcast \<Rightarrow> (broadcast \<times> 'st) option" where
  "lead_loop recv s b =
     (case recv s of
        (Inl err, s') \<Rightarrow> Some (finish (if errors_Is err EOF then None else Some err) b, s')
      | (Inr d, s') \<Rightarrow>
          (let b' = publish d b
           in if IsFinal d then Some (finish None b', s') else lead_loop recv s' b'))"

subsection \<open>The key\<close>

text \<open>
  The text that is hashed. SHA-256 with its hexadecimal rendering and the verb \<^verbatim>\<open>%f\<close> are
  library code and arguments.
\<close>

definition Key_lines :: "(float32 \<Rightarrow> string) \<Rightarrow> InvokeRequest \<Rightarrow> string list" where
  "Key_lines fmt_f req =
     (''model='' @ Model req) #
     map (\<lambda>m. ''msg='' @ Role m @ '':'' @ MsgContent m) (Messages req) @
     (case MaxTokens req of None \<Rightarrow> [] | Some n \<Rightarrow> [''max_tokens='' @ show_int n]) @
     (case Temperature req of None \<Rightarrow> [] | Some t \<Rightarrow> [''temperature='' @ fmt_f t])"

definition coalesce_Key :: "(string \<Rightarrow> string) \<Rightarrow> (float32 \<Rightarrow> string) \<Rightarrow> InvokeRequest \<Rightarrow> string" where
  "coalesce_Key sha256_hex fmt_f req = sha256_hex (concat (map (\<lambda>l. l @ [newline]) (Key_lines fmt_f req)))"

section \<open>The invariant of the group\<close>

definition published :: "leader \<Rightarrow> Delta list" where
  "published l = (case ld_pc l of Publishing d \<Rightarrow> butlast (ld_upstream l) | _ \<Rightarrow> ld_upstream l)"

definition unreleased :: "leader \<Rightarrow> bool" where
  "unreleased l \<longleftrightarrow> (case ld_pc l of Finishing _ \<Rightarrow> False | Exited \<Rightarrow> False | _ \<Rightarrow> True)"

definition leader_ok :: "leader \<Rightarrow> broadcast \<Rightarrow> bool" where
  "leader_ok l b \<longleftrightarrow>
     deltas b = published l \<and>
     (b_done b \<longleftrightarrow> ld_pc l = Exited) \<and>
     (ld_pc l = Calling \<longrightarrow> ld_upstream l = []) \<and>
     (\<forall>d. ld_pc l = Publishing d \<longrightarrow> ld_upstream l \<noteq> [] \<and> last (ld_upstream l) = d)"

definition leader_inv :: "Group \<Rightarrow> nat \<Rightarrow> bool" where
  "leader_inv g i \<longleftrightarrow>
     leader_ok (leaders g ! i) (broadcasts g ! i) \<and>
     (unreleased (leaders g ! i) \<longleftrightarrow> inFlight g (ld_key (leaders g ! i)) = Some i)"

definition sub_inv :: "Group \<Rightarrow> subscriber \<Rightarrow> bool" where
  "sub_inv g s \<longleftrightarrow>
     sb_b s < length (broadcasts g) \<and>
     sb_idx s \<le> length (deltas (broadcasts g ! sb_b s)) \<and>
     sb_got s = take (sb_idx s) (deltas (broadcasts g ! sb_b s)) \<and>
     (\<forall>e. sb_end s = Some e \<longrightarrow>
        b_done (broadcasts g ! sb_b s) \<and> sb_idx s = length (deltas (broadcasts g ! sb_b s)) \<and>
        e = (case b_err (broadcasts g ! sb_b s) of None \<Rightarrow> EOF | Some e \<Rightarrow> e))"

definition co_inv :: "Group \<Rightarrow> bool" where
  "co_inv g \<longleftrightarrow>
     length (leaders g) = length (broadcasts g) \<and>
     (\<forall>i < length (broadcasts g). leader_inv g i) \<and>
     (\<forall>k i. inFlight g k = Some i \<longrightarrow> i < length (broadcasts g) \<and> ld_key (leaders g ! i) = k \<and> unreleased (leaders g ! i)) \<and>
     (\<forall>s \<in> set (subscribers g). sub_inv g s)"

lemmas co_inv_defs = co_inv_def leader_inv_def leader_ok_def sub_inv_def published_def unreleased_def Let_def

lemma co_inv_NewGroup: "co_inv NewGroup"
  by (simp add: co_inv_def NewGroup_def)

lemma co_inv_Invoke:
  assumes "co_inv g"
  shows "co_inv (Group_Invoke key g)"
proof (cases "inFlight g key")
  case (Some b)
  with assms show ?thesis by (auto simp: Group_Invoke_def co_inv_defs)
next
  case None
  let ?g = "Group_Invoke key g" and ?n = "length (broadcasts g)"
  have g: "inFlight ?g = (inFlight g)(key \<mapsto> ?n)" "broadcasts ?g = broadcasts g @ [newBroadcast]"
    "leaders ?g = leaders g @ [\<lparr>ld_key = key, ld_pc = Calling, ld_upstream = []\<rparr>]"
    "subscribers ?g = subscribers g @ [\<lparr>sb_b = ?n, sb_idx = 0, sb_got = [], sb_end = None\<rparr>]"
    using None by (simp_all add: Group_Invoke_def Let_def)
  have len: "length (leaders g) = ?n" using assms by (simp add: co_inv_def)
  have old: "leader_inv ?g i" if "i < ?n" for i
  proof -
    have "leader_inv g i" using assms that len by (simp add: co_inv_def)
    moreover have "ld_key (leaders g ! i) \<noteq> key \<or> \<not> unreleased (leaders g ! i)"
      using calculation None by (auto simp: leader_inv_def Let_def)
    ultimately show ?thesis using that len by (auto simp: leader_inv_def g nth_append Let_def)
  qed
  have new: "leader_inv ?g ?n"
    using len by (auto simp: leader_inv_def leader_ok_def g nth_append Let_def published_def unreleased_def newBroadcast_def)
  have subs: "\<forall>s \<in> set (subscribers ?g). sub_inv ?g s"
    using assms by (auto simp: g co_inv_def sub_inv_def nth_append newBroadcast_def)
  have fl: "\<forall>k i. inFlight ?g k = Some i \<longrightarrow> i < length (broadcasts ?g) \<and> ld_key (leaders ?g ! i) = k \<and> unreleased (leaders ?g ! i)"
    using assms len by (auto simp: g co_inv_def nth_append unreleased_def intro: less_SucI)
  have "leader_inv ?g i" if "i < length (broadcasts ?g)" for i
    using that old [of i] new len by (cases "i = ?n") (auto simp: g)
  with subs fl len show ?thesis by (simp add: co_inv_def g)
qed

text \<open>A broadcast only grows, and not at all once it is done; then a subscriber's view stays valid.\<close>

definition grows :: "broadcast \<Rightarrow> broadcast \<Rightarrow> bool" where
  "grows b b' \<longleftrightarrow> (\<exists>ds. deltas b' = deltas b @ ds) \<and> (b_done b \<longrightarrow> b' = b)"

lemma sub_inv_grows:
  assumes "sub_inv g s" "length (broadcasts g') = length (broadcasts g)"
    and "grows (broadcasts g ! sb_b s) (broadcasts g' ! sb_b s)"
  shows "sub_inv g' s"
  using assms by (auto simp: sub_inv_def grows_def)

lemma co_inv_update:
  assumes inv: "co_inv g" and i: "i < length (leaders g)"
    and g': "leaders g' = (leaders g)[i := l]" "broadcasts g' = (broadcasts g)[i := b]" "subscribers g' = subscribers g"
    and l: "ld_key l = ld_key (leaders g ! i)" "leader_ok l b" "grows (broadcasts g ! i) b"
    and f: "inFlight g' = (if unreleased l then inFlight g else (inFlight g)(ld_key l := None)) \<and> unreleased (leaders g ! i)
        \<or> inFlight g' = inFlight g \<and> unreleased l = unreleased (leaders g ! i)"
  shows "co_inv g'"
proof -
  have len: "length (leaders g) = length (broadcasts g)" using inv by (simp add: co_inv_def)
  have old: "leader_inv g j" if "j < length (leaders g)" for j using inv that by (simp add: co_inv_def)
  have fl: "inFlight g k = Some j \<Longrightarrow> j < length (leaders g) \<and> ld_key (leaders g ! j) = k \<and> unreleased (leaders g ! j)" for k j
    using inv by (simp add: co_inv_def)
  have here: "unreleased (leaders g ! i) = (inFlight g (ld_key l) = Some i)"
    using old [OF i] l(1) by (simp add: leader_inv_def)
  have "leader_inv g' i"
    using f here i len l by (auto simp: leader_inv_def g' split: if_splits)
  moreover have "leader_inv g' j" if "j < length (leaders g)" "j \<noteq> i" for j
    using f here old [OF that(1)] that by (auto simp: leader_inv_def g' split: if_splits)
  moreover have "j < length (leaders g) \<and> ld_key (leaders g' ! j) = k \<and> unreleased (leaders g' ! j)"
    if "inFlight g' k = Some j" for k j
  proof -
    have kj: "inFlight g k = Some j" using f that by (auto split: if_splits)
    note o = fl [OF kj]
    have "unreleased l" if "j = i"
      using f \<open>inFlight g' k = Some j\<close> o that l(1) by (auto split: if_splits)
    with o l(1) i show ?thesis by (cases "j = i") (simp_all add: g')
  qed
  moreover have "sub_inv g' s" if "s \<in> set (subscribers g)" for s
  proof (rule sub_inv_grows)
    show si: "sub_inv g s" using inv that by (simp add: co_inv_def)
    show "length (broadcasts g') = length (broadcasts g)" by (simp add: g')
    show "grows (broadcasts g ! sb_b s) (broadcasts g' ! sb_b s)"
      using l(3) i len by (cases "sb_b s = i") (auto simp: g' grows_def)
  qed
  ultimately show ?thesis
    using len by (auto simp: co_inv_def g')
qed

lemma co_inv_Lead:
  assumes "co_inv g" "co_exec (Lead i ans) g = Some g'"
  shows "co_inv g'"
proof -
  let ?l = "leaders g ! i" and ?b = "broadcasts g ! i"
  have i: "i < length (leaders g)"
    using assms by (auto simp: co_exec.simps split: if_splits)
  then have ok: "leader_ok ?l ?b" using assms(1) by (simp add: co_inv_def leader_inv_def)
  obtain l g1 where s: "lead_step i ans ?l g = Some (l, g1)" "g' = g1\<lparr>leaders := (leaders g1)[i := l]\<rparr>"
    using assms(2) i by (auto simp: co_exec.simps split: option.splits)
  have g1: "leaders g1 = leaders g" "subscribers g1 = subscribers g" "ld_key l = ld_key ?l"
    using s(1) by (auto simp: lead_step.simps Group_release_def split: lead_pc.splits upstream_answer.splits)
  obtain b where b: "broadcasts g1 = (broadcasts g)[i := b]" "leader_ok l b" "grows ?b b"
  proof -
    have "\<exists>b. broadcasts g1 = (broadcasts g)[i := b] \<and> leader_ok l b \<and> grows ?b b"
    proof (cases "ld_pc ?l")
      case (Publishing d)
      with s(1) ok show ?thesis
        by (intro exI [of _ "publish d ?b"])
          (auto simp: lead_step.simps leader_ok_def published_def publish_def grows_def
            split: upstream_answer.splits if_splits)
    next
      case (Finishing err)
      with s(1) ok show ?thesis
        by (intro exI [of _ "finish err ?b"])
          (auto simp: lead_step.simps leader_ok_def published_def finish_def grows_def
            split: upstream_answer.splits if_splits)
    qed (use s(1) ok in \<open>auto intro!: exI [of _ ?b] simp: lead_step.simps leader_ok_def published_def grows_def
        Group_release_def split: upstream_answer.splits if_splits\<close>)
    then show thesis using that by blast
  qed
  have f: "inFlight g1 = (if unreleased l then inFlight g else (inFlight g)(ld_key l := None)) \<and> unreleased ?l
      \<or> inFlight g1 = inFlight g \<and> unreleased l = unreleased ?l"
    using s(1) by (auto simp: lead_step.simps unreleased_def Group_release_def split: lead_pc.splits upstream_answer.splits if_splits)
  show ?thesis
    by (rule co_inv_update [OF assms(1) i _ _ _ g1(3) b(2,3)]) (use f in \<open>simp_all add: s(2) g1 b(1)\<close>)
qed

lemma co_inv_Read:
  assumes "co_inv g" "co_exec (Read j) g = Some g'"
  shows "co_inv g'"
proof -
  let ?s = "subscribers g ! j"
  have j: "j < length (subscribers g)" "sb_end ?s = None"
    using assms(2) by (auto simp: co_exec.simps split: if_splits)
  then have si: "sub_inv g ?s" using assms(1) by (simp add: co_inv_def)
  obtain s' where g': "g' = g\<lparr>subscribers := (subscribers g)[j := s']\<rparr>" "sub_inv g s'"
  proof (cases "subscriber_Recv (broadcasts g ! sb_b ?s) (sb_idx ?s)")
    case None
    with assms(2) j show ?thesis by (simp add: co_exec.simps)
  next
    case (Some p)
    then obtain r idx where p: "subscriber_Recv (broadcasts g ! sb_b ?s) (sb_idx ?s) = Some (r, idx)" by fastforce
    show ?thesis
    proof (cases r)
      case (Inl e)
      with p si j have "sub_inv g (?s\<lparr>sb_idx := idx, sb_end := Some e\<rparr>)"
        by (auto simp: subscriber_Recv_def sub_inv_def split: if_splits option.splits)
      moreover from p Inl assms(2) j have "g' = g\<lparr>subscribers := (subscribers g)[j := ?s\<lparr>sb_idx := idx, sb_end := Some e\<rparr>]\<rparr>"
        by (simp add: co_exec.simps Let_def)
      ultimately show ?thesis using that by blast
    next
      case (Inr d)
      with p si j have "sub_inv g (?s\<lparr>sb_idx := idx, sb_got := sb_got ?s @ [d]\<rparr>)"
        by (auto simp: subscriber_Recv_def sub_inv_def take_Suc_conv_app_nth split: if_splits option.splits)
      moreover from p Inr assms(2) j
      have "g' = g\<lparr>subscribers := (subscribers g)[j := ?s\<lparr>sb_idx := idx, sb_got := sb_got ?s @ [d]\<rparr>]\<rparr>"
        by (simp add: co_exec.simps Let_def)
      ultimately show ?thesis using that by blast
    qed
  qed
  have "sub_inv g x" if "x \<in> set ((subscribers g)[j := s'])" for x
    using assms(1) g'(2) that set_update_subset_insert [of "subscribers g" j s'] by (auto simp: co_inv_def)
  then show ?thesis
    using assms(1) by (simp add: g'(1) co_inv_def leader_inv_def sub_inv_def)
qed

lemma co_reachable_inv: "co_reachable g \<Longrightarrow> co_inv g"
proof (induction rule: co_reachable.induct)
  case co_init
  then show ?case by (rule co_inv_NewGroup)
next
  case (co_step g e g')
  then show ?case
    by (cases e) (auto intro: co_inv_Invoke co_inv_Lead co_inv_Read)
qed

section \<open>The leader on its own\<close>

definition lead_outcome :: "go_error option \<Rightarrow> go_error option" where
  "lead_outcome err = (case err of None \<Rightarrow> None | Some e \<Rightarrow> if errors_Is e EOF then None else Some e)"

text \<open>The loop of \<^verbatim>\<open>lead\<close> publishes exactly what reading the upstream to its end gives.\<close>

lemma lead_loop_drain_all:
  assumes "drain recv s = Some ((ds, err), s')"
  shows "\<forall>b. lead_loop recv s b = Some (finish (lead_outcome err) (b\<lparr>deltas := deltas b @ ds\<rparr>), s')"
  using assms
proof (induction rule: drain_items_induct)
  case (error s e s')
  then show ?case by (simp add: lead_loop.simps [of recv s] lead_outcome_def)
next
  case (final s d s')
  then show ?case by (simp add: lead_loop.simps [of recv s] lead_outcome_def publish_def)
next
  case (more s d s1 ds err s')
  then show ?case by (simp add: lead_loop.simps [of recv s] publish_def Let_def)
qed

lemma lead_loop_drain:
  assumes "drain recv s = Some ((ds, err), s')"
  shows "lead_loop recv s newBroadcast = Some (\<lparr>deltas = ds, b_done = True, b_err = lead_outcome err\<rparr>, s')"
  using lead_loop_drain_all [OF assms] by (simp add: newBroadcast_def finish_def)

section \<open>Reading a finished broadcast\<close>





section \<open>The text of the key\<close>

lemma lines_inj:
  "concat (map (\<lambda>l. l @ [newline]) ls) = concat (map (\<lambda>l. l @ [newline]) ms) \<Longrightarrow>
     \<forall>l \<in> set ls. newline \<notin> set l \<Longrightarrow> \<forall>l \<in> set ms. newline \<notin> set l \<Longrightarrow> ls = ms"
proof (induction ls arbitrary: ms)
  case Nil
  then show ?case by (cases ms) simp_all
next
  case (Cons l ls)
  then obtain m ms' where ms: "ms = m # ms'" by (cases ms) simp_all
  have "l @ newline # concat (map (\<lambda>l. l @ [newline]) ls) = m @ newline # concat (map (\<lambda>l. l @ [newline]) ms')"
    using Cons.prems(1) ms by simp
  then have "l = m \<and> concat (map (\<lambda>l. l @ [newline]) ls) = concat (map (\<lambda>l. l @ [newline]) ms')"
    using Cons.prems(2,3) ms by (intro separator_split_unique) simp_all
  with Cons ms show ?case by simp
qed

text \<open>Requests whose fields cannot be confused in the text: no line feeds, and no colon in a role.\<close>

definition key_plain :: "(float32 \<Rightarrow> string) \<Rightarrow> InvokeRequest \<Rightarrow> bool" where
  "key_plain fmt_f req \<longleftrightarrow>
     newline \<notin> set (Model req) \<and>
     list_all (\<lambda>m. newline \<notin> set (Role m) \<and> CHR '':'' \<notin> set (Role m) \<and> newline \<notin> set (MsgContent m)) (Messages req) \<and>
     (case Temperature req of None \<Rightarrow> True | Some t \<Rightarrow> newline \<notin> set (fmt_f t))"

lemma show_int_no_newline: "newline \<notin> set (show_int k)"
proof
  assume "newline \<in> set (show_int k)"
  then obtain n where "newline \<in> set (show_nat n)" by (auto simp: show_int_def split: if_splits)
  then obtain d where "d < 10" "newline = digit_char d" using show_nat_chars by blast
  then have "(of_char newline :: nat) = 48 + d" by (simp add: digit_char_def)
  then show False by simp
qed

lemma Key_lines_no_newline: "key_plain fmt_f req \<Longrightarrow> l \<in> set (Key_lines fmt_f req) \<Longrightarrow> newline \<notin> set l"
  by (auto simp: Key_lines_def key_plain_def list_all_iff show_int_no_newline split: option.splits)

definition msg_of_line :: "string \<Rightarrow> Message option" where
  "msg_of_line l =
     (if strings_HasPrefix l ''msg='' then
        (case strings_Cut (drop 4 l) (CHR '':'') of (r, c, _) \<Rightarrow> Some \<lparr>Role = r, MsgContent = c\<rparr>)
      else None)"

lemma msg_of_line_msg: "CHR '':'' \<notin> set (Role m) \<Longrightarrow> msg_of_line (''msg='' @ Role m @ '':'' @ MsgContent m) = Some m"
  by (simp add: msg_of_line_def strings_HasPrefix_def strings_Cut_append)

lemma map_filter_append: "List.map_filter f (xs @ ys) = List.map_filter f xs @ List.map_filter f ys"
  by (simp add: map_filter_def)

lemma msgs_of_Key_lines:
  assumes "key_plain fmt_f req"
  shows "List.map_filter msg_of_line (tl (Key_lines fmt_f req)) = Messages req"
proof -
  have "List.map_filter msg_of_line (map (\<lambda>m. ''msg='' @ Role m @ '':'' @ MsgContent m) ms) = ms"
    if "\<forall>m \<in> set ms. CHR '':'' \<notin> set (Role m)" for ms
    using that by (induction ms) (simp_all add: map_filter_def msg_of_line_msg [simplified])
  moreover have "\<forall>m \<in> set (Messages req). CHR '':'' \<notin> set (Role m)"
    using assms by (simp add: key_plain_def list_all_iff)
  ultimately show ?thesis
    by (simp add: Key_lines_def map_filter_append map_filter_def msg_of_line_def strings_HasPrefix_def split: option.split)
qed

lemma Key_lines_inj:
  assumes "key_plain fmt_f r1" "key_plain fmt_f r2" "Key_lines fmt_f r1 = Key_lines fmt_f r2"
  shows "Model r1 = Model r2 \<and> Messages r1 = Messages r2 \<and> MaxTokens r1 = MaxTokens r2 \<and>
    map_option fmt_f (Temperature r1) = map_option fmt_f (Temperature r2)"
proof -
  have "Model r1 = Model r2" using assms(3) by (simp add: Key_lines_def)
  moreover have m: "Messages r1 = Messages r2"
    using msgs_of_Key_lines [OF assms(1)] msgs_of_Key_lines [OF assms(2)] assms(3) by simp
  moreover have "MaxTokens r1 = MaxTokens r2 \<and> map_option fmt_f (Temperature r1) = map_option fmt_f (Temperature r2)"
    using assms(3) m by (auto simp: Key_lines_def dest: show_int_inj split: option.splits)
  ultimately show ?thesis by simp
qed

section \<open>Properties\<close>

text \<open>
  C10. At any moment of any interleaving there is at most one call in flight per key: the leader whose key has not
  been released is unique, its broadcast is still open, and a further \<^verbatim>\<open>Invoke\<close> with that key starts no second
  call but subscribes to that broadcast from its first item.
\<close>

theorem coalesce_single_flight:
  assumes "co_reachable g" "i < length (leaders g)" "unreleased (leaders g ! i)"
  shows "(\<forall>j < length (leaders g). unreleased (leaders g ! j) \<and> ld_key (leaders g ! j) = ld_key (leaders g ! i) \<longrightarrow> j = i) \<and>
    \<not> b_done (broadcasts g ! i) \<and>
    leaders (Group_Invoke (ld_key (leaders g ! i)) g) = leaders g \<and>
    last (subscribers (Group_Invoke (ld_key (leaders g ! i)) g)) = \<lparr>sb_b = i, sb_idx = 0, sb_got = [], sb_end = None\<rparr>"
proof -
  have inv: "co_inv g" using assms(1) by (rule co_reachable_inv)
  have li: "leader_inv g j" if "j < length (leaders g)" for j using inv that by (simp add: co_inv_def)
  have fl: "inFlight g (ld_key (leaders g ! j)) = Some j" if "j < length (leaders g)" "unreleased (leaders g ! j)" for j
    using li [OF that(1)] that(2) by (simp add: leader_inv_def)
  have "j = i" if "j < length (leaders g)" "unreleased (leaders g ! j)" "ld_key (leaders g ! j) = ld_key (leaders g ! i)" for j
    using fl [OF that(1,2)] fl [OF assms(2,3)] that(3) by (metis option.inject)
  moreover have "\<not> b_done (broadcasts g ! i)"
    using li [OF assms(2)] assms(3) by (auto simp: leader_inv_def leader_ok_def unreleased_def)
  ultimately show ?thesis using fl [OF assms(2,3)] by (simp add: Group_Invoke_def)
qed

text \<open>Two calls for the key \<^verbatim>\<open>k\<close>; the first has delivered one item when the second arrives.\<close>

definition demo_events :: "co_event list" where
  "demo_events = [Invoke ''k'', Lead 0 CallOk, Lead 0 (RecvDelta zeroDelta), Lead 0 NoAnswer, Read 0, Invoke ''k'']"

definition demo_group :: Group where
  "demo_group =
     \<lparr>inFlight = [''k'' \<mapsto> 0], broadcasts = [\<lparr>deltas = [zeroDelta], b_done = False, b_err = None\<rparr>],
      leaders = [\<lparr>ld_key = ''k'', ld_pc = Receiving, ld_upstream = [zeroDelta]\<rparr>],
      subscribers = [\<lparr>sb_b = 0, sb_idx = 1, sb_got = [zeroDelta], sb_end = None\<rparr>,
                     \<lparr>sb_b = 0, sb_idx = 0, sb_got = [], sb_end = None\<rparr>]\<rparr>"

lemma co_run_reachable: "co_reachable g \<Longrightarrow> co_run es g = Some g' \<Longrightarrow> co_reachable g'"
  by (induction es arbitrary: g) (auto split: option.splits intro: co_step)

lemmas co_eval = Group_Invoke_def NewGroup_def co_exec.simps lead_step.simps newBroadcast_def
  publish_def finish_def subscriber_Recv_def Group_release_def Let_def zeroDelta_def

lemma demo_group_reachable: "co_reachable demo_group"
proof (rule co_run_reachable [OF co_init])
  show "co_run demo_events NewGroup = Some demo_group"
    by (simp add: demo_events_def demo_group_def co_eval)
qed

theorem coalesce_single_flight_witness:
  "\<not> b_done (broadcasts demo_group ! 0) \<and> leaders (Group_Invoke ''k'' demo_group) = leaders demo_group \<and>
   last (subscribers (Group_Invoke ''k'' demo_group)) = \<lparr>sb_b = 0, sb_idx = 0, sb_got = [], sb_end = None\<rparr>"
  using coalesce_single_flight [OF demo_group_reachable, of 0] by (simp add: demo_group_def unreleased_def)

text \<open>
  C29. In every interleaving a subscriber, whenever it joined, has received a prefix of what the upstream returned to
  its leader, in order and without gaps; once it is told the end it has received all of it, and every other
  subscriber of the same call that reached its end got the same items and the same ending.
\<close>

theorem coalesce_subscribers_agree:
  assumes "co_reachable g" "s \<in> set (subscribers g)"
  shows "(\<exists>rest. ld_upstream (leaders g ! sb_b s) = sb_got s @ rest) \<and>
    (\<forall>e. sb_end s = Some e \<longrightarrow>
       ld_pc (leaders g ! sb_b s) = Exited \<and> sb_got s = ld_upstream (leaders g ! sb_b s) \<and>
       (\<forall>t \<in> set (subscribers g). sb_b t = sb_b s \<and> sb_end t \<noteq> None \<longrightarrow> sb_got t = sb_got s \<and> sb_end t = Some e))"
proof -
  have inv: "co_inv g" using assms(1) by (rule co_reachable_inv)
  have si: "sub_inv g t" if "t \<in> set (subscribers g)" for t using inv that by (simp add: co_inv_def)
  have lo: "leader_ok (leaders g ! sb_b s) (broadcasts g ! sb_b s)"
    using inv si [OF assms(2)] by (simp add: co_inv_def leader_inv_def sub_inv_def)
  have bl: "xs \<noteq> [] \<Longrightarrow> \<exists>rest. xs = butlast xs @ rest" for xs :: "Delta list"
    by (metis append_butlast_last_id)
  have "\<exists>rest. ld_upstream (leaders g ! sb_b s) = deltas (broadcasts g ! sb_b s) @ rest"
    using lo bl
    by (cases "ld_pc (leaders g ! sb_b s)") (auto simp: leader_ok_def published_def)
  moreover have "\<exists>rest. deltas (broadcasts g ! sb_b s) = sb_got s @ rest"
    using si [OF assms(2)] by (metis append_take_drop_id sub_inv_def)
  ultimately have "\<exists>rest. ld_upstream (leaders g ! sb_b s) = sb_got s @ rest" by auto
  moreover have "ld_pc (leaders g ! sb_b s) = Exited \<and> sb_got s = ld_upstream (leaders g ! sb_b s)" if "sb_end s = Some e" for e
    using si [OF assms(2)] that lo by (simp add: sub_inv_def leader_ok_def published_def)
  moreover have "sb_got t = sb_got s \<and> sb_end t = Some e"
    if "sb_end s = Some e" "t \<in> set (subscribers g)" "sb_b t = sb_b s" "sb_end t \<noteq> None" for e t
    using si [OF assms(2)] si [OF that(2)] that by (auto simp: sub_inv_def)
  ultimately show ?thesis by blast
qed

theorem coalesce_subscribers_agree_witness:
  "\<exists>rest. ld_upstream (leaders demo_group ! 0) = [zeroDelta] @ rest"
  using coalesce_subscribers_agree [OF demo_group_reachable, of "subscribers demo_group ! 0"]
  by (simp add: demo_group_def)



text \<open>
  For requests without line feeds in their fields and without colons in their roles, the hashed text determines
  the request: two of them share a key (given that the hash does not collide) only if model, messages, token limit
  and the printed temperature are all the same. The request id is not part of it.
\<close>

theorem coalesce_Key_identifies:
  assumes "inj sha256_hex" "key_plain fmt_f r1" "key_plain fmt_f r2"
  shows "coalesce_Key sha256_hex fmt_f r1 = coalesce_Key sha256_hex fmt_f r2 \<longleftrightarrow>
    Model r1 = Model r2 \<and> Messages r1 = Messages r2 \<and> MaxTokens r1 = MaxTokens r2 \<and>
    map_option fmt_f (Temperature r1) = map_option fmt_f (Temperature r2)"
proof
  assume "coalesce_Key sha256_hex fmt_f r1 = coalesce_Key sha256_hex fmt_f r2"
  then have "Key_lines fmt_f r1 = Key_lines fmt_f r2"
    using assms Key_lines_no_newline by (intro lines_inj) (auto simp: coalesce_Key_def dest: injD)
  with Key_lines_inj [OF assms(2,3)] show "Model r1 = Model r2 \<and> Messages r1 = Messages r2 \<and>
    MaxTokens r1 = MaxTokens r2 \<and> map_option fmt_f (Temperature r1) = map_option fmt_f (Temperature r2)" by blast
next
  assume "Model r1 = Model r2 \<and> Messages r1 = Messages r2 \<and> MaxTokens r1 = MaxTokens r2 \<and>
    map_option fmt_f (Temperature r1) = map_option fmt_f (Temperature r2)"
  then have "Key_lines fmt_f r1 = Key_lines fmt_f r2"
    by (cases "Temperature r1"; cases "Temperature r2") (simp_all add: Key_lines_def)
  then show "coalesce_Key sha256_hex fmt_f r1 = coalesce_Key sha256_hex fmt_f r2" by (simp add: coalesce_Key_def)
qed

theorem coalesce_Key_identifies_witness:
  "coalesce_Key (\<lambda>t. t) (\<lambda>_. ''1.000000'') \<lparr>RequestID = ''a'', Model = ''m'', Messages = [\<lparr>Role = ''user'', MsgContent = ''x''\<rparr>], MaxTokens = None, Temperature = None\<rparr> \<noteq>
   coalesce_Key (\<lambda>t. t) (\<lambda>_. ''1.000000'') \<lparr>RequestID = ''b'', Model = ''m'', Messages = [\<lparr>Role = ''user'', MsgContent = ''y''\<rparr>], MaxTokens = None, Temperature = None\<rparr>"
  by (subst coalesce_Key_identifies) (simp_all add: key_plain_def)

text \<open>
  Without that condition the text is ambiguous: a content that contains the text of a second message is hashed
  like the two messages, so the two different conversations share one upstream call.
\<close>

lemma coalesce_Key_ambiguous:
  "coalesce_Key h fmt_f \<lparr>RequestID = r, Model = m, Messages = [\<lparr>Role = ''user'', MsgContent = a\<rparr>, \<lparr>Role = ''user'', MsgContent = b\<rparr>], MaxTokens = x, Temperature = t\<rparr> =
   coalesce_Key h fmt_f \<lparr>RequestID = r', Model = m, Messages = [\<lparr>Role = ''user'', MsgContent = a @ newline # ''msg=user:'' @ b\<rparr>], MaxTokens = x, Temperature = t\<rparr>"
  by (simp add: coalesce_Key_def Key_lines_def)

end
