(* ===== verification/Relay.thy ===== *)
theory Relay
  imports Adapters
begin

text \<open>
  The last stage of the gateway's pipeline
  (\<^verbatim>\<open>services/provider-gateway/internal/stream/relay.go\<close>): it drains a stream and forwards every item to the
  gRPC caller. The response message of the wire contract is a datatype with the two cases of its
  \<^verbatim>\<open>oneof\<close>; \<^verbatim>\<open>send\<close> is an argument over the caller's connection \<open>'c\<close>. \<^verbatim>\<open>Relay\<close> runs as long as the
  stream delivers, so its value is an option and \<open>None\<close> would be a relay that never returns.
\<close>

section \<open>Model\<close>

record pb_Delta =
  pd_RequestId :: string
  pd_Content :: "string option"
  pd_FinishReason :: "string option"
  pd_IsFinal :: bool
  pd_PrefixCacheHandle :: "string option"
  pd_InputTokens :: "int32 option"
  pd_OutputTokens :: "int32 option"

record pb_FallbackSignal =
  pf_RequestId :: string
  pf_Provider :: string
  pf_Reason :: FallbackReason

datatype InvokeResponse = InvokeResponse_Delta pb_Delta | InvokeResponse_Fallback pb_FallbackSignal

definition toPbDelta :: "string \<Rightarrow> Delta \<Rightarrow> InvokeResponse" where
  "toPbDelta requestID d =
     InvokeResponse_Delta
       \<lparr>pd_RequestId = requestID, pd_Content = Content d, pd_FinishReason = FinishReason d, pd_IsFinal = IsFinal d,
        pd_PrefixCacheHandle = PrefixCacheHandle d, pd_InputTokens = InputTokens d, pd_OutputTokens = OutputTokens d\<rparr>"

definition FallbackResponse :: "string \<Rightarrow> string \<Rightarrow> FallbackReason \<Rightarrow> InvokeResponse" where
  "FallbackResponse requestID provider reason =
     InvokeResponse_Fallback \<lparr>pf_RequestId = requestID, pf_Provider = provider, pf_Reason = reason\<rparr>"

type_synonym 'c sender = "InvokeResponse \<Rightarrow> 'c \<Rightarrow> go_error option \<times> 'c"

partial_function (option) Relay ::
  "string \<Rightarrow> 'st Recv \<Rightarrow> 'c sender \<Rightarrow> 'st \<Rightarrow> 'c \<Rightarrow> ((go_error option \<times> 'st) \<times> 'c) option" where
  "Relay requestID recv send s c =
     (case recv s of
        (Inl err, s') \<Rightarrow>
          (if errors_Is err EOF then Some ((None, s'), c)
           else case errors_As_Fallback err of
                  Some (reason, provider) \<Rightarrow>
                    (case send (FallbackResponse requestID provider reason) c of (e, c') \<Rightarrow> Some ((e, s'), c'))
                | None \<Rightarrow> Some ((Some (StreamUpstreamError err), s'), c))
      | (Inr delta, s') \<Rightarrow>
          (case send (toPbDelta requestID delta) c of
             (Some e, c') \<Rightarrow> Some ((Some e, s'), c')
           | (None, c') \<Rightarrow>
               if IsFinal delta then Some ((None, s'), c') else Relay requestID recv send s' c'))"

section \<open>What the caller receives\<close>

text \<open>What is sent, and what \<^verbatim>\<open>Relay\<close> returns, for a stream that ends with the given error or final item.\<close>

definition relay_ending :: "string \<Rightarrow> go_error option \<Rightarrow> InvokeResponse list \<times> go_error option" where
  "relay_ending requestID err =
     (case err of
        None \<Rightarrow> ([], None)
      | Some e \<Rightarrow>
          if errors_Is e EOF then ([], None)
          else case errors_As_Fallback e of
                 Some (reason, provider) \<Rightarrow> ([FallbackResponse requestID provider reason], None)
               | None \<Rightarrow> ([], Some (StreamUpstreamError e)))"

text \<open>A connection that records what was sent and accepts \<open>n\<close> messages before it breaks.\<close>

definition send_upto :: "go_error \<Rightarrow> (InvokeResponse list \<times> nat) sender" where
  "send_upto e r c =
     (case c of (sent, 0) \<Rightarrow> (Some e, (sent, 0)) | (sent, Suc n) \<Rightarrow> (None, (sent @ [r], n)))"

lemma Relay_drain:
  assumes "drain recv s = Some ((ds, err), s')" and ok: "\<And>r c. fst (send r c) = None"
  shows "\<forall>c. Relay rid recv send s c =
    Some ((snd (relay_ending rid err), s'), fold (\<lambda>r c. snd (send r c)) (map (toPbDelta rid) ds @ fst (relay_ending rid err)) c)"
  using assms(1)
proof (induction rule: drain_items_induct)
  case (error s e s')
  show ?case
  proof
    fix c
    obtain c' where "\<And>r p. errors_As_Fallback e = Some (r, p) \<Longrightarrow> send (FallbackResponse rid p r) c = (None, c')"
      using ok by (cases "errors_As_Fallback e") (auto, metis prod.collapse)
    with error show "Relay rid recv send s c = Some ((snd (relay_ending rid (Some e)), s'),
        fold (\<lambda>r c. snd (send r c)) (map (toPbDelta rid) [] @ fst (relay_ending rid (Some e))) c)"
      by (auto simp: Relay.simps [of rid recv send s] relay_ending_def split: option.splits)
  qed
next
  case (final s d s')
  show ?case
  proof
    fix c
    obtain c' where "send (toPbDelta rid d) c = (None, c')" using ok by (metis prod.collapse)
    with final show "Relay rid recv send s c = Some ((snd (relay_ending rid None), s'),
        fold (\<lambda>r c. snd (send r c)) (map (toPbDelta rid) [d] @ fst (relay_ending rid None)) c)"
      by (simp add: Relay.simps [of rid recv send s] relay_ending_def)
  qed
next
  case (more s d s1 ds err s')
  show ?case
  proof
    fix c
    obtain c' where "send (toPbDelta rid d) c = (None, c')" using ok by (metis prod.collapse)
    with more show "Relay rid recv send s c = Some ((snd (relay_ending rid err), s'),
        fold (\<lambda>r c. snd (send r c)) (map (toPbDelta rid) (d # ds) @ fst (relay_ending rid err)) c)"
      by (simp add: Relay.simps [of rid recv send s])
  qed
qed

text \<open>A connection that breaks: the caller got a prefix, and the connection's own error is returned.\<close>

lemma Relay_send_upto:
  assumes "drain recv s = Some ((ds, err), s')"
  shows "\<forall>sent n. \<exists>s'' m. Relay rid recv (send_upto e) s (sent, n) =
    (let out = map (toPbDelta rid) ds @ fst (relay_ending rid err)
     in if length out \<le> n then Some ((snd (relay_ending rid err), s''), (sent @ out, m))
        else Some ((Some e, s''), (sent @ take n out, 0)))"
  using assms
proof (induction rule: drain_items_induct)
  case (error s er s')
  show ?case
  proof (intro allI)
    fix sent n
    show "\<exists>s'' m. Relay rid recv (send_upto e) s (sent, n) =
      (let out = map (toPbDelta rid) [] @ fst (relay_ending rid (Some er))
       in if length out \<le> n then Some ((snd (relay_ending rid (Some er)), s''), (sent @ out, m))
          else Some ((Some e, s''), (sent @ take n out, 0)))"
      using error by (cases n)
        (auto simp: Relay.simps [of rid recv _ s] relay_ending_def send_upto_def Let_def split: option.splits)
  qed
next
  case (final s d s')
  show ?case
  proof (intro allI)
    fix sent n
    show "\<exists>s'' m. Relay rid recv (send_upto e) s (sent, n) =
      (let out = map (toPbDelta rid) [d] @ fst (relay_ending rid None)
       in if length out \<le> n then Some ((snd (relay_ending rid None), s''), (sent @ out, m))
          else Some ((Some e, s''), (sent @ take n out, 0)))"
      using final by (cases n) (auto simp: Relay.simps [of rid recv _ s] relay_ending_def send_upto_def Let_def)
  qed
next
  case (more s d s1 ds err s')
  show ?case
  proof (intro allI)
    fix sent n
    show "\<exists>s'' m. Relay rid recv (send_upto e) s (sent, n) =
      (let out = map (toPbDelta rid) (d # ds) @ fst (relay_ending rid err)
       in if length out \<le> n then Some ((snd (relay_ending rid err), s''), (sent @ out, m))
          else Some ((Some e, s''), (sent @ take n out, 0)))"
    proof (cases n)
      case 0
      with more show ?thesis by (auto simp: Relay.simps [of rid recv _ s] send_upto_def Let_def)
    next
      case (Suc k)
      from more(3) [rule_format, of "sent @ [toPbDelta rid d]" k] more(1,2) Suc show ?thesis
        by (cases "length ds + length (fst (relay_ending rid err)) \<le> k")
          (auto simp: Relay.simps [of rid recv _ s] send_upto_def Let_def)
    qed
  qed
qed

text \<open>Whatever the connection does, relaying a stream that comes to an end returns.\<close>

lemma Relay_returns:
  assumes "drain recv s = Some ((ds, err), s')"
  shows "\<forall>c. \<exists>r. Relay rid recv send s c = Some r"
  using assms
proof (induction rule: drain_items_induct)
  case (error s e s')
  then show ?case by (auto simp: Relay.simps [of rid recv send s] split: option.splits prod.splits)
next
  case (final s d s')
  then show ?case by (auto simp: Relay.simps [of rid recv send s] split: option.splits prod.splits)
next
  case (more s d s1 ds err s')
  then show ?case by (auto simp: Relay.simps [of rid recv send s] split: option.splits prod.splits)
qed

section \<open>Properties\<close>

text \<open>
  Relaying a stream that comes to an end returns, and the caller receives every item in order, translated field
  by field, then one fallback signal if the stream ended with one; a connection that breaks after \<open>n\<close> messages
  has received exactly the first \<open>n\<close> of them and the relay stops with the connection's error. The relay
  returns an upstream error exactly when the stream ended with an error that is neither EOF nor a fallback.
\<close>

theorem relay_delivers_in_order:
  assumes "drain recv s = Some ((ds, err), s')"
  shows "\<exists>s'' m. Relay rid recv (send_upto e) s ([], n) =
    (let out = map (toPbDelta rid) ds @
         (case err of None \<Rightarrow> [] | Some x \<Rightarrow>
            if errors_Is x EOF then []
            else case errors_As_Fallback x of Some (r, p) \<Rightarrow> [FallbackResponse rid p r] | None \<Rightarrow> [])
     in if length out \<le> n
        then Some ((case err of None \<Rightarrow> None | Some x \<Rightarrow>
                      if errors_Is x EOF \<or> errors_As_Fallback x \<noteq> None then None else Some (StreamUpstreamError x), s''),
                   (out, m))
        else Some ((Some e, s''), (take n out, 0)))"
proof -
  have e1: "fst (relay_ending rid err) = (case err of None \<Rightarrow> [] | Some x \<Rightarrow>
            if errors_Is x EOF then []
            else case errors_As_Fallback x of Some (r, p) \<Rightarrow> [FallbackResponse rid p r] | None \<Rightarrow> [])"
    and e2: "snd (relay_ending rid err) = (case err of None \<Rightarrow> None | Some x \<Rightarrow>
            if errors_Is x EOF \<or> errors_As_Fallback x \<noteq> None then None else Some (StreamUpstreamError x))"
    by (auto simp: relay_ending_def split: option.splits)
  show ?thesis using Relay_send_upto [OF assms, rule_format, of rid e "[]" n] by (simp only: e1 e2 append_Nil)
qed

text \<open>A stream of two items over a list, the second final.\<close>

definition list_Recv :: "Delta list Recv" where
  "list_Recv s = (case s of [] \<Rightarrow> (Inl EOF, []) | d # ds \<Rightarrow> (Inr d, ds))"

theorem relay_delivers_in_order_witness:
  "\<exists>s'' m. Relay ''r'' list_Recv (send_upto EOF) [zeroDelta, zeroDelta\<lparr>IsFinal := True\<rparr>] ([], 1) =
     Some ((Some EOF, s''), ([toPbDelta ''r'' zeroDelta], m))"
proof -
  have "drain list_Recv [zeroDelta, zeroDelta\<lparr>IsFinal := True\<rparr>] =
      Some (([zeroDelta, zeroDelta\<lparr>IsFinal := True\<rparr>], None), [])"
    by (simp add: drain.simps list_Recv_def zeroDelta_def)
  from relay_delivers_in_order [OF this, of "''r''" EOF 1] show ?thesis by auto
qed

end
