(* ===== verification/Credentials.thy ===== *)
theory Credentials
  imports OZ_Prelude
begin

text \<open>
  Resolution of the providers' API keys (\<^verbatim>\<open>services/provider-gateway/internal/credentials\<close>): a resolver
  fetches a token from control-plane, pushes it into its adapter and says how long to wait until the next
  refresh. The fetcher is an operation on a world \<open>'w\<close>, the adapter a value of type \<open>'a\<close> with the
  method \<^verbatim>\<open>SetAPIKey\<close>. \<open>Resolver_Run_iter\<close> is one round of the endless background loop \<^verbatim>\<open>Run\<close>.
\<close>

section \<open>Model\<close>

type_synonym Source = string

abbreviation (input) SourceVault :: Source where "SourceVault \<equiv> ''vault''"
abbreviation (input) sourceNone :: Source where "sourceNone \<equiv> []"

definition refreshBuffer :: duration where
  "refreshBuffer = 30 * nsPerSecond"

definition errorRetryInterval :: duration where
  "errorRetryInterval = 30 * nsPerSecond"

text \<open>The token and its time to live, or the error; the zero token and duration come with an error.\<close>

type_synonym 'w TokenFetcher = "string \<Rightarrow> string \<Rightarrow> 'w \<Rightarrow> (string \<times> duration) result \<times> 'w"

type_synonym 'a KeySetter = "string \<Rightarrow> 'a \<Rightarrow> 'a"

record 'a Resolver =
  rv_provider :: string
  rv_adapter :: 'a
  rv_source :: Source

definition NewResolver :: "string \<Rightarrow> 'a \<Rightarrow> 'a Resolver" where
  "NewResolver provider adapter = \<lparr>rv_provider = provider, rv_adapter = adapter, rv_source = sourceNone\<rparr>"

definition CurrentSource :: "'a Resolver \<Rightarrow> Source" where
  "CurrentSource r = rv_source r"

text \<open>
  An empty token with no error is also refused; the verb \<^verbatim>\<open>%w\<close> then formats a nil error.
\<close>

definition Resolver_Refresh ::
  "'w TokenFetcher \<Rightarrow> 'a KeySetter \<Rightarrow> 'a Resolver \<Rightarrow> 'w \<Rightarrow> (duration result \<times> 'a Resolver) \<times> 'w" where
  "Resolver_Refresh fetch SetAPIKey r w =
     (let msg = ''no credential available for '' @ rv_provider r @ '': vault fetch failed: ''
      in case fetch (rv_provider r) ''invoke'' w of
           (Inl err, w1) \<Rightarrow> ((Inl (Wrap msg err []), r\<lparr>rv_source := sourceNone\<rparr>), w1)
         | (Inr (token, ttl), w1) \<Rightarrow>
             if token = [] then ((Inl (ErrorString (msg @ ''%!w(<nil>)'')), r\<lparr>rv_source := sourceNone\<rparr>), w1)
             else
               (let r = r\<lparr>rv_adapter := SetAPIKey token (rv_adapter r), rv_source := SourceVault\<rparr>;
                    next = wrap64 (ttl - refreshBuffer);
                    next = (if next \<le> 0 then ttl else next);
                    next = (if next \<le> 0 then errorRetryInterval else next)
                in ((Inr next, r), w1)))"

definition Resolver_Run_iter ::
  "'w TokenFetcher \<Rightarrow> 'a KeySetter \<Rightarrow> 'a Resolver \<Rightarrow> 'w \<Rightarrow> (duration \<times> 'a Resolver) \<times> 'w" where
  "Resolver_Run_iter fetch SetAPIKey r w =
     (case Resolver_Refresh fetch SetAPIKey r w of
        ((Inl err, r'), w1) \<Rightarrow> ((errorRetryInterval, r'), w1)
      | ((Inr wait, r'), w1) \<Rightarrow> ((wait, r'), w1))"

text \<open>The waits of the first rounds of \<^verbatim>\<open>Run\<close>, and the resolver after them.\<close>

fun Resolver_Run ::
  "'w TokenFetcher \<Rightarrow> 'a KeySetter \<Rightarrow> duration \<Rightarrow> nat \<Rightarrow> 'a Resolver \<Rightarrow> 'w \<Rightarrow> duration list \<times> 'a Resolver \<times> 'w" where
  "Resolver_Run fetch SetAPIKey wait 0 r w = ([], r, w)"
| "Resolver_Run fetch SetAPIKey wait (Suc n) r w =
     (let ((wait', r'), w') = Resolver_Run_iter fetch SetAPIKey r w;
          (waits, r'', w'') = Resolver_Run fetch SetAPIKey wait' n r' w'
      in (wait # waits, r'', w''))"

subsection \<open>Fetchers\<close>

text \<open>\<^verbatim>\<open>GRPCFetcher\<close>: the response's token and its \<^verbatim>\<open>ttl_seconds\<close>, an \<^verbatim>\<open>int64\<close>.\<close>

definition GRPCFetcher_FetchToken ::
  "(string \<Rightarrow> string \<Rightarrow> 'w \<Rightarrow> (string \<times> int) result \<times> 'w) \<Rightarrow> 'w TokenFetcher" where
  "GRPCFetcher_FetchToken IssueProviderToken provider scope w =
     (case IssueProviderToken provider scope w of
        (Inl err, w1) \<Rightarrow> (Inl err, w1)
      | (Inr (token, ttl_seconds), w1) \<Rightarrow> (Inr (token, wrap64 (ttl_seconds * nsPerSecond)), w1))"

record FakeFetcher =
  ff_Tokens :: "string \<rightharpoonup> string"
  ff_TTL :: duration
  ff_Err :: "go_error option"

definition NewFakeFetcher :: FakeFetcher where
  "NewFakeFetcher = \<lparr>ff_Tokens = Map.empty, ff_TTL = 300 * nsPerSecond, ff_Err = None\<rparr>"

definition FakeFetcher_FetchToken :: "FakeFetcher TokenFetcher" where
  "FakeFetcher_FetchToken provider scope f =
     (case ff_Err f of
        Some err \<Rightarrow> (Inl err, f)
      | None \<Rightarrow>
          (case ff_Tokens f provider of
             None \<Rightarrow> (Inl (ErrorString (''no fake token for provider: '' @ provider)), f)
           | Some token \<Rightarrow> (Inr (token, ff_TTL f), f)))"

text \<open>\<^verbatim>\<open>FakeAdapter\<close>: its key.\<close>

definition FakeAdapter_SetAPIKey :: "string KeySetter" where
  "FakeAdapter_SetAPIKey key f = key"

section \<open>Facts\<close>

lemma Refresh_wait_positive: "fst (fst (Resolver_Refresh fetch sk r w)) = Inr next \<Longrightarrow> 0 < next"
  by (auto simp: Resolver_Refresh_def Let_def errorRetryInterval_def nsPerSecond_def split: prod.splits sum.splits if_splits)

lemma Run_iter_wait_positive: "0 < fst (fst (Resolver_Run_iter fetch sk r w))"
  using Refresh_wait_positive [of fetch sk r w]
  by (auto simp: Resolver_Run_iter_def errorRetryInterval_def nsPerSecond_def split: prod.splits sum.splits)

section \<open>Properties\<close>

text \<open>
  A refresh succeeds exactly when the fetcher answered a non-empty token; then the adapter has that token, the
  source is \<^verbatim>\<open>vault\<close>, and the next refresh comes 30 seconds before the token expires if it lives longer than that.
  A failed refresh leaves the adapter's key alone and clears the source, which is what \<^verbatim>\<open>/readyz\<close> looks at.
\<close>

theorem credentials_refresh_outcome:
  assumes "fetch (rv_provider r) ''invoke'' w = (ans, w1)"
    and "Resolver_Refresh fetch SetAPIKey r w = ((res, r'), w2)"
  shows "w2 = w1 \<and> rv_provider r' = rv_provider r \<and>
    (case ans of
       Inr (token, ttl) \<Rightarrow>
         if token \<noteq> []
         then rv_adapter r' = SetAPIKey token (rv_adapter r) \<and> rv_source r' = SourceVault \<and>
              (\<exists>next. res = Inr next \<and> 0 < next \<and>
                 (refreshBuffer < ttl \<and> in_int64 ttl \<longrightarrow> next = ttl - refreshBuffer) \<and>
                 (0 < ttl \<and> ttl \<le> refreshBuffer \<longrightarrow> next = ttl))
         else isl res \<and> rv_adapter r' = rv_adapter r \<and> rv_source r' = sourceNone
     | Inl err \<Rightarrow> isl res \<and> rv_adapter r' = rv_adapter r \<and> rv_source r' = sourceNone)"
proof (cases ans)
  case (Inl err)
  with assms show ?thesis by (auto simp: Resolver_Refresh_def Let_def)
next
  case (Inr p)
  obtain token ttl where p: "p = (token, ttl)" by fastforce
  have rb: "0 < refreshBuffer" by (simp add: refreshBuffer_def nsPerSecond_def)
  have w: "wrap64 (ttl - refreshBuffer) = ttl - refreshBuffer" if "0 < ttl" "in_int64 ttl"
    using that by (intro wrap64_id) (simp add: in_int64_def refreshBuffer_def nsPerSecond_def)
  have i: "in_int64 ttl" if "0 < ttl" "ttl \<le> refreshBuffer"
    using that by (simp add: in_int64_def refreshBuffer_def nsPerSecond_def)
  show ?thesis
  proof (cases "token = []")
    case True
    with assms Inr p show ?thesis by (auto simp: Resolver_Refresh_def Let_def)
  next
    case False
    let ?n = "wrap64 (ttl - refreshBuffer)"
    let ?next = "if (if ?n \<le> 0 then ttl else ?n) \<le> 0 then errorRetryInterval else if ?n \<le> 0 then ttl else ?n"
    have "res = Inr ?next" "w2 = w1" "r' = r\<lparr>rv_adapter := SetAPIKey token (rv_adapter r), rv_source := SourceVault\<rparr>"
      using assms Inr p False by (simp_all add: Resolver_Refresh_def Let_def)
    moreover have "0 < ?next" using rb by (simp add: errorRetryInterval_def nsPerSecond_def)
    moreover have "?next = ttl - refreshBuffer" if "refreshBuffer < ttl" "in_int64 ttl"
      using w that rb by simp
    moreover have "?next = ttl" if "0 < ttl" "ttl \<le> refreshBuffer"
      using w i that by simp
    ultimately show ?thesis using Inr p False by simp
  qed
qed

theorem credentials_refresh_outcome_witness:
  "\<exists>res r' w2. Resolver_Refresh FakeFetcher_FetchToken FakeAdapter_SetAPIKey (NewResolver ''openai'' [])
      (NewFakeFetcher\<lparr>ff_Tokens := [''openai'' \<mapsto> ''sk'']\<rparr>) = ((res, r'), w2) \<and>
    rv_adapter r' = ''sk'' \<and> rv_source r' = SourceVault \<and> res = Inr (270 * nsPerSecond)"
proof -
  let ?w = "NewFakeFetcher\<lparr>ff_Tokens := [''openai'' \<mapsto> ''sk'']\<rparr>"
  obtain res r' w2 where r: "Resolver_Refresh FakeFetcher_FetchToken FakeAdapter_SetAPIKey (NewResolver ''openai'' []) ?w
      = ((res, r'), w2)" by (metis prod.collapse)
  have f: "FakeFetcher_FetchToken (rv_provider (NewResolver ''openai'' [])) ''invoke'' ?w = (Inr (''sk'', 300 * nsPerSecond), ?w)"
    by (simp add: FakeFetcher_FetchToken_def NewResolver_def NewFakeFetcher_def)
  show ?thesis
    using credentials_refresh_outcome [OF f r] r
    by (auto simp: FakeAdapter_SetAPIKey_def refreshBuffer_def nsPerSecond_def in_int64_def)
qed

text \<open>
  The background loop never spins: whatever control-plane answers, every wait of \<^verbatim>\<open>Run\<close> after a positive initial one
  is positive.
\<close>

theorem credentials_run_never_spins:
  assumes "0 < wait"
  shows "list_all (\<lambda>d. 0 < d) (fst (Resolver_Run fetch SetAPIKey wait n r w))"
  using assms
proof (induction n arbitrary: wait r w)
  case (Suc n)
  obtain wait' r' w' where i: "Resolver_Run_iter fetch SetAPIKey r w = ((wait', r'), w')" by (metis prod.collapse)
  then have "0 < wait'" using Run_iter_wait_positive [of fetch SetAPIKey r w] by simp
  with Suc.IH [of wait' r' w'] Suc.prems i show ?case
    by (cases "Resolver_Run fetch SetAPIKey wait' n r' w'") simp
qed simp

theorem credentials_run_never_spins_witness:
  "list_all (\<lambda>d. 0 < d) (fst (Resolver_Run FakeFetcher_FetchToken FakeAdapter_SetAPIKey 1 3 (NewResolver ''openai'' []) NewFakeFetcher))"
  by (rule credentials_run_never_spins) simp

end
