(* ===== verification/Gateway.thy ===== *)
theory Gateway
  imports Breaker Quota Openai_Wire Anthropic_Wire Google_Wire Fake_Wire Coalesce Relay Credentials
begin

text \<open>
  The gRPC service of provider-gateway (\<^verbatim>\<open>services/provider-gateway/main.go\<close>): the handlers \<^verbatim>\<open>Invoke\<close> and
  \<^verbatim>\<open>ProviderHealth\<close>, the pipeline coalesce, quota, breaker, adapter, relay they are composed of, the
  registration of the adapters at start-up and the readiness check.

  The handler runs beside the leader goroutine of its call. What a subscriber of a call receives does not
  depend on the interleaving (theorem \<open>coalesce_subscribers_agree\<close> of \<open>Coalesce\<close>), so the handler is
  modelled on the broadcast its call finishes with: its own, if it leads, or the one in flight that it
  joined (argument \<open>shared\<close>). Redis, the HTTP endpoints and the clock readings are arguments, as in the
  component theories. A panic and a loop without end are the value \<open>None\<close>.
\<close>

section \<open>Model\<close>

subsection \<open>The adapters behind one interface\<close>

text \<open>The dynamic types of an \<^verbatim>\<open>adapters.Stream\<close>, and the dispatch of its method.\<close>

datatype any_stream =
    S_openai openai_stream
  | S_anthropic anthropic_stream
  | S_google google_stream
  | S_fake fake_stream

record gateway_json =
  gj_openai_request :: "openai_wireRequest \<Rightarrow> string result"
  gj_openai_chunk :: "string \<Rightarrow> openai_wireChunk result"
  gj_anthropic :: anthropic_json
  gj_google_request :: "google_wireRequest \<Rightarrow> string result"
  gj_google_chunk :: "string \<Rightarrow> google_wireChunk result"
  gj_fake_request :: "fake_wireRequest \<Rightarrow> string result"
  gj_fake_decode :: "string \<Rightarrow> go_error option \<Rightarrow> fake_wireChunk list \<times> go_error"

text \<open>The codec the process has: \<^verbatim>\<open>encoding/json\<close> on the struct tags of the four adapters.\<close>

definition gateway_codec :: "(float32 \<Rightarrow> string) \<Rightarrow> decode_errors \<Rightarrow> gateway_json" where
  "gateway_codec fmtFloat bad =
     \<lparr>gj_openai_request = openai_marshal fmtFloat, gj_openai_chunk = openai_unmarshal, gj_anthropic = anthropic_codec fmtFloat,
      gj_google_request = google_marshal fmtFloat, gj_google_chunk = google_unmarshal,
      gj_fake_request = fake_marshal, gj_fake_decode = fake_decode bad\<rparr>"

definition any_Recv :: "gateway_json \<Rightarrow> any_stream Recv" where
  "any_Recv json s =
     (case s of
        S_openai t \<Rightarrow> map_prod id S_openai (openai_Recv (gj_openai_chunk json) t)
      | S_anthropic t \<Rightarrow> map_prod id S_anthropic (anthropic_Recv (gj_anthropic json) t)
      | S_google t \<Rightarrow> map_prod id S_google (google_Recv (gj_google_chunk json) t)
      | S_fake t \<Rightarrow> map_prod id S_fake (fake_Recv t))"

definition as_any :: "('st \<Rightarrow> any_stream) \<Rightarrow> ('st, 'w) Adapter \<Rightarrow> (any_stream, 'w) Adapter" where
  "as_any f a =
     \<lparr>Adapter_Name = Adapter_Name a,
      Adapter_Invoke = \<lambda>req w. map_prod (map_sum id f) id (Adapter_Invoke a req w)\<rparr>"

subsection \<open>The server\<close>

record ('st, 'w) server =
  sv_registry :: "('st, 'w) Registry"
  sv_quotaCounter :: "'w quota_Counter"
  sv_quotaPolicy :: quota_Policy
  sv_breakerStore :: "'w breaker_Store"
  sv_breakerConfig :: breaker_Config

text \<open>Values of the Prometheus gauges that the handler sets.\<close>

datatype gauge_write = quotaHeadroomGauge string int | breakerStateGauge string int

fun breakerDecisionToStateValue :: "breaker_Decision \<Rightarrow> int" where
  "breakerDecisionToStateValue Allow = 0"
| "breakerDecisionToStateValue AllowTrial = 1"
| "breakerDecisionToStateValue Deny = 2"

text \<open>\<^verbatim>\<open>reportingStream\<close>: the inner stream and the flag \<^verbatim>\<open>reported\<close>, with the world that \<^verbatim>\<open>report\<close> acts on.\<close>

definition reportingStream_Recv ::
  "'st Recv \<Rightarrow> (bool \<Rightarrow> 'w \<Rightarrow> 'w) \<Rightarrow> (('st \<times> bool) \<times> 'w) Recv" where
  "reportingStream_Recv recv report r =
     (case r of ((inner, reported), w) \<Rightarrow>
        (case recv inner of
           (Inl err, inner') \<Rightarrow>
             if \<not> reported then (Inl err, ((inner', True), report False w))
             else (Inl err, ((inner', reported), w))
         | (Inr d, inner') \<Rightarrow>
             if IsFinal d \<and> \<not> reported then (Inr d, ((inner', True), report True w))
             else (Inr d, ((inner', reported), w))))"

record pb_InvokeRequest =
  pq_RequestId :: string
  pq_WorkerRef :: string
  pq_Messages :: "(string \<times> string) list"
  pq_Params :: "(int32 option \<times> float32 option) option"

definition toAdapterRequest :: "pb_InvokeRequest \<Rightarrow> string \<Rightarrow> InvokeRequest" where
  "toAdapterRequest req model =
     (let messages = map (\<lambda>(role, content). \<lparr>Role = role, MsgContent = content\<rparr>) (pq_Messages req);
          out = \<lparr>RequestID = pq_RequestId req, Model = model, Messages = messages, MaxTokens = None, Temperature = None\<rparr>
      in case pq_Params req of
           None \<Rightarrow> out
         | Some (maxTokens, temperature) \<Rightarrow>
             (let out = (if maxTokens \<noteq> None then out\<lparr>MaxTokens := maxTokens\<rparr> else out)
              in if temperature \<noteq> None then out\<lparr>Temperature := temperature\<rparr> else out))"

text \<open>The clock readings of one call: seconds for the quota window, milliseconds for the breaker.\<close>

record call_times =
  ct_quota :: int
  ct_breaker :: int
  ct_report :: int

definition reportOutcome :: "('st, 'w) server \<Rightarrow> string \<Rightarrow> call_times \<Rightarrow> bool \<Rightarrow> 'w \<Rightarrow> 'w" where
  "reportOutcome s providerName ct success w =
     snd (breaker_ReportResult (sv_breakerStore s) providerName (sv_breakerConfig s) (ct_report ct) success w)"

text \<open>The closure \<^verbatim>\<open>call\<close> of \<^verbatim>\<open>Invoke\<close>: quota, then breaker, then the adapter.\<close>

definition server_call ::
  "('st, 'w) server \<Rightarrow> call_times \<Rightarrow> string \<Rightarrow> ('st, 'w) Adapter \<Rightarrow> InvokeRequest \<Rightarrow> 'w
     \<Rightarrow> (('st result \<times> gauge_write list) \<times> 'w) option" where
  "server_call s ct providerName adapter adapterReq w =
     (case Enforce (sv_quotaCounter s) providerName (sv_quotaPolicy s) (ct_quota ct) w of
        None \<Rightarrow> None
      | Some ((quotaDecision, current, qerr), w1) \<Rightarrow>
          (let headroom = wrap64 (Limit (sv_quotaPolicy s) - current);
               g1 = (if qerr \<noteq> None then []
                     else [quotaHeadroomGauge providerName (if headroom < 0 then 0 else headroom)])
           in if quotaDecision = quota_Throttle
              then Some ((Inl (FallbackError FALLBACK_REASON_QUOTA_EXHAUSTED providerName), g1), w1)
              else
                (case breaker_Check (sv_breakerStore s) providerName (sv_breakerConfig s) (ct_breaker ct) w1 of
                   ((breakerDecision, berr), w2) \<Rightarrow>
                     (let g2 = g1 @ (if berr \<noteq> None then []
                                     else [breakerStateGauge providerName (breakerDecisionToStateValue breakerDecision)])
                      in if breakerDecision = Deny
                         then Some ((Inl (FallbackError FALLBACK_REASON_BREAKER_OPEN providerName), g2), w2)
                         else
                           (case Adapter_Invoke adapter adapterReq w2 of
                              (Inl err, w3) \<Rightarrow> Some ((Inl err, g2), reportOutcome s providerName ct False w3)
                            | (Inr adapterStream, w3) \<Rightarrow> Some ((Inr adapterStream, g2), w3))))))"

text \<open>The leader: the call, then its drain into the broadcast (\<^verbatim>\<open>Group.lead\<close>).\<close>

definition server_lead ::
  "('st, 'w) server \<Rightarrow> 'st Recv \<Rightarrow> call_times \<Rightarrow> string \<Rightarrow> ('st, 'w) Adapter \<Rightarrow> InvokeRequest \<Rightarrow> 'w
     \<Rightarrow> (broadcast \<times> 'w) option" where
  "server_lead s recv ct providerName adapter adapterReq w =
     (case server_call s ct providerName adapter adapterReq w of
        None \<Rightarrow> None
      | Some ((Inl err, _), w1) \<Rightarrow> Some (finish (Some err) newBroadcast, w1)
      | Some ((Inr st, _), w1) \<Rightarrow>
          (case lead_loop (reportingStream_Recv recv (reportOutcome s providerName ct)) ((st, False), w1) newBroadcast of
             None \<Rightarrow> None
           | Some (b, (_, w2)) \<Rightarrow> Some (b, w2)))"

text \<open>A subscriber of a broadcast that is done never waits.\<close>

definition sub_Recv :: "broadcast \<Rightarrow> nat Recv" where
  "sub_Recv b idx = (case subscriber_Recv b idx of Some r \<Rightarrow> r | None \<Rightarrow> (Inl EOF, idx))"

abbreviation errorFinishReason :: string where "errorFinishReason \<equiv> ''error''"

definition bestEffort :: "string \<Rightarrow> InvokeResponse" where
  "bestEffort requestId =
     InvokeResponse_Delta
       \<lparr>pd_RequestId = requestId, pd_Content = None, pd_FinishReason = Some errorFinishReason, pd_IsFinal = True,
        pd_PrefixCacheHandle = None, pd_InputTokens = None, pd_OutputTokens = None\<rparr>"

definition server_Invoke ::
  "('st, 'w) server \<Rightarrow> 'st Recv \<Rightarrow> (InvokeRequest \<Rightarrow> string) \<Rightarrow> (string \<rightharpoonup> broadcast) \<Rightarrow> call_times
     \<Rightarrow> pb_InvokeRequest \<Rightarrow> 'c sender \<Rightarrow> 'w \<Rightarrow> 'c \<Rightarrow> ((go_error option \<times> 'w) \<times> 'c) option" where
  "server_Invoke s recv Key shared ct req send w c =
     (case ParseWorkerRef (pq_WorkerRef req) of
        Inl err \<Rightarrow> Some ((Some (StatusError InvalidArgument (error_text err)), w), c)
      | Inr (providerName, model) \<Rightarrow>
          (case Lookup (sv_registry s) providerName of
             Inl err \<Rightarrow> Some ((Some (StatusError NotFound (error_text err)), w), c)
           | Inr adapter \<Rightarrow>
               (let adapterReq = toAdapterRequest req model
                in case (case shared (Key adapterReq) of
                           Some b \<Rightarrow> Some (b, w)
                         | None \<Rightarrow> server_lead s recv ct providerName adapter adapterReq w) of
                     None \<Rightarrow> None
                   | Some (b, w1) \<Rightarrow>
                       (case Relay (pq_RequestId req) (sub_Recv b) send 0 c of
                          None \<Rightarrow> None
                        | Some ((None, _), c1) \<Rightarrow> Some ((None, w1), c1)
                        | Some ((Some err, _), c1) \<Rightarrow>
                            (case errors_As_StreamUpstream err of
                               Some upstreamErr \<Rightarrow>
                                 (case send (bestEffort (pq_RequestId req)) c1 of (_, c2) \<Rightarrow>
                                    Some ((Some (StatusError Unavailable (error_text upstreamErr)), w1), c2))
                             | None \<Rightarrow> Some ((Some err, w1), c1))))))"

subsection \<open>ProviderHealth\<close>

datatype pb_BreakerState =
    BREAKER_STATE_UNSPECIFIED | BREAKER_STATE_CLOSED | BREAKER_STATE_HALF_OPEN | BREAKER_STATE_OPEN

definition breakerStateToPb :: "breaker_State \<Rightarrow> pb_BreakerState" where
  "breakerStateToPb s =
     (if s = Closed then BREAKER_STATE_CLOSED
      else if s = HalfOpen then BREAKER_STATE_HALF_OPEN
      else if s = Open then BREAKER_STATE_OPEN
      else BREAKER_STATE_UNSPECIFIED)"

text \<open>The headroom is kept as the rational that \<^verbatim>\<open>Headroom\<close> computes, before its rounding to a float32.\<close>

record pb_ProviderStatus =
  ps_Provider :: string
  ps_BreakerState :: pb_BreakerState
  ps_QuotaHeadroom :: rat

fun health_statuses ::
  "('st, 'w) server \<Rightarrow> call_times \<Rightarrow> string list \<Rightarrow> 'w \<Rightarrow> (pb_ProviderStatus list \<times> 'w) option" where
  "health_statuses s ct [] w = Some ([], w)"
| "health_statuses s ct (name # names) w =
     (case breaker_CurrentState (sv_breakerStore s) name (sv_breakerConfig s) (ct_breaker ct) w of
        ((state, berr), w1) \<Rightarrow>
          (let state = (if berr \<noteq> None then Closed else state)
           in case Headroom (sv_quotaCounter s) name (sv_quotaPolicy s) (ct_quota ct) w1 of
                None \<Rightarrow> None
              | Some (h, w2) \<Rightarrow>
                  (let headroom = (case h of Inl _ \<Rightarrow> 1 | Inr x \<Rightarrow> x)
                   in case health_statuses s ct names w2 of
                        None \<Rightarrow> None
                      | Some (rest, w3) \<Rightarrow>
                          Some (\<lparr>ps_Provider = name, ps_BreakerState = breakerStateToPb state,
                                 ps_QuotaHeadroom = headroom\<rparr> # rest, w3))))"

definition ProviderHealth ::
  "('st, 'w) server \<Rightarrow> call_times \<Rightarrow> string \<Rightarrow> 'w \<Rightarrow> (pb_ProviderStatus list \<times> 'w) option" where
  "ProviderHealth s ct provider w =
     health_statuses s ct (if provider \<noteq> [] then [provider] else Names (sv_registry s)) w"

subsection \<open>Start-up\<close>

definition envOr :: "(string \<Rightarrow> string) \<Rightarrow> string \<Rightarrow> string \<Rightarrow> string" where
  "envOr Getenv key def = (if Getenv key \<noteq> [] then Getenv key else def)"

definition envInt64Or :: "(string \<Rightarrow> string) \<Rightarrow> string \<Rightarrow> int \<Rightarrow> int" where
  "envInt64Or Getenv key def =
     (if Getenv key = [] then def else case strconv_Atoi (Getenv key) of Inl _ \<Rightarrow> def | Inr n \<Rightarrow> n)"

text \<open>
  The adapters that need a credential, in the order \<^verbatim>\<open>main\<close> sets them up: the OpenAI-compatible ones
  and Anthropic, each with the method \<^verbatim>\<open>SetAPIKey\<close>.
\<close>

datatype real_adapter = RA_openai openai_Adapter | RA_anthropic anthropic_Adapter

fun real_SetAPIKey :: "real_adapter KeySetter" where
  "real_SetAPIKey key (RA_openai a) = RA_openai (openai_SetAPIKey key a)"
| "real_SetAPIKey key (RA_anthropic a) = RA_anthropic (anthropic_SetAPIKey key a)"

definition real_providers :: "(string \<times> real_adapter) list" where
  "real_providers =
     [(''openai'', RA_openai (openai_New [] [])),
      (''anthropic'', RA_anthropic (anthropic_New [] [])),
      (''grok'', RA_openai (openai_NewNamed ''grok'' [] ''https://api.x.ai'')),
      (''glm'', RA_openai (openai_NewNamedWithPath ''glm'' [] ''https://api.z.ai'' ''/api/paas/v4/chat/completions'')),
      (''kimi'', RA_openai (openai_NewNamed ''kimi'' [] ''https://api.moonshot.ai''))]"

text \<open>\<^verbatim>\<open>setupCredential\<close>: one synchronous refresh; a provider without a credential is left out.\<close>

definition setupCredential ::
  "'w TokenFetcher \<Rightarrow> string \<times> real_adapter \<Rightarrow> 'w \<Rightarrow> (real_adapter Resolver \<times> duration) option \<times> 'w" where
  "setupCredential fetch p w =
     (case Resolver_Refresh fetch real_SetAPIKey (NewResolver (fst p) (snd p)) w of
        ((Inl err, _), w1) \<Rightarrow> (None, w1)
      | ((Inr wait, r), w1) \<Rightarrow> (Some (r, wait), w1))"

fun setup_all ::
  "'w TokenFetcher \<Rightarrow> (string \<times> real_adapter) list \<Rightarrow> 'w \<Rightarrow> (real_adapter Resolver \<times> duration) list \<times> 'w" where
  "setup_all fetch [] w = ([], w)"
| "setup_all fetch (p # ps) w =
     (case setupCredential fetch p w of
        (r, w1) \<Rightarrow> (case setup_all fetch ps w1 of (rs, w2) \<Rightarrow> (case r of None \<Rightarrow> rs | Some r \<Rightarrow> r # rs, w2)))"

fun real_iface :: "gateway_json \<Rightarrow> 'h http_client \<Rightarrow> real_adapter \<Rightarrow> (any_stream, 'h) Adapter" where
  "real_iface json client (RA_openai a) = as_any S_openai (openai_Adapter_iface (gj_openai_request json) client a)"
| "real_iface json client (RA_anthropic a) = as_any S_anthropic (anthropic_Adapter_iface (gj_anthropic json) client a)"

definition google_registration ::
  "gateway_json \<Rightarrow> 'h http_client \<Rightarrow> (string \<Rightarrow> string) \<Rightarrow> (any_stream, 'h) Adapter list" where
  "google_registration json client Getenv =
     (if Getenv ''GOOGLE_API_KEY'' \<noteq> []
      then [as_any S_google (google_Adapter_iface (gj_google_request json) client (google_New (Getenv ''GOOGLE_API_KEY'') []))]
      else [])"

text \<open>The names differ, so the order of registration does not matter to the registry.\<close>

definition main_registry ::
  "gateway_json \<Rightarrow> 'h http_client \<Rightarrow> (string \<Rightarrow> string) \<Rightarrow> (real_adapter Resolver \<times> duration) list \<Rightarrow> (any_stream, 'h) Registry" where
  "main_registry json client Getenv resolvers =
     NewRegistry
       (as_any S_fake (fake_Adapter_iface (gj_fake_request json) (gj_fake_decode json) client
            (fake_New (envOr Getenv ''PROVIDER_FAKE_URL'' ''http://provider-fake.default.svc.cluster.local:8080'')))
        # google_registration json client Getenv
        @ map (\<lambda>(r, _). real_iface json client (rv_adapter r)) resolvers)"

definition main_quotaPolicy :: "(string \<Rightarrow> string) \<Rightarrow> quota_Policy" where
  "main_quotaPolicy Getenv =
     \<lparr>Limit = envInt64Or Getenv ''QUOTA_LIMIT_PER_MINUTE'' 60, Window = 60 * nsPerSecond\<rparr>"

definition main_breakerConfig :: "(string \<Rightarrow> string) \<Rightarrow> breaker_Config" where
  "main_breakerConfig Getenv =
     \<lparr>FailureThreshold = envInt64Or Getenv ''BREAKER_FAILURE_THRESHOLD'' 5,
      OpenDuration = wrap64 (envInt64Or Getenv ''BREAKER_OPEN_DURATION_SECONDS'' 30 * nsPerSecond)\<rparr>"

text \<open>\<^verbatim>\<open>GET /readyz\<close>: Redis answers the ping and every registered provider has a credential.\<close>

definition gateway_readyz :: "go_error option \<Rightarrow> real_adapter Resolver list \<Rightarrow> int \<times> string" where
  "gateway_readyz redis_ping resolvers =
     (if redis_ping \<noteq> None then (503, ''not ready'')
      else if list_ex (\<lambda>r. CurrentSource r = sourceNone) resolvers then (503, ''not ready'')
      else (200, ''ready''))"

section \<open>Facts on the streams of the pipeline\<close>

text \<open>A connection that takes every message.\<close>

definition record_send :: "InvokeResponse list sender" where
  "record_send r c = (None, c @ [r])"

lemma fold_record_send: "fold (\<lambda>r c. snd (record_send r c)) rs c = c @ rs"
  by (induction rs arbitrary: c) (simp_all add: record_send_def)

lemma drain_shape:
  assumes "drain recv s = Some ((ds, err), s')"
  shows "case err of None \<Rightarrow> (\<exists>xs d. ds = xs @ [d] \<and> IsFinal d \<and> list_all (\<lambda>d. \<not> IsFinal d) xs)
    | Some _ \<Rightarrow> list_all (\<lambda>d. \<not> IsFinal d) ds"
  using assms
proof (induction rule: drain_items_induct)
  case (more s d s1 ds err s')
  then show ?case
  proof (cases err)
    case None
    with more obtain xs d' where "ds = xs @ [d']" "IsFinal d'" "list_all (\<lambda>d. \<not> IsFinal d) xs" by auto
    with None more(2) have "d # ds = (d # xs) @ [d'] \<and> IsFinal d' \<and> list_all (\<lambda>d. \<not> IsFinal d) (d # xs)" by simp
    then have "\<exists>ys d'. d # ds = ys @ [d'] \<and> IsFinal d' \<and> list_all (\<lambda>d. \<not> IsFinal d) ys" by blast
    with None show ?thesis by simp
  qed simp
qed auto

lemma reporting_step:
  "recv s = (Inl e, s') \<Longrightarrow> reportingStream_Recv recv report ((s, False), w) = (Inl e, ((s', True), report False w))"
  "recv s = (Inr d, s') \<Longrightarrow> IsFinal d \<Longrightarrow>
     reportingStream_Recv recv report ((s, False), w) = (Inr d, ((s', True), report True w))"
  "recv s = (Inr d, s') \<Longrightarrow> \<not> IsFinal d \<Longrightarrow>
     reportingStream_Recv recv report ((s, f), w) = (Inr d, ((s', f), w))"
  by (simp_all add: reportingStream_Recv_def)

lemma drain_reporting:
  assumes "drain recv s = Some ((ds, err), s')"
  shows "\<forall>w. drain (reportingStream_Recv recv report) ((s, False), w) =
    Some ((ds, err), ((s', True), report (err = None) w))"
  using assms
proof (induction rule: drain_items_induct)
  case (error s e s')
  then show ?case by (intro allI, subst drain.simps) (simp add: reporting_step)
next
  case (final s d s')
  then show ?case by (intro allI, subst drain.simps) (simp add: reporting_step)
next
  case (more s d s1 ds err s')
  then show ?case by (intro allI, subst drain.simps) (simp add: reporting_step)
qed

lemma sub_Recv_item: "i < length (deltas b) \<Longrightarrow> sub_Recv b i = (Inr (deltas b ! i), Suc i)"
  by (simp add: sub_Recv_def subscriber_Recv_def)

lemma sub_Recv_end:
  "b_done b \<Longrightarrow> sub_Recv b (length (deltas b)) = (Inl (case b_err b of None \<Rightarrow> EOF | Some e \<Rightarrow> e), length (deltas b))"
  by (simp add: sub_Recv_def subscriber_Recv_def split: option.splits)

lemma drain_sub_error:
  assumes "b_done b" "list_all (\<lambda>d. \<not> IsFinal d) (deltas b)" "i \<le> length (deltas b)"
  shows "drain (sub_Recv b) i =
    Some ((drop i (deltas b), Some (case b_err b of None \<Rightarrow> EOF | Some e \<Rightarrow> e)), length (deltas b))"
  using assms(3)
proof (induction i rule: inc_induct)
  case base
  then show ?case using assms(1) by (simp add: drain.simps [of _ "length (deltas b)"] sub_Recv_end)
next
  case (step i)
  moreover have "\<not> IsFinal (deltas b ! i)" using assms(2) step by (simp add: list_all_length)
  ultimately show ?case by (simp add: drain.simps [of _ i] sub_Recv_item Cons_nth_drop_Suc [symmetric])
qed

lemma drain_sub_final:
  assumes "deltas b = xs @ [d]" "IsFinal d" "list_all (\<lambda>d. \<not> IsFinal d) xs" "i \<le> length xs"
  shows "drain (sub_Recv b) i = Some ((drop i (deltas b), None), length (deltas b))"
  using assms(4)
proof (induction i rule: inc_induct)
  case base
  then show ?case using assms(1,2) by (simp add: drain.simps [of _ "length xs"] sub_Recv_item)
next
  case (step i)
  moreover have "\<not> IsFinal (deltas b ! i)" using assms(1,3) step by (simp add: list_all_length nth_append)
  moreover have "i < length (deltas b)" using step assms(1) by simp
  from Cons_nth_drop_Suc [OF this] have "drop i (deltas b) = deltas b ! i # drop (Suc i) (deltas b)" ..
  moreover have "sub_Recv b i = (Inr (deltas b ! i), Suc i)" using step assms(1) by (simp add: sub_Recv_item)
  ultimately show ?case by (simp add: drain.simps [of _ i])
qed

text \<open>A subscriber sees what the leader's upstream delivered; an ending that is an EOF reaches it as a plain EOF.\<close>

lemma drain_sub_of_lead:
  assumes "drain recv s = Some ((ds, err), s')"
    and "b = \<lparr>deltas = ds, b_done = True, b_err = lead_outcome err\<rparr>"
  shows "drain (sub_Recv b) 0 =
    Some ((ds, case err of None \<Rightarrow> None | Some e \<Rightarrow> Some (if errors_Is e EOF then EOF else e)), length ds)"
proof (cases err)
  case None
  with drain_shape [OF assms(1)] obtain xs d where "ds = xs @ [d]" "IsFinal d" "list_all (\<lambda>d. \<not> IsFinal d) xs" by auto
  with drain_sub_final [of b xs d 0] assms(2) None show ?thesis by simp
next
  case (Some e)
  with drain_shape [OF assms(1)] have "list_all (\<lambda>d. \<not> IsFinal d) ds" by simp
  with drain_sub_error [of b 0] assms(2) Some show ?thesis by (simp add: lead_outcome_def)
qed

lemma server_lead_stream:
  assumes "server_call s ct p a areq w = Some ((Inr st, gs), w1)" "drain recv st = Some ((ds, err), st')"
  shows "server_lead s recv ct p a areq w =
    Some (\<lparr>deltas = ds, b_done = True, b_err = lead_outcome err\<rparr>, reportOutcome s p ct (err = None) w1)"
proof -
  have "drain (reportingStream_Recv recv (reportOutcome s p ct)) ((st, False), w1) =
      Some ((ds, err), ((st', True), reportOutcome s p ct (err = None) w1))"
    by (rule drain_reporting [OF assms(2), rule_format])
  from lead_loop_drain [OF this] assms(1) show ?thesis by (simp add: server_lead_def)
qed

text \<open>The handler once its request is resolved to an adapter and the broadcast it reads is known.\<close>

lemma server_Invoke_shared:
  assumes "ParseWorkerRef (pq_WorkerRef req) = Inr (p, m)" "Lookup (sv_registry s) p = Inr a"
    and "(case shared (Key (toAdapterRequest req m)) of
            Some b \<Rightarrow> Some (b, w) | None \<Rightarrow> server_lead s recv ct p a (toAdapterRequest req m) w) = Some (b, w1)"
    and "drain (sub_Recv b) 0 = Some ((ds, err), i)"
  shows "server_Invoke s recv Key shared ct req record_send w [] =
    Some ((case snd (relay_ending (pq_RequestId req) err) of
             None \<Rightarrow> None
           | Some e \<Rightarrow> (case errors_As_StreamUpstream e of
                          None \<Rightarrow> Some e | Some u \<Rightarrow> Some (StatusError Unavailable (error_text u))), w1),
      map (toPbDelta (pq_RequestId req)) ds @ fst (relay_ending (pq_RequestId req) err) @
      (case snd (relay_ending (pq_RequestId req) err) of
         None \<Rightarrow> []
       | Some e \<Rightarrow> (case errors_As_StreamUpstream e of None \<Rightarrow> [] | Some u \<Rightarrow> [bestEffort (pq_RequestId req)])))"
proof -
  let ?r = "relay_ending (pq_RequestId req) err"
  have "Relay (pq_RequestId req) (sub_Recv b) record_send 0 [] =
      Some ((snd ?r, i), map (toPbDelta (pq_RequestId req)) ds @ fst ?r)"
    using Relay_drain [OF assms(4), of record_send "pq_RequestId req"]
    by (simp add: fold_record_send) (simp add: record_send_def)
  with assms(1-3) show ?thesis
    by (auto simp: server_Invoke_def Let_def record_send_def split: option.splits)
qed

lemma errors_As_StreamUpstream_self [simp]: "errors_As_StreamUpstream (StreamUpstreamError e) = Some e"
  by simp

section \<open>The streams of all adapters come to an end\<close>

fun any_todo :: "any_stream \<Rightarrow> nat" where
  "any_todo (S_openai t) = length (sc_data (oa_scanner t))"
| "any_todo (S_anthropic t) = length (sc_data (an_scanner t))"
| "any_todo (S_google t) = length (sc_data (go_scanner t))"
| "any_todo (S_fake t) = length (fk_chunks t)"

fun any_closed :: "any_stream \<Rightarrow> bool" where
  "any_closed (S_openai t) = oa_closed t"
| "any_closed (S_anthropic t) = an_closed t"
| "any_closed (S_google t) = go_closed t"
| "any_closed (S_fake t) = fk_closed t"

interpretation any: closing_stream "any_Recv json" any_todo any_closed "\<lambda>_. True" for json
proof
  fix s d s' err
  show "fst (any_Recv json s) = Inr d \<Longrightarrow> any_todo (snd (any_Recv json s)) < any_todo s"
    using openai.recv_uses_up anthropic.recv_uses_up google.recv_uses_up fake.recv_uses_up
    by (cases s) (simp_all add: any_Recv_def)
  show "any_Recv json s = (Inl err, s') \<Longrightarrow> any_closed s'"
    using openai.recv_error_closes anthropic.recv_error_closes google.recv_error_closes fake.recv_error_closes
    by (cases s) (fastforce simp: any_Recv_def map_prod_def split: prod.splits)+
  show "any_Recv json s = (Inr d, s') \<Longrightarrow> IsFinal d \<Longrightarrow> any_closed s'"
    using openai.recv_final_closes anthropic.recv_final_closes google.recv_final_closes fake.recv_final_closes
    by (cases s) (fastforce simp: any_Recv_def map_prod_def split: prod.splits)+
qed simp

text \<open>So does the subscription to a broadcast.\<close>

interpretation subscription: finite_stream "sub_Recv b" "\<lambda>i. length (deltas b) - i" for b
  by unfold_locales (auto simp: sub_Recv_def subscriber_Recv_def split: if_splits option.splits)

section \<open>Properties\<close>

text \<open>
  A server with one provider, \<^verbatim>\<open>p\<close>, for the concrete instances: Redis is a pair of maps, the adapter
  answers with the list of items it is given, or with an error.
\<close>

type_synonym demo_world = "(string \<rightharpoonup> breaker_record) \<times> (string \<Rightarrow> int)"

definition demo_store :: "demo_world breaker_Store" where
  "demo_store =
     \<lparr>Store_Get = \<lambda>k w. (Inr (fst w k), w), Store_Set = \<lambda>k r w. (None, ((fst w)(k \<mapsto> r), snd w))\<rparr>"

definition demo_counter :: "demo_world quota_Counter" where
  "demo_counter =
     \<lparr>Counter_Increment = \<lambda>k _ w. (Inr (snd w k + 1), (fst w, (snd w)(k := snd w k + 1))),
      Counter_Peek = \<lambda>k w. (Inr (snd w k), w)\<rparr>"

definition demo_server :: "Delta list result \<Rightarrow> (Delta list, demo_world) server" where
  "demo_server ans =
     \<lparr>sv_registry = [(''p'', \<lparr>Adapter_Name = ''p'', Adapter_Invoke = \<lambda>_ w. (ans, w)\<rparr>)],
      sv_quotaCounter = demo_counter, sv_quotaPolicy = \<lparr>Limit = 60, Window = 60 * nsPerSecond\<rparr>,
      sv_breakerStore = demo_store, sv_breakerConfig = \<lparr>FailureThreshold = 5, OpenDuration = 30 * nsPerSecond\<rparr>\<rparr>"

definition demo_req :: pb_InvokeRequest where
  "demo_req = \<lparr>pq_RequestId = ''r1'', pq_WorkerRef = ''p:m'', pq_Messages = [], pq_Params = None\<rparr>"

definition demo_times :: call_times where
  "demo_times = \<lparr>ct_quota = 120, ct_breaker = 0, ct_report = 0\<rparr>"

definition demo_empty :: demo_world where
  "demo_empty = (Map.empty, \<lambda>_. 0)"

lemma demo_parse: "ParseWorkerRef (pq_WorkerRef demo_req) = Inr (''p'', ''m'')"
  by (simp add: ParseWorkerRef_ok demo_req_def)

lemma demo_lookup:
  "Lookup (sv_registry (demo_server ans)) ''p'' = Inr \<lparr>Adapter_Name = ''p'', Adapter_Invoke = \<lambda>_ w. (ans, w)\<rparr>"
  by (simp add: Lookup_def demo_server_def)

lemma demo_call:
  "server_call (demo_server ans) demo_times ''p'' \<lparr>Adapter_Name = ''p'', Adapter_Invoke = \<lambda>_ w. (ans, w)\<rparr> areq demo_empty =
     (let w1 = (Map.empty, (\<lambda>_. 0)(''provider:p:quota:2'' := 1));
          gs = [quotaHeadroomGauge ''p'' 59, breakerStateGauge ''p'' 0]
      in Some (case ans of Inl err \<Rightarrow> ((Inl err, gs), reportOutcome (demo_server ans) ''p'' demo_times False w1)
               | Inr st \<Rightarrow> ((Inr st, gs), w1)))"
proof -
  have "windowKey ''p'' (60 * nsPerSecond) 120 = Some ''provider:p:quota:2''"
    by (simp add: windowKey_def wholeSeconds_def nsPerSecond_def signed_divide_int_def show_int_def show_nat.simps go_simps)
  then show ?thesis
    by (simp add: server_call_def Enforce_def Decide_def breaker_Check_def demo_server_def demo_counter_def demo_store_def
        demo_times_def demo_empty_def wrap64_id in_int64_def Let_def split: sum.split)
qed

text \<open>
  C7. A call that reached its adapter: the caller receives every item the provider's stream delivered, in order and
  unchanged. If the stream ended with its final item the call succeeds; if it broke, the caller gets one
  synthetic final item with finish reason \<^verbatim>\<open>error\<close> and no usage, and the status Unavailable. The breaker is
  told the outcome once, success exactly for a stream that reached its final item.
\<close>

theorem gateway_invoke_outcome:
  assumes "ParseWorkerRef (pq_WorkerRef req) = Inr (p, m)" "Lookup (sv_registry s) p = Inr a"
    and "shared (Key (toAdapterRequest req m)) = None"
    and "server_call s ct p a (toAdapterRequest req m) w = Some ((Inr st, gs), w1)"
    and "drain recv st = Some ((ds, err), st')"
    and "\<forall>e. err = Some e \<longrightarrow> \<not> errors_Is e EOF \<and> errors_As_Fallback e = None"
  shows "server_Invoke s recv Key shared ct req record_send w [] =
    Some ((case err of None \<Rightarrow> None | Some e \<Rightarrow> Some (StatusError Unavailable (error_text e)),
           reportOutcome s p ct (err = None) w1),
          map (toPbDelta (pq_RequestId req)) ds @
          (case err of None \<Rightarrow> [] | Some _ \<Rightarrow> [bestEffort (pq_RequestId req)]))"
proof -
  let ?b = "\<lparr>deltas = ds, b_done = True, b_err = lead_outcome err\<rparr>"
  have l: "(case shared (Key (toAdapterRequest req m)) of Some b \<Rightarrow> Some (b, w)
      | None \<Rightarrow> server_lead s recv ct p a (toAdapterRequest req m) w) =
      Some (?b, reportOutcome s p ct (err = None) w1)"
    using server_lead_stream [OF assms(4,5)] assms(3) by simp
  show ?thesis
    using server_Invoke_shared [where Key = Key and shared = shared, OF assms(1,2) l drain_sub_of_lead [OF assms(5) refl]] assms(6)
    by (cases err) (simp_all add: relay_ending_def)
qed

theorem gateway_invoke_outcome_witness:
  "\<exists>w'. server_Invoke (demo_server (Inr [zeroDelta, zeroDelta\<lparr>IsFinal := True\<rparr>])) list_Recv (\<lambda>_. []) Map.empty demo_times
      demo_req record_send demo_empty [] =
    Some ((None, w'), [toPbDelta ''r1'' zeroDelta, toPbDelta ''r1'' (zeroDelta\<lparr>IsFinal := True\<rparr>)])"
proof -
  let ?ds = "[zeroDelta, zeroDelta\<lparr>IsFinal := True\<rparr>]"
  have d: "drain list_Recv ?ds = Some ((?ds, None), [])"
    by (simp add: drain.simps list_Recv_def zeroDelta_def)
  show ?thesis
    using gateway_invoke_outcome [where Key = "\<lambda>_. []" and shared = Map.empty,
        OF demo_parse demo_lookup _ demo_call [of "Inr ?ds", unfolded Let_def sum.case] d]
    by (simp add: demo_req_def)
qed

text \<open>
  C25. Declined calls: when the fleet's quota is exhausted, or the quota admits the call and the breaker denies it, the
  caller receives exactly one fallback signal with the reason and the provider, the call succeeds as an RPC, and
  the adapter is not invoked and no outcome is reported: nothing changes beyond the two checks.
\<close>

theorem gateway_declined_calls:
  assumes "ParseWorkerRef (pq_WorkerRef req) = Inr (p, m)" "Lookup (sv_registry s) p = Inr a"
    and "shared (Key (toAdapterRequest req m)) = None"
    and "Enforce (sv_quotaCounter s) p (sv_quotaPolicy s) (ct_quota ct) w = Some ((qd, n, qe), w1)"
  shows "(qd = quota_Throttle \<longrightarrow>
      server_Invoke s recv Key shared ct req record_send w [] =
        Some ((None, w1), [FallbackResponse (pq_RequestId req) p FALLBACK_REASON_QUOTA_EXHAUSTED])) \<and>
    (qd = quota_Allow \<and> breaker_Check (sv_breakerStore s) p (sv_breakerConfig s) (ct_breaker ct) w1 = ((Deny, be), w2) \<longrightarrow>
      server_Invoke s recv Key shared ct req record_send w [] =
        Some ((None, w2), [FallbackResponse (pq_RequestId req) p FALLBACK_REASON_BREAKER_OPEN]))"
proof -
  have lead: "server_Invoke s recv Key shared ct req record_send w [] =
      Some ((None, w'), [FallbackResponse (pq_RequestId req) p r])"
    if "server_call s ct p a (toAdapterRequest req m) w = Some ((Inl (FallbackError r p), gs), w')" for r gs w'
  proof -
    have l: "(case shared (Key (toAdapterRequest req m)) of Some b \<Rightarrow> Some (b, w)
        | None \<Rightarrow> server_lead s recv ct p a (toAdapterRequest req m) w) =
        Some (finish (Some (FallbackError r p)) newBroadcast, w')"
      using assms(3) that by (simp add: server_lead_def)
    have d: "drain (sub_Recv (finish (Some (FallbackError r p)) newBroadcast)) 0 = Some (([], Some (FallbackError r p)), 0)"
      using drain_sub_error [of "finish (Some (FallbackError r p)) newBroadcast" 0] by (simp add: finish_def newBroadcast_def)
    show ?thesis
      using server_Invoke_shared [where Key = Key and shared = shared, OF assms(1,2) l d] by (simp add: relay_ending_def)
  qed
  show ?thesis
    using assms(4) by (auto intro!: lead simp: server_call_def Let_def)
qed

theorem gateway_declined_calls_witness:
  "\<exists>w'. server_Invoke (demo_server (Inr [])) list_Recv (\<lambda>_. []) Map.empty demo_times demo_req record_send
      (Map.empty, (\<lambda>_. 0)(''provider:p:quota:2'' := 60)) [] =
    Some ((None, w'), [FallbackResponse ''r1'' ''p'' FALLBACK_REASON_QUOTA_EXHAUSTED])"
proof -
  have "windowKey ''p'' (60 * nsPerSecond) 120 = Some ''provider:p:quota:2''"
    by (simp add: windowKey_def wholeSeconds_def nsPerSecond_def signed_divide_int_def show_int_def show_nat.simps go_simps)
  then have "Enforce (sv_quotaCounter (demo_server (Inr []))) ''p'' (sv_quotaPolicy (demo_server (Inr []))) (ct_quota demo_times)
      (Map.empty, (\<lambda>_. 0)(''provider:p:quota:2'' := 60)) =
      Some ((quota_Throttle, 61, None), (Map.empty, (\<lambda>_. 0)(''provider:p:quota:2'' := 61)))"
    by (simp add: Enforce_def Decide_def demo_server_def demo_counter_def demo_times_def)
  from gateway_declined_calls [where Key = "\<lambda>_. []" and shared = Map.empty, OF demo_parse demo_lookup _ this]
  show ?thesis by (simp add: demo_req_def)
qed

text \<open>
  A follower costs nothing: a call that joins one in flight leaves quota, breaker and provider untouched and
  receives the shared items and ending.
\<close>

theorem gateway_follower_consumes_nothing:
  assumes "ParseWorkerRef (pq_WorkerRef req) = Inr (p, m)" "Lookup (sv_registry s) p = Inr a"
    and "shared (Key (toAdapterRequest req m)) = Some \<lparr>deltas = ds, b_done = True, b_err = lead_outcome err\<rparr>"
    and "drain leader_recv leader_st = Some ((ds, err), st')"
    and "\<forall>e. err = Some e \<longrightarrow> \<not> errors_Is e EOF \<and> errors_As_Fallback e = None"
  shows "server_Invoke s recv Key shared ct req record_send w [] =
    Some ((case err of None \<Rightarrow> None | Some e \<Rightarrow> Some (StatusError Unavailable (error_text e)), w),
          map (toPbDelta (pq_RequestId req)) ds @
          (case err of None \<Rightarrow> [] | Some _ \<Rightarrow> [bestEffort (pq_RequestId req)]))"
proof -
  have l: "(case shared (Key (toAdapterRequest req m)) of Some b \<Rightarrow> Some (b, w)
      | None \<Rightarrow> server_lead s recv ct p a (toAdapterRequest req m) w) =
      Some (\<lparr>deltas = ds, b_done = True, b_err = lead_outcome err\<rparr>, w)"
    using assms(3) by simp
  show ?thesis
    using server_Invoke_shared [where Key = Key and shared = shared, OF assms(1,2) l drain_sub_of_lead [OF assms(4) refl]] assms(5)
    by (cases err) (simp_all add: relay_ending_def)
qed

theorem gateway_follower_consumes_nothing_witness:
  "server_Invoke (demo_server (Inr [])) list_Recv (\<lambda>_. ''k'')
      [''k'' \<mapsto> \<lparr>deltas = [zeroDelta\<lparr>IsFinal := True\<rparr>], b_done = True, b_err = None\<rparr>] demo_times
      demo_req record_send demo_empty [] =
    Some ((None, demo_empty), [toPbDelta ''r1'' (zeroDelta\<lparr>IsFinal := True\<rparr>)])"
proof -
  let ?ds = "[zeroDelta\<lparr>IsFinal := True\<rparr>]"
  have d: "drain list_Recv ?ds = Some ((?ds, None), [])"
    by (simp add: drain.simps list_Recv_def zeroDelta_def)
  show ?thesis
    using gateway_follower_consumes_nothing [where Key = "\<lambda>_. ''k''" and
        shared = "[''k'' \<mapsto> \<lparr>deltas = [zeroDelta\<lparr>IsFinal := True\<rparr>], b_done = True, b_err = None\<rparr>]",
        OF demo_parse demo_lookup _ d, of "Inr []" list_Recv demo_times demo_empty]
    by (simp add: demo_req_def lead_outcome_def)
qed

text \<open>
  However the adapter's stream ends, the outcome is reported exactly once while it is drained, as a success exactly if
  it reached its final item, and never again by a later \<^verbatim>\<open>Recv\<close>.
\<close>

theorem gateway_outcome_reported_once:
  assumes "drain recv s = Some ((ds, err), s')"
  shows "drain (reportingStream_Recv recv (\<lambda>success log. log @ [success])) ((s, False), []) =
      Some ((ds, err), ((s', True), [err = None])) \<and>
    snd (snd (reportingStream_Recv recv report ((s', True), w))) = w"
  using drain_reporting [OF assms, rule_format, of "\<lambda>success log. log @ [success]" "[]"]
  by (auto simp: reportingStream_Recv_def split: prod.splits sum.splits)

theorem gateway_outcome_reported_once_witness:
  "drain (reportingStream_Recv list_Recv (\<lambda>success log. log @ [success])) (([zeroDelta], False), []) =
     Some (([zeroDelta], Some EOF), (([], True), [False]))"
proof -
  have "drain list_Recv [zeroDelta] = Some (([zeroDelta], Some EOF), [])"
    by (simp add: drain.simps list_Recv_def zeroDelta_def)
  from gateway_outcome_reported_once [OF this, of "\<lambda>_ w. w" "()"] show ?thesis by simp
qed

text \<open>
  C27. A provider that is lost before or during its answer can look like a success to the caller: when the adapter's
  \<^verbatim>\<open>Invoke\<close> fails with an error that wraps \<^verbatim>\<open>io.EOF\<close> (a connection closed before the response) the RPC succeeds with no
  message at all, and when the stream ends with such an error before its final item the RPC succeeds without a
  final item, although the breaker is told of a failure.
\<close>

theorem gateway_eof_reported_as_success:
  assumes "ParseWorkerRef (pq_WorkerRef req) = Inr (p, m)" "Lookup (sv_registry s) p = Inr a"
    and "shared (Key (toAdapterRequest req m)) = None" "errors_Is e EOF"
  shows "(server_call s ct p a (toAdapterRequest req m) w = Some ((Inl e, gs), w1) \<longrightarrow>
      server_Invoke s recv Key shared ct req record_send w [] = Some ((None, w1), [])) \<and>
    (server_call s ct p a (toAdapterRequest req m) w = Some ((Inr st, gs), w1) \<and> drain recv st = Some ((ds, Some e), st') \<longrightarrow>
      server_Invoke s recv Key shared ct req record_send w [] =
        Some ((None, reportOutcome s p ct False w1), map (toPbDelta (pq_RequestId req)) ds) \<and>
      list_all (\<lambda>d. \<not> IsFinal d) ds)"
proof (intro conjI impI)
  assume c: "server_call s ct p a (toAdapterRequest req m) w = Some ((Inl e, gs), w1)"
  have l: "(case shared (Key (toAdapterRequest req m)) of Some b \<Rightarrow> Some (b, w)
      | None \<Rightarrow> server_lead s recv ct p a (toAdapterRequest req m) w) = Some (finish (Some e) newBroadcast, w1)"
    using assms(3) c by (simp add: server_lead_def)
  have d: "drain (sub_Recv (finish (Some e) newBroadcast)) 0 = Some (([], Some e), 0)"
    using drain_sub_error [of "finish (Some e) newBroadcast" 0] by (simp add: finish_def newBroadcast_def)
  show "server_Invoke s recv Key shared ct req record_send w [] = Some ((None, w1), [])"
    using server_Invoke_shared [where Key = Key and shared = shared, OF assms(1,2) l d] assms(4) by (simp add: relay_ending_def)
next
  assume "server_call s ct p a (toAdapterRequest req m) w = Some ((Inr st, gs), w1) \<and> drain recv st = Some ((ds, Some e), st')"
  then have c: "server_call s ct p a (toAdapterRequest req m) w = Some ((Inr st, gs), w1)"
    and d: "drain recv st = Some ((ds, Some e), st')" by simp_all
  have l: "(case shared (Key (toAdapterRequest req m)) of Some b \<Rightarrow> Some (b, w)
      | None \<Rightarrow> server_lead s recv ct p a (toAdapterRequest req m) w) =
      Some (\<lparr>deltas = ds, b_done = True, b_err = lead_outcome (Some e)\<rparr>, reportOutcome s p ct False w1)"
    using server_lead_stream [OF c d] assms(3) by simp
  show "server_Invoke s recv Key shared ct req record_send w [] =
      Some ((None, reportOutcome s p ct False w1), map (toPbDelta (pq_RequestId req)) ds)"
    using server_Invoke_shared [where Key = Key and shared = shared, OF assms(1,2) l drain_sub_of_lead [OF d refl]] assms(4)
    by (simp add: relay_ending_def)
  show "list_all (\<lambda>d. \<not> IsFinal d) ds" using drain_shape [OF d] by simp
qed

theorem gateway_eof_reported_as_success_witness:
  "\<exists>w'. server_Invoke (demo_server (Inl (Wrap ''openai adapter: request failed: '' (Wrap ''Post: '' EOF []) [])))
      list_Recv (\<lambda>_. []) Map.empty demo_times demo_req record_send demo_empty [] = Some ((None, w'), [])"
  using gateway_eof_reported_as_success [where Key = "\<lambda>_. []" and shared = Map.empty, OF demo_parse demo_lookup,
      of "Wrap ''openai adapter: request failed: '' (Wrap ''Post: '' EOF []) []"
         "Inl (Wrap ''openai adapter: request failed: '' (Wrap ''Post: '' EOF []) [])" demo_times demo_empty]
  by (simp add: demo_call Let_def)

text \<open>
  C28. The coalescing key does not contain the provider: two requests that differ only in the provider part of
  \<^verbatim>\<open>worker_ref\<close> have the same key, so the second, arriving while the first is in flight, is answered by the
  first one's provider.
\<close>

theorem gateway_key_ignores_provider:
  assumes "ParseWorkerRef (p @ '':'' @ m) = Inr (p, m)" "ParseWorkerRef (p' @ '':'' @ m) = Inr (p', m)"
    and "req = \<lparr>pq_RequestId = rid, pq_WorkerRef = p @ '':'' @ m, pq_Messages = ms, pq_Params = ps\<rparr>"
    and "req' = \<lparr>pq_RequestId = rid', pq_WorkerRef = p' @ '':'' @ m, pq_Messages = ms, pq_Params = ps\<rparr>"
    and "shared = [coalesce_Key sha256_hex fmt_f (toAdapterRequest req m) \<mapsto> b]"
    and "drain (sub_Recv b) 0 = Some ((ds, None), i)" "Lookup (sv_registry s) p' = Inr a'"
  shows "coalesce_Key sha256_hex fmt_f (toAdapterRequest req' m) = coalesce_Key sha256_hex fmt_f (toAdapterRequest req m) \<and>
    server_Invoke s recv (coalesce_Key sha256_hex fmt_f) shared ct req' record_send w [] =
      Some ((None, w), map (toPbDelta rid') ds)"
proof -
  have k: "coalesce_Key sha256_hex fmt_f (toAdapterRequest req' m) = coalesce_Key sha256_hex fmt_f (toAdapterRequest req m)"
    by (simp add: assms(3,4) coalesce_Key_def Key_lines_def toAdapterRequest_def Let_def split: option.split)
  have pr: "ParseWorkerRef (pq_WorkerRef req') = Inr (p', m)" using assms(2,4) by simp
  have l: "(case shared (coalesce_Key sha256_hex fmt_f (toAdapterRequest req' m)) of Some b \<Rightarrow> Some (b, w)
      | None \<Rightarrow> server_lead s recv ct p' a' (toAdapterRequest req' m) w) = Some (b, w)"
    using assms(5) k by simp
  show ?thesis
    using server_Invoke_shared [where Key = "coalesce_Key sha256_hex fmt_f" and shared = shared, OF pr assms(7) l assms(6)] k
    by (simp add: relay_ending_def assms(4))
qed

theorem gateway_key_ignores_provider_witness:
  "server_Invoke (demo_server (Inr [])) list_Recv (coalesce_Key (\<lambda>t. t) (\<lambda>_. []))
      [coalesce_Key (\<lambda>t. t) (\<lambda>_. []) (toAdapterRequest \<lparr>pq_RequestId = ''r1'', pq_WorkerRef = ''q:m'', pq_Messages = [], pq_Params = None\<rparr> ''m'')
        \<mapsto> \<lparr>deltas = [zeroDelta\<lparr>IsFinal := True\<rparr>], b_done = True, b_err = None\<rparr>] demo_times
      \<lparr>pq_RequestId = ''r2'', pq_WorkerRef = ''p:m'', pq_Messages = [], pq_Params = None\<rparr> record_send demo_empty [] =
    Some ((None, demo_empty), [toPbDelta ''r2'' (zeroDelta\<lparr>IsFinal := True\<rparr>)])"
proof -
  let ?b = "\<lparr>deltas = [zeroDelta\<lparr>IsFinal := True\<rparr>], b_done = True, b_err = None\<rparr>"
  have d: "drain (sub_Recv ?b) 0 = Some (([zeroDelta\<lparr>IsFinal := True\<rparr>], None), 1)"
    using drain_sub_final [of ?b "[]" "zeroDelta\<lparr>IsFinal := True\<rparr>" 0] by simp
  have "ParseWorkerRef (''q'' @ '':'' @ ''m'') = Inr (''q'', ''m'')" "ParseWorkerRef (''p'' @ '':'' @ ''m'') = Inr (''p'', ''m'')"
    by (simp_all add: ParseWorkerRef_ok)
  from gateway_key_ignores_provider [where rid = "''r1''" and rid' = "''r2''" and ms = "[]" and ps = None
      and sha256_hex = "\<lambda>t. t" and fmt_f = "\<lambda>_. []" and w = demo_empty and ct = demo_times,
      OF this refl refl refl d demo_lookup, THEN conjunct2]
  show ?thesis by simp
qed

text \<open>
  C26. With the real adapters the handler always returns, for every request, every answer of the providers and every
  behaviour of the caller's connection; the only exception is a quota window shorter than a second, on which the
  window arithmetic panics.
\<close>

theorem gateway_invoke_returns:
  assumes "wholeSeconds (Window (sv_quotaPolicy s)) \<noteq> 0"
    and "\<forall>k b. shared k = Some b \<longrightarrow> b_done b"
  shows "\<exists>r. server_Invoke s (any_Recv json) Key shared ct req send w c = Some r"
proof -
  have relay: "\<exists>r. Relay rid (sub_Recv b) send 0 c = Some r" for rid b
    using subscription.drain_returns [of b 0] Relay_returns by metis
  have call: "\<exists>r. server_call s ct p a areq w = Some r" for p a areq
  proof -
    have "Enforce (sv_quotaCounter s) p (sv_quotaPolicy s) (ct_quota ct) w \<noteq> None"
      using quota_fails_open [of "sv_quotaCounter s" p "sv_quotaPolicy s" "ct_quota ct" w] assms(1) by simp
    then show ?thesis
      by (auto simp: server_call_def Let_def split: prod.splits sum.splits)
  qed
  have lead: "\<exists>b w1. server_lead s (any_Recv json) ct p a areq w = Some (b, w1)" for p a areq
  proof -
    obtain r gs w1 where c: "server_call s ct p a areq w = Some ((r, gs), w1)" using call by (metis prod.collapse)
    show ?thesis
    proof (cases r)
      case (Inl e)
      with c show ?thesis by (simp add: server_lead_def)
    next
      case (Inr st)
      obtain ds err st' where "drain (any_Recv json) st = Some ((ds, err), st')" using any.drain_returns by blast
      from server_lead_stream [OF c [unfolded Inr] this] show ?thesis by blast
    qed
  qed
  show ?thesis
  proof (cases "ParseWorkerRef (pq_WorkerRef req)")
    case (Inl e)
    then show ?thesis by (simp add: server_Invoke_def)
  next
    case (Inr pm)
    obtain p m where pm: "pm = (p, m)" by fastforce
    show ?thesis
    proof (cases "Lookup (sv_registry s) p")
      case (Inl e)
      with Inr pm show ?thesis by (simp add: server_Invoke_def)
    next
      case Inr': (Inr a)
      obtain b w1 where "(case shared (Key (toAdapterRequest req m)) of Some b \<Rightarrow> Some (b, w)
          | None \<Rightarrow> server_lead s (any_Recv json) ct p a (toAdapterRequest req m) w) = Some (b, w1)"
        using lead [of p a "toAdapterRequest req m"] by (cases "shared (Key (toAdapterRequest req m))") auto
      moreover obtain x i c1 where "Relay (pq_RequestId req) (sub_Recv b) send 0 c = Some ((x, i), c1)"
        using relay by (metis prod.collapse)
      ultimately show ?thesis
        using \<open>ParseWorkerRef (pq_WorkerRef req) = Inr pm\<close> pm Inr'
        by (auto simp: server_Invoke_def Let_def split: option.split prod.split)
    qed
  qed
qed

definition demo_json :: gateway_json where
  "demo_json = gateway_codec (\<lambda>_. ''1'') (\<lambda>_ _. Sentinel ''io'' ''unexpected EOF'')"

definition demo_any_server :: "(any_stream, demo_world) server" where
  "demo_any_server =
     \<lparr>sv_registry = [(''p'', \<lparr>Adapter_Name = ''p'',
          Adapter_Invoke = \<lambda>_ w. (Inr (S_fake \<lparr>fk_chunks = [], fk_end = EOF, fk_closed = False\<rparr>), w)\<rparr>)],
      sv_quotaCounter = demo_counter, sv_quotaPolicy = \<lparr>Limit = 60, Window = 60 * nsPerSecond\<rparr>,
      sv_breakerStore = demo_store, sv_breakerConfig = \<lparr>FailureThreshold = 5, OpenDuration = 30 * nsPerSecond\<rparr>\<rparr>"

theorem gateway_invoke_returns_witness:
  "\<exists>r. server_Invoke demo_any_server (any_Recv demo_json) Model Map.empty demo_times demo_req record_send demo_empty [] = Some r"
  by (rule gateway_invoke_returns)
    (simp_all add: demo_any_server_def wholeSeconds_def nsPerSecond_def signed_divide_int_def)

text \<open>
  A request that names no provider, or one that is not registered, is refused before anything else happens.
\<close>

lemma gateway_rejects:
  "ParseWorkerRef (pq_WorkerRef req) = Inl e \<Longrightarrow>
     server_Invoke s recv Key shared ct req send w c = Some ((Some (StatusError InvalidArgument (error_text e)), w), c)"
  "ParseWorkerRef (pq_WorkerRef req) = Inr (p, m) \<Longrightarrow> Lookup (sv_registry s) p = Inl e \<Longrightarrow>
     server_Invoke s recv Key shared ct req send w c = Some ((Some (StatusError NotFound (error_text e)), w), c)"
  by (simp_all add: server_Invoke_def)

text \<open>
  \<^verbatim>\<open>ProviderHealth\<close> is a read: on a working Redis it leaves quota counters and breaker records as they are and
  reports one status per requested provider, in order, with the breaker's effective state and a headroom
  between 0 and 1.
\<close>

theorem gateway_health_reads_only:
  assumes "breaker_kv (sv_breakerStore s) lookup ok" "quota_counter (sv_quotaCounter s) count" "ok w"
    and "\<forall>p. windowKey p (Window (sv_quotaPolicy s)) (ct_quota ct) \<noteq> None" "0 < Limit (sv_quotaPolicy s)" "in_int64 (Limit (sv_quotaPolicy s))"
    and "\<forall>k. 0 \<le> count w k \<and> in_int64 (count w k)"
  shows "\<exists>sts. ProviderHealth s ct provider w = Some (sts, w) \<and>
    map ps_Provider sts = (if provider \<noteq> [] then [provider] else Names (sv_registry s)) \<and>
    (\<forall>st \<in> set sts. 0 \<le> ps_QuotaHeadroom st \<and> ps_QuotaHeadroom st \<le> 1 \<and>
       ps_BreakerState st = breakerStateToPb (effectiveState (lookup w (breaker_key (ps_Provider st))) (ct_breaker ct)
          (OpenDuration (sv_breakerConfig s))))"
proof -
  have "\<exists>sts. health_statuses s ct names w = Some (sts, w) \<and> map ps_Provider sts = names \<and>
    (\<forall>st \<in> set sts. 0 \<le> ps_QuotaHeadroom st \<and> ps_QuotaHeadroom st \<le> 1 \<and>
       ps_BreakerState st = breakerStateToPb (effectiveState (lookup w (breaker_key (ps_Provider st))) (ct_breaker ct)
          (OpenDuration (sv_breakerConfig s))))" for names
  proof (induction names)
    case (Cons name names)
    obtain k where k: "windowKey name (Window (sv_quotaPolicy s)) (ct_quota ct) = Some k" using assms(4) by fastforce
    let ?h = "rat_of_int (max 0 (Limit (sv_quotaPolicy s) - count w k)) / rat_of_int (Limit (sv_quotaPolicy s))"
    have "Headroom (sv_quotaCounter s) name (sv_quotaPolicy s) (ct_quota ct) w = Some (Inr ?h, w)"
      using quota_counter.Headroom_value [OF assms(2) k assms(5,6)] assms(7) by simp
    moreover have "0 \<le> ?h" "?h \<le> 1" using assms(5,7) by (simp_all add: divide_le_eq)
    moreover have "breaker_CurrentState (sv_breakerStore s) name (sv_breakerConfig s) (ct_breaker ct) w =
        ((effectiveState (lookup w (breaker_key name)) (ct_breaker ct) (OpenDuration (sv_breakerConfig s)), None), w)"
      using breaker_kv.Get_lookup [OF assms(1,3)] by (simp add: breaker_CurrentState_def)
    ultimately show ?case using Cons by auto
  qed simp
  then show ?thesis by (simp add: ProviderHealth_def)
qed

lemma demo_store_kv: "breaker_kv demo_store fst (\<lambda>w. \<forall>k r. fst w k = Some r \<longrightarrow> record_ok r)"
  by unfold_locales (auto simp: demo_store_def)

lemma demo_counter_laws: "quota_counter demo_counter snd"
  by unfold_locales (simp_all add: demo_counter_def)

theorem gateway_health_reads_only_witness:
  "\<exists>sts. ProviderHealth (demo_server (Inr [])) demo_times [] demo_empty = Some (sts, demo_empty) \<and> map ps_Provider sts = [''p'']"
proof -
  have "\<forall>p. windowKey p (Window (sv_quotaPolicy (demo_server (Inr [])))) (ct_quota demo_times) \<noteq> None"
    by (simp add: windowKey_def demo_server_def wholeSeconds_def nsPerSecond_def signed_divide_int_def)
  then show ?thesis
    using gateway_health_reads_only [of "demo_server (Inr [])" fst "\<lambda>w. \<forall>k r. fst w k = Some r \<longrightarrow> record_ok r" snd demo_empty demo_times "[]"]
      demo_store_kv demo_counter_laws
    by (auto simp: demo_server_def demo_empty_def in_int64_def Names_def)
qed

section \<open>Registration\<close>

fun real_name :: "real_adapter \<Rightarrow> string" where
  "real_name (RA_openai a) = oa_name a"
| "real_name (RA_anthropic a) = anthropic_ProviderName"

lemma real_name_SetAPIKey [simp]: "real_name (real_SetAPIKey k a) = real_name a"
  by (cases a) (simp_all add: openai_SetAPIKey_def)

lemma Adapter_Name_real_iface [simp]: "Adapter_Name (real_iface json client a) = real_name a"
  by (cases a) (simp_all add: as_any_def openai_Adapter_iface_def anthropic_Adapter_iface_def openai_Name_def)

lemma setup_all_names:
  assumes "\<forall>p \<in> set ps. real_name (snd p) = fst p" "setup_all fetch ps w = (rs, w')"
  shows "(\<forall>(r, wait) \<in> set rs. real_name (rv_adapter r) = rv_provider r \<and> rv_source r = SourceVault \<and> 0 < wait) \<and>
    rv_provider ` fst ` set rs \<subseteq> fst ` set ps"
  using assms
proof (induction ps arbitrary: w rs)
  case (Cons p ps)
  obtain r w1 where s: "setupCredential fetch p w = (r, w1)" by fastforce
  obtain rs1 where t: "setup_all fetch ps w1 = (rs1, w')" "rs = (case r of None \<Rightarrow> rs1 | Some x \<Rightarrow> x # rs1)"
    using Cons.prems(2) s by (auto split: prod.splits)
  have new: "real_name (rv_adapter a) = rv_provider a \<and> rv_source a = SourceVault \<and> 0 < wait \<and> rv_provider a = fst p"
    if "r = Some (a, wait)" for a wait
    using s that Cons.prems(1) Refresh_wait_positive [of fetch real_SetAPIKey "NewResolver (fst p) (snd p)" w]
    by (auto simp: setupCredential_def Resolver_Refresh_def NewResolver_def Let_def split: prod.splits sum.splits if_splits)
  have old: "(\<forall>(r, wait) \<in> set rs1. real_name (rv_adapter r) = rv_provider r \<and> rv_source r = SourceVault \<and> 0 < wait) \<and>
      rv_provider ` fst ` set rs1 \<subseteq> fst ` set ps"
    using Cons.IH [OF _ t(1)] Cons.prems(1) by simp
  show ?case
  proof (cases r)
    case None
    with old t(2) show ?thesis by (simp add: subset_insertI2)
  next
    case (Some x)
    obtain a wait where x: "x = (a, wait)" by fastforce
    note n = new [OF Some [unfolded x]]
    have "rs = (a, wait) # rs1" using t(2) Some x by simp
    with old n show ?thesis by (simp add: subset_insertI2)
  qed
qed simp

lemma real_providers_names: "\<forall>p \<in> set real_providers. real_name (snd p) = fst p"
  by (simp add: real_providers_def openai_New_def openai_NewNamed_def openai_NewNamedWithPath_def Let_def)

text \<open>
  Exactly the providers whose credential was resolved are registered, besides the test harness and, with its
  environment variable set, Google; right after start-up every one of them has a credential, so the pod is
  ready as soon as Redis answers.
\<close>

lemma gateway_registers_resolved:
  assumes "setup_all fetch real_providers w = (rs, w')"
  shows "set (Names (main_registry json client Getenv rs)) =
      {''fake''} \<union> (if Getenv ''GOOGLE_API_KEY'' \<noteq> [] then {''google''} else {}) \<union> rv_provider ` fst ` set rs"
    and "gateway_readyz None (map fst rs) = (200, ''ready'')"
proof -
  have n: "\<forall>(r, wait) \<in> set rs. real_name (rv_adapter r) = rv_provider r \<and> rv_source r = SourceVault \<and> 0 < wait"
    using setup_all_names [OF real_providers_names assms] by blast
  have "Adapter_Name ` set (map (\<lambda>(r, _). real_iface json client (rv_adapter r)) rs) = rv_provider ` fst ` set rs"
    using n by (force simp: image_iff)
  then show "set (Names (main_registry json client Getenv rs)) =
      {''fake''} \<union> (if Getenv ''GOOGLE_API_KEY'' \<noteq> [] then {''google''} else {}) \<union> rv_provider ` fst ` set rs"
    by (auto simp: main_registry_def set_Names_NewRegistry google_registration_def as_any_def
        fake_Adapter_iface_def google_Adapter_iface_def)
  show "gateway_readyz None (map fst rs) = (200, ''ready'')"
    using n by (auto simp: gateway_readyz_def list_ex_iff CurrentSource_def)
qed

end
