(* ===== verification/Rollout.thy ===== *)
theory Rollout
  imports Registry
begin

text \<open>
  The staged canary of control-plane (\<^verbatim>\<open>services/control-plane/internal/rollout\<close>): a rollout moves from
  \<^verbatim>\<open>pending\<close> over three canary stages to \<^verbatim>\<open>stable\<close>, by a human promotion or by the reconciler, and can be
  aborted or rolled back. The operations are programs of \<open>Resumption\<close> over the store, the etcd publisher and the
  registry, so that replicas and human operators can interleave at every call.

  \<open>cas_store\<close> is the contract of \<open>UpdateRollout\<close>, which both stores keep; \<open>rollout_store\<close> adds the primary
  key. The main results are about every interleaving: a write moves one stage, a finished rollout never moves again,
  and verdicts about one stage move the rollout once.
\<close>

section \<open>Model\<close>

definition rollout_ErrNotFound :: go_error where "rollout_ErrNotFound = Sentinel ''rollout'' ''rollout not found''"
definition ErrNotRunning :: go_error where "ErrNotRunning = Sentinel ''rollout'' ''rollout is not running''"
definition ErrAlreadyRunning :: go_error where
  "ErrAlreadyRunning = Sentinel ''rollout'' ''model_ref already has a running rollout''"
definition ErrNoActiveVersion :: go_error where
  "ErrNoActiveVersion = Sentinel ''rollout'' ''model_ref has no active version to roll out against''"
definition ErrAlreadyFullyPromoted :: go_error where
  "ErrAlreadyFullyPromoted = Sentinel ''rollout'' ''rollout is already fully promoted''"
definition ErrConcurrentUpdate :: go_error where
  "ErrConcurrentUpdate = Sentinel ''rollout'' ''rollout changed concurrently; write refused''"

definition stageOrder :: "string list" where
  "stageOrder = [''pending'', ''canary_1'', ''canary_10'', ''canary_50'', ''stable'']"

text \<open>The map, with the zero value for a missing key.\<close>

definition stagePercent :: "string \<Rightarrow> int" where
  "stagePercent stage =
     (case map_of [(''pending'', 0), (''canary_1'', 1), (''canary_10'', 10), (''canary_50'', 50), (''stable'', 100)] stage of
        None \<Rightarrow> 0 | Some p \<Rightarrow> p)"

definition StagePercent :: "string \<Rightarrow> int" where
  "StagePercent stage = wrap32 (stagePercent stage)"

fun nextStage_in :: "string list \<Rightarrow> string \<Rightarrow> string option" where
  "nextStage_in [] current = None"
| "nextStage_in (s # rest) current =
     (if s = current then (case rest of [] \<Rightarrow> None | next # _ \<Rightarrow> Some next) else nextStage_in rest current)"

definition nextStage :: "string \<Rightarrow> string option" where
  "nextStage current = nextStage_in stageOrder current"

record Rollout =
  ro_RolloutID :: string
  ro_ModelRef :: string
  ro_VersionID :: string
  ro_StrategyJSON :: string
  ro_Stage :: string
  ro_Status :: string
  ro_StableVersionID :: string
  ro_StartedAt :: int
  ro_EndedAt :: "int option"
  ro_StageEnteredAt :: int

record 'w rollout_Store =
  rt_InsertRollout :: "Rollout \<Rightarrow> 'w \<Rightarrow> go_error option \<times> 'w"
  rt_GetRollout :: "string \<Rightarrow> 'w \<Rightarrow> Rollout option result \<times> 'w"
  rt_GetRunningRolloutByModelRef :: "string \<Rightarrow> 'w \<Rightarrow> Rollout option result \<times> 'w"
  rt_GetMostRecentRolloutByModelRef :: "string \<Rightarrow> 'w \<Rightarrow> Rollout option result \<times> 'w"
  rt_ListRunningRollouts :: "'w \<Rightarrow> Rollout list result \<times> 'w"
  rt_ListRollouts :: "string \<Rightarrow> int \<Rightarrow> 'w \<Rightarrow> Rollout list result \<times> 'w"
  rt_UpdateRollout :: "string \<Rightarrow> string \<Rightarrow> string \<Rightarrow> string \<Rightarrow> int option \<Rightarrow> 'w \<Rightarrow> go_error option \<times> 'w"

text \<open>The service with its publisher and its slice of the registry.\<close>

record 'w rollout_Service =
  rl_store :: "'w rollout_Store"
  rl_PublishCanaryState :: "string \<Rightarrow> string \<Rightarrow> string \<Rightarrow> int \<Rightarrow> 'w \<Rightarrow> go_error option \<times> 'w"
  rl_GetModelManifest :: "string \<Rightarrow> string \<Rightarrow> ('w, Manifest result) prog"
  rl_ActivateVersion :: "string \<Rightarrow> string \<Rightarrow> ('w, go_error option) prog"
  rl_json_Valid :: "string \<Rightarrow> bool"
  rl_NewUUID :: "'w \<Rightarrow> string \<times> 'w"
  rl_Now :: "'w \<Rightarrow> int \<times> 'w"

definition advanceStage :: "'w rollout_Service \<Rightarrow> string \<Rightarrow> string \<Rightarrow> ('w, string result) prog" where
  "advanceStage s rolloutID requireStage =
     bindE (act (rt_GetRollout (rl_store s) rolloutID)) (\<lambda>err. Ret (Inl err))
       (\<lambda>row. case row of
          None \<Rightarrow> Ret (Inl rollout_ErrNotFound)
        | Some r \<Rightarrow>
            if requireStage \<noteq> [] \<and> ro_Stage r \<noteq> requireStage then Ret (Inl ErrConcurrentUpdate)
            else if ro_Status r \<noteq> ''running'' then Ret (Inl ErrNotRunning)
            else (case nextStage (ro_Stage r) of
                None \<Rightarrow> Ret (Inl ErrAlreadyFullyPromoted)
              | Some next \<Rightarrow>
                  if next = ''stable'' then
                    bindO (rl_ActivateVersion s (ro_ModelRef r) (ro_VersionID r))
                      (\<lambda>err. Ret (Inl (Wrap ''activating promoted version: '' err [])))
                      (bindP (act (rl_Now s)) (\<lambda>endedAt.
                       bindO (act (rt_UpdateRollout (rl_store s) rolloutID (ro_Stage r) next ''promoted'' (Some endedAt)))
                         (\<lambda>err. Ret (Inl (Wrap ''recording promotion: '' err [])))
                         (Ret (Inr next))))
                  else
                    bindO (act (rl_PublishCanaryState s (ro_ModelRef r) (ro_StableVersionID r) (ro_VersionID r)
                                 (stagePercent next)))
                      (\<lambda>err. Ret (Inl (Wrap ''publishing canary state: '' err [])))
                      (bindO (act (rt_UpdateRollout (rl_store s) rolloutID (ro_Stage r) next ''running'' None))
                         (\<lambda>err. Ret (Inl (Wrap ''recording stage advance: '' err [])))
                         (Ret (Inr next)))))"

definition revertCanary :: "'w rollout_Service \<Rightarrow> string \<Rightarrow> string \<Rightarrow> string \<Rightarrow> ('w, go_error option) prog" where
  "revertCanary s rolloutID resultStatus requireStage =
     bindE (act (rt_GetRollout (rl_store s) rolloutID)) (\<lambda>err. Ret (Some err))
       (\<lambda>row. case row of
          None \<Rightarrow> Ret (Some rollout_ErrNotFound)
        | Some r \<Rightarrow>
            if requireStage \<noteq> [] \<and> ro_Stage r \<noteq> requireStage then Ret (Some ErrConcurrentUpdate)
            else if ro_Status r \<noteq> ''running'' then Ret (Some ErrNotRunning)
            else
              bindO (act (rl_PublishCanaryState s (ro_ModelRef r) (ro_StableVersionID r) [] 0))
                (\<lambda>err. Ret (Some (Wrap ''reverting canary state: '' err [])))
                (bindP (act (rl_Now s)) (\<lambda>endedAt.
                 bindO (act (rt_UpdateRollout (rl_store s) rolloutID (ro_Stage r) (ro_Stage r) resultStatus (Some endedAt)))
                   (\<lambda>err. Ret (Some (Wrap ''recording revert: '' err [])))
                   (Ret None))))"

definition CreateRollout :: "'w rollout_Service \<Rightarrow> string \<Rightarrow> string \<Rightarrow> string \<Rightarrow> ('w, string result) prog" where
  "CreateRollout s modelRef versionID strategyJSON =
     (if \<not> rl_json_Valid s strategyJSON then Ret (Inl (ErrorString ''strategy_json is not valid JSON''))
      else
        bindE (rl_GetModelManifest s modelRef versionID)
          (\<lambda>err. Ret (Inl (Wrap ''target version invalid: '' err [])))
          (\<lambda>_.
        bindE (rl_GetModelManifest s modelRef [])
          (\<lambda>err. Ret (Inl (Wrap [] ErrNoActiveVersion ('': '' @ error_text err))))
          (\<lambda>activeManifest.
        bindE (act (rt_GetRunningRolloutByModelRef (rl_store s) modelRef))
          (\<lambda>err. Ret (Inl (Wrap ''checking for an existing rollout: '' err [])))
          (\<lambda>running.
             if running \<noteq> None then Ret (Inl ErrAlreadyRunning)
             else
               bindP (act (rl_NewUUID s)) (\<lambda>rolloutID.
               bindP (act (rl_Now s)) (\<lambda>now.
               bindO (act (rt_InsertRollout (rl_store s)
                        \<lparr>ro_RolloutID = rolloutID, ro_ModelRef = modelRef, ro_VersionID = versionID,
                         ro_StrategyJSON = strategyJSON, ro_Stage = ''pending'', ro_Status = ''running'',
                         ro_StableVersionID = mf_VersionID activeManifest, ro_StartedAt = now, ro_EndedAt = None,
                         ro_StageEnteredAt = 0\<rparr>))
                 (\<lambda>err. Ret (Inl (Wrap ''inserting rollout: '' err [])))
                 (bindE (advanceStage s rolloutID [])
                    (\<lambda>err. Ret (Inl (Wrap ''starting canary: '' err [])))
                    (\<lambda>_. Ret (Inr rolloutID)))))))))"

definition PromoteRollout :: "'w rollout_Service \<Rightarrow> string \<Rightarrow> ('w, string result) prog" where
  "PromoteRollout s rolloutID = advanceStage s rolloutID []"

definition AbortRollout :: "'w rollout_Service \<Rightarrow> string \<Rightarrow> ('w, go_error option) prog" where
  "AbortRollout s rolloutID = revertCanary s rolloutID ''aborted'' []"

definition AutoAdvance :: "'w rollout_Service \<Rightarrow> string \<Rightarrow> string \<Rightarrow> ('w, string result) prog" where
  "AutoAdvance s rolloutID fromStage = advanceStage s rolloutID fromStage"

definition AutoRollback :: "'w rollout_Service \<Rightarrow> string \<Rightarrow> string \<Rightarrow> ('w, go_error option) prog" where
  "AutoRollback s rolloutID fromStage = revertCanary s rolloutID ''rolled_back'' fromStage"

definition rollout_ListRunningRollouts :: "'w rollout_Service \<Rightarrow> ('w, Rollout list result) prog" where
  "rollout_ListRunningRollouts s = act (rt_ListRunningRollouts (rl_store s))"

definition GetRolloutStatus :: "'w rollout_Service \<Rightarrow> string \<Rightarrow> string \<Rightarrow> ('w, Rollout result) prog" where
  "GetRolloutStatus s rolloutID modelRef =
     (if rolloutID \<noteq> [] then
        bindE (act (rt_GetRollout (rl_store s) rolloutID)) (\<lambda>err. Ret (Inl err))
          (\<lambda>row. case row of None \<Rightarrow> Ret (Inl rollout_ErrNotFound) | Some r \<Rightarrow> Ret (Inr r))
      else if modelRef = [] then Ret (Inl (ErrorString ''either rollout_id or model_ref is required''))
      else
        bindE (act (rt_GetMostRecentRolloutByModelRef (rl_store s) modelRef)) (\<lambda>err. Ret (Inl err))
          (\<lambda>row. case row of None \<Rightarrow> Ret (Inl rollout_ErrNotFound) | Some r \<Rightarrow> Ret (Inr r)))"

abbreviation (input) DefaultRolloutListLimit :: int where "DefaultRolloutListLimit \<equiv> 50"
abbreviation (input) maxRolloutListLimit :: int where "maxRolloutListLimit \<equiv> 500"

definition rollout_ListRollouts :: "'w rollout_Service \<Rightarrow> string \<Rightarrow> int \<Rightarrow> ('w, Rollout list result) prog" where
  "rollout_ListRollouts s modelRef limit =
     (let limit1 = (if limit \<le> 0 then DefaultRolloutListLimit else limit);
          limit2 = (if limit1 > maxRolloutListLimit then maxRolloutListLimit else limit1)
      in act (rt_ListRollouts (rl_store s) modelRef limit2))"

subsection \<open>CockroachStore\<close>

record rollout_tables = reg_tables +
  t_rollout :: "Rollout list"

definition find_rollout :: "string \<Rightarrow> Rollout list \<Rightarrow> Rollout option" where
  "find_rollout rolloutID rs = find (\<lambda>r. ro_RolloutID r = rolloutID) rs"

text \<open>\<^verbatim>\<open>ORDER BY started_at DESC\<close>.\<close>

definition newest_first :: "Rollout list \<Rightarrow> Rollout list" where
  "newest_first rs = sort_key (\<lambda>r. - ro_StartedAt r) rs"

definition first_row :: "Rollout list \<Rightarrow> Rollout option" where
  "first_row rs = (case rs of [] \<Rightarrow> None | r # _ \<Rightarrow> Some r)"

text \<open>The columns \<^verbatim>\<open>ended_at\<close> and \<^verbatim>\<open>stage_entered_at\<close> take their defaults.\<close>

definition Cockroach_InsertRollout ::
  "Rollout \<Rightarrow> 'z rollout_tables_scheme \<Rightarrow> go_error option \<times> 'z rollout_tables_scheme" where
  "Cockroach_InsertRollout r =
     remote Some db_next (\<lambda>w.
       if find_rollout (ro_RolloutID r) (t_rollout w) \<noteq> None then (Some ErrUniqueViolation, w)
       else (None, w\<lparr>t_rollout := t_rollout w @ [r\<lparr>ro_EndedAt := None, ro_StageEnteredAt := env_now w\<rparr>]\<rparr>))"

definition Cockroach_GetRollout ::
  "string \<Rightarrow> 'z rollout_tables_scheme \<Rightarrow> Rollout option result \<times> 'z rollout_tables_scheme" where
  "Cockroach_GetRollout rolloutID = remote Inl db_next (\<lambda>w. (Inr (find_rollout rolloutID (t_rollout w)), w))"

definition Cockroach_GetRunningRolloutByModelRef ::
  "string \<Rightarrow> 'z rollout_tables_scheme \<Rightarrow> Rollout option result \<times> 'z rollout_tables_scheme" where
  "Cockroach_GetRunningRolloutByModelRef modelRef =
     remote Inl db_next (\<lambda>w.
       (Inr (first_row (newest_first
          (filter (\<lambda>r. ro_ModelRef r = modelRef \<and> ro_Status r = ''running'') (t_rollout w)))), w))"

definition Cockroach_ListRunningRollouts ::
  "'z rollout_tables_scheme \<Rightarrow> Rollout list result \<times> 'z rollout_tables_scheme" where
  "Cockroach_ListRunningRollouts =
     remote Inl db_next (\<lambda>w. (Inr (filter (\<lambda>r. ro_Status r = ''running'') (t_rollout w)), w))"

definition Cockroach_ListRollouts ::
  "string \<Rightarrow> int \<Rightarrow> 'z rollout_tables_scheme \<Rightarrow> Rollout list result \<times> 'z rollout_tables_scheme" where
  "Cockroach_ListRollouts modelRef limit =
     remote Inl db_next (\<lambda>w.
       (Inr (take (nat limit) (newest_first
          (if modelRef = [] then t_rollout w else filter (\<lambda>r. ro_ModelRef r = modelRef) (t_rollout w)))), w))"

definition Cockroach_GetMostRecentRolloutByModelRef ::
  "string \<Rightarrow> 'z rollout_tables_scheme \<Rightarrow> Rollout option result \<times> 'z rollout_tables_scheme" where
  "Cockroach_GetMostRecentRolloutByModelRef modelRef =
     remote Inl db_next (\<lambda>w.
       (Inr (first_row (newest_first (filter (\<lambda>r. ro_ModelRef r = modelRef) (t_rollout w)))), w))"

definition moved :: "string \<Rightarrow> string \<Rightarrow> int option \<Rightarrow> int \<Rightarrow> Rollout \<Rightarrow> Rollout" where
  "moved stage status endedAt now r =
     r\<lparr>ro_Stage := stage, ro_Status := status, ro_EndedAt := endedAt, ro_StageEnteredAt := now\<rparr>"

definition put_rollout :: "Rollout \<Rightarrow> Rollout list \<Rightarrow> Rollout list" where
  "put_rollout x rs = map (\<lambda>r. if ro_RolloutID r = ro_RolloutID x then x else r) rs"

text \<open>
  The compare-and-swap. The primary key selects at most one row; no row is affected when it is missing, at another
  stage or no longer running.
\<close>

definition Cockroach_UpdateRollout ::
  "string \<Rightarrow> string \<Rightarrow> string \<Rightarrow> string \<Rightarrow> int option \<Rightarrow> 'z rollout_tables_scheme \<Rightarrow> go_error option \<times> 'z rollout_tables_scheme" where
  "Cockroach_UpdateRollout rolloutID expectedStage stage status endedAt =
     remote Some db_next (\<lambda>w.
       case find_rollout rolloutID (t_rollout w) of
         None \<Rightarrow> (Some ErrConcurrentUpdate, w)
       | Some r \<Rightarrow>
           if ro_Stage r = expectedStage \<and> ro_Status r = ''running''
           then (None, w\<lparr>t_rollout := put_rollout (moved stage status endedAt (env_now w) r) (t_rollout w)\<rparr>)
           else (Some ErrConcurrentUpdate, w))"

definition rollout_CockroachStore :: "'z rollout_tables_scheme rollout_Store" where
  "rollout_CockroachStore =
     \<lparr>rt_InsertRollout = Cockroach_InsertRollout, rt_GetRollout = Cockroach_GetRollout,
      rt_GetRunningRolloutByModelRef = Cockroach_GetRunningRolloutByModelRef,
      rt_GetMostRecentRolloutByModelRef = Cockroach_GetMostRecentRolloutByModelRef,
      rt_ListRunningRollouts = Cockroach_ListRunningRollouts, rt_ListRollouts = Cockroach_ListRollouts,
      rt_UpdateRollout = Cockroach_UpdateRollout\<rparr>"

subsection \<open>FakeStore, FakePublisher and FakeRegistry\<close>

text \<open>
  Go visits a map in an arbitrary order; the order of the association list is one of them, for every list with the
  same entries.
\<close>

record rollout_FakeStore =
  rf_rollouts :: "(string \<times> Rollout) list"
  rf_LastListLimit :: int
  rf_clock :: int

definition rollout_NewFakeStore :: "int \<Rightarrow> rollout_FakeStore" where
  "rollout_NewFakeStore now = \<lparr>rf_rollouts = [], rf_LastListLimit = 0, rf_clock = now\<rparr>"

definition FakeStore_InsertRollout ::
  "Rollout \<Rightarrow> 'z rollout_FakeStore_scheme \<Rightarrow> go_error option \<times> 'z rollout_FakeStore_scheme" where
  "FakeStore_InsertRollout r f = (None, f\<lparr>rf_rollouts := AList.update (ro_RolloutID r) r (rf_rollouts f)\<rparr>)"

definition FakeStore_GetRollout ::
  "string \<Rightarrow> 'z rollout_FakeStore_scheme \<Rightarrow> Rollout option result \<times> 'z rollout_FakeStore_scheme" where
  "FakeStore_GetRollout rolloutID f = (Inr (map_of (rf_rollouts f) rolloutID), f)"

definition FakeStore_GetRunningRolloutByModelRef ::
  "string \<Rightarrow> 'z rollout_FakeStore_scheme \<Rightarrow> Rollout option result \<times> 'z rollout_FakeStore_scheme" where
  "FakeStore_GetRunningRolloutByModelRef modelRef f =
     (Inr (find (\<lambda>r. ro_ModelRef r = modelRef \<and> ro_Status r = ''running'') (map snd (rf_rollouts f))), f)"

definition FakeStore_ListRunningRollouts ::
  "'z rollout_FakeStore_scheme \<Rightarrow> Rollout list result \<times> 'z rollout_FakeStore_scheme" where
  "FakeStore_ListRunningRollouts f = (Inr (filter (\<lambda>r. ro_Status r = ''running'') (map snd (rf_rollouts f))), f)"

definition FakeStore_ListRollouts ::
  "string \<Rightarrow> int \<Rightarrow> 'z rollout_FakeStore_scheme \<Rightarrow> Rollout list result \<times> 'z rollout_FakeStore_scheme" where
  "FakeStore_ListRollouts modelRef limit f =
     (let out = newest_first (filter (\<lambda>r. \<not> (modelRef \<noteq> [] \<and> ro_ModelRef r \<noteq> modelRef)) (map snd (rf_rollouts f)))
      in (Inr (if limit > 0 \<and> int (length out) > limit then take (nat limit) out else out),
          f\<lparr>rf_LastListLimit := limit\<rparr>))"

fun most_recent :: "string \<Rightarrow> Rollout option \<Rightarrow> Rollout list \<Rightarrow> Rollout option" where
  "most_recent modelRef most [] = most"
| "most_recent modelRef most (r # rs) =
     (if ro_ModelRef r \<noteq> modelRef then most_recent modelRef most rs
      else most_recent modelRef
        (case most of None \<Rightarrow> Some r | Some x \<Rightarrow> if ro_StartedAt r > ro_StartedAt x then Some r else most) rs)"

definition FakeStore_GetMostRecentRolloutByModelRef ::
  "string \<Rightarrow> 'z rollout_FakeStore_scheme \<Rightarrow> Rollout option result \<times> 'z rollout_FakeStore_scheme" where
  "FakeStore_GetMostRecentRolloutByModelRef modelRef f = (Inr (most_recent modelRef None (map snd (rf_rollouts f))), f)"

definition FakeStore_UpdateRollout ::
  "string \<Rightarrow> string \<Rightarrow> string \<Rightarrow> string \<Rightarrow> int option \<Rightarrow> 'z rollout_FakeStore_scheme \<Rightarrow> go_error option \<times> 'z rollout_FakeStore_scheme" where
  "FakeStore_UpdateRollout rolloutID expectedStage stage status endedAt f =
     (case map_of (rf_rollouts f) rolloutID of
        None \<Rightarrow> (None, f)
      | Some r \<Rightarrow>
          if ro_Stage r \<noteq> expectedStage \<or> ro_Status r \<noteq> ''running'' then (Some ErrConcurrentUpdate, f)
          else (None, f\<lparr>rf_rollouts := AList.update rolloutID (moved stage status endedAt (rf_clock f) r) (rf_rollouts f)\<rparr>))"

definition rollout_FakeStore_ops :: "'z rollout_FakeStore_scheme rollout_Store" where
  "rollout_FakeStore_ops =
     \<lparr>rt_InsertRollout = FakeStore_InsertRollout, rt_GetRollout = FakeStore_GetRollout,
      rt_GetRunningRolloutByModelRef = FakeStore_GetRunningRolloutByModelRef,
      rt_GetMostRecentRolloutByModelRef = FakeStore_GetMostRecentRolloutByModelRef,
      rt_ListRunningRollouts = FakeStore_ListRunningRollouts, rt_ListRollouts = FakeStore_ListRollouts,
      rt_UpdateRollout = FakeStore_UpdateRollout\<rparr>"

record CanaryWrite =
  cw_ModelRef :: string
  cw_StableVersionID :: string
  cw_CanaryVersionID :: string
  cw_Percent :: int

record rollout_FakePublisher =
  rp_Calls :: "CanaryWrite list"
  rp_Err :: "go_error option"

definition FakePublisher_PublishCanaryState ::
  "string \<Rightarrow> string \<Rightarrow> string \<Rightarrow> int \<Rightarrow> 'z rollout_FakePublisher_scheme \<Rightarrow> go_error option \<times> 'z rollout_FakePublisher_scheme" where
  "FakePublisher_PublishCanaryState modelRef stableVersionID canaryVersionID percent f =
     (if rp_Err f \<noteq> None then (rp_Err f, f)
      else (None, f\<lparr>rp_Calls := rp_Calls f @ [\<lparr>cw_ModelRef = modelRef, cw_StableVersionID = stableVersionID,
                cw_CanaryVersionID = canaryVersionID, cw_Percent = percent\<rparr>]\<rparr>))"

definition FakePublisher_LastCall :: "'z rollout_FakePublisher_scheme \<Rightarrow> CanaryWrite" where
  "FakePublisher_LastCall f =
     (if length (rp_Calls f) = 0
      then \<lparr>cw_ModelRef = [], cw_StableVersionID = [], cw_CanaryVersionID = [], cw_Percent = 0\<rparr>
      else rp_Calls f ! (length (rp_Calls f) - 1))"

record FakeRegistry =
  fr_manifests :: "string \<rightharpoonup> Manifest"
  fr_active :: "string \<rightharpoonup> string"
  fr_ActivateErr :: "go_error option"

definition zero_Manifest :: Manifest where
  "zero_Manifest = \<lparr>mf_VersionID = [], mf_ModelRef = [], mf_SpecJSON = [], mf_Signature = [], mf_CreatedBy = [],
     mf_CreatedAt = 0, mf_Status = []\<rparr>"

definition FakeRegistry_Seed :: "string \<Rightarrow> string \<Rightarrow> 'z FakeRegistry_scheme \<Rightarrow> 'z FakeRegistry_scheme" where
  "FakeRegistry_Seed modelRef versionID f =
     f\<lparr>fr_manifests := (fr_manifests f)(modelRef @ ''/'' @ versionID \<mapsto>
         zero_Manifest\<lparr>mf_ModelRef := modelRef, mf_VersionID := versionID\<rparr>)\<rparr>"

definition FakeRegistry_SeedActive :: "string \<Rightarrow> string \<Rightarrow> 'z FakeRegistry_scheme \<Rightarrow> 'z FakeRegistry_scheme" where
  "FakeRegistry_SeedActive modelRef versionID f =
     (let f1 = FakeRegistry_Seed modelRef versionID f in f1\<lparr>fr_active := (fr_active f1)(modelRef \<mapsto> versionID)\<rparr>)"

definition FakeRegistry_GetModelManifest ::
  "string \<Rightarrow> string \<Rightarrow> 'z FakeRegistry_scheme \<Rightarrow> Manifest result \<times> 'z FakeRegistry_scheme" where
  "FakeRegistry_GetModelManifest modelRef versionID f =
     (let v = (if versionID = [] then (case fr_active f modelRef of None \<Rightarrow> [] | Some a \<Rightarrow> a) else versionID)
      in if versionID = [] \<and> v = [] then (Inl registry_ErrNotFound, f)
         else (case fr_manifests f (modelRef @ ''/'' @ v) of
                 None \<Rightarrow> (Inl registry_ErrNotFound, f)
               | Some m \<Rightarrow> (Inr m, f)))"

definition FakeRegistry_ActivateVersion ::
  "string \<Rightarrow> string \<Rightarrow> 'z FakeRegistry_scheme \<Rightarrow> go_error option \<times> 'z FakeRegistry_scheme" where
  "FakeRegistry_ActivateVersion modelRef versionID f =
     (if fr_ActivateErr f \<noteq> None then (fr_ActivateErr f, f)
      else (None, f\<lparr>fr_active := (fr_active f)(modelRef \<mapsto> versionID)\<rparr>))"

definition FakeRegistry_CurrentActive :: "string \<Rightarrow> 'z FakeRegistry_scheme \<Rightarrow> string" where
  "FakeRegistry_CurrentActive modelRef f = (case fr_active f modelRef of None \<Rightarrow> [] | Some v \<Rightarrow> v)"

section \<open>The contract of a store\<close>

locale cas_store =
  fixes st :: "'w rollout_Store"
    and rows :: "'w \<Rightarrow> string \<rightharpoonup> Rollout"
  assumes GetRollout_law:
    "rt_GetRollout st i w = (r, w') \<Longrightarrow> rows w' = rows w \<and> (\<forall>x. r = Inr x \<longrightarrow> x = rows w i)"
    and GetRunning_law:
    "rt_GetRunningRolloutByModelRef st m w = (r, w') \<Longrightarrow>
       rows w' = rows w \<and>
       (r = Inr None \<longrightarrow> (\<forall>j x. rows w j = Some x \<longrightarrow> \<not> (ro_ModelRef x = m \<and> ro_Status x = ''running'')))"
    and GetMostRecent_keeps: "keeps rows (rt_GetMostRecentRolloutByModelRef st m)"
    and ListRunning_keeps: "keeps rows (rt_ListRunningRollouts st)"
    and ListRollouts_keeps: "keeps rows (rt_ListRollouts st m l)"
    and UpdateRollout_law:
    "rt_UpdateRollout st i frm to status e w = (ru, w') \<Longrightarrow>
       rows w' = rows w \<and> (ru = None \<longrightarrow> rows w i = None) \<or>
       (\<exists>x t. rows w i = Some x \<and> ro_Stage x = frm \<and> ro_Status x = ''running'' \<and>
          rows w' = (rows w)(i \<mapsto> moved to status e t x))"

locale rollout_store = cas_store +
  assumes InsertRollout_law:
    "rt_InsertRollout st x w = (ru, w') \<Longrightarrow>
       rows w' = rows w \<and> ru \<noteq> None \<or>
       rows w (ro_RolloutID x) = None \<and>
       (\<exists>t. rows w' = (rows w)(ro_RolloutID x \<mapsto> x\<lparr>ro_EndedAt := None, ro_StageEnteredAt := t\<rparr>))"

section \<open>Moves of a rollout\<close>

text \<open>One write of the service to one row.\<close>

definition row_step :: "Rollout \<Rightarrow> Rollout \<Rightarrow> bool" where
  "row_step x y \<longleftrightarrow>
     ro_Status x = ''running'' \<and>
     (\<exists>to status e t. y = moved to status e t x \<and>
        (nextStage (ro_Stage x) = Some to \<and> (if to = ''stable'' then status = ''promoted'' \<and> e \<noteq> None else status = ''running'' \<and> e = None) \<or>
         to = ro_Stage x \<and> status \<in> {''aborted'', ''rolled_back''} \<and> e \<noteq> None))"

definition stage_index :: "string \<Rightarrow> nat" where
  "stage_index stage = length (takeWhile (\<lambda>s. s \<noteq> stage) stageOrder)"

lemma nextStage_eq:
  "nextStage x =
     (if x = ''pending'' then Some ''canary_1'' else if x = ''canary_1'' then Some ''canary_10''
      else if x = ''canary_10'' then Some ''canary_50'' else if x = ''canary_50'' then Some ''stable'' else None)"
  unfolding nextStage_def stageOrder_def by simp

lemma nextStage_cases:
  "nextStage x = Some y \<Longrightarrow>
     x = ''pending'' \<and> y = ''canary_1'' \<or> x = ''canary_1'' \<and> y = ''canary_10'' \<or>
     x = ''canary_10'' \<and> y = ''canary_50'' \<or> x = ''canary_50'' \<and> y = ''stable''"
  unfolding nextStage_eq by (simp only: option.inject option.distinct split: if_split_asm) simp_all

lemma nextStage_index: "nextStage x = Some y \<Longrightarrow> stage_index y = Suc (stage_index x) \<and> y \<noteq> x"
  by (drule nextStage_cases, elim disjE conjE) (simp_all add: stage_index_def stageOrder_def)

lemma row_step_fields:
  "row_step x y \<Longrightarrow>
     ro_RolloutID y = ro_RolloutID x \<and> ro_ModelRef y = ro_ModelRef x \<and> ro_VersionID y = ro_VersionID x \<and>
     ro_StableVersionID y = ro_StableVersionID x \<and> ro_StrategyJSON y = ro_StrategyJSON x \<and> ro_StartedAt y = ro_StartedAt x \<and>
     stage_index (ro_Stage x) \<le> stage_index (ro_Stage y) \<and> stage_index (ro_Stage y) \<le> Suc (stage_index (ro_Stage x))"
  by (auto simp: row_step_def moved_def dest: nextStage_index)

lemma row_step_running: "row_step x y \<Longrightarrow> ro_Status x = ''running''"
  by (simp add: row_step_def)

lemma row_step_leaves: "row_step x y \<Longrightarrow> ro_Status y = ''running'' \<Longrightarrow> ro_Stage y \<noteq> ro_Stage x"
  by (auto simp: row_step_def moved_def dest: nextStage_index split: if_splits)

text \<open>A row is at the last stage exactly when it was promoted, and has an end exactly when it is over.\<close>

definition row_wf :: "Rollout \<Rightarrow> bool" where
  "row_wf x \<longleftrightarrow>
     ro_Stage x \<in> set stageOrder \<and> ro_Status x \<in> {''running'', ''promoted'', ''rolled_back'', ''aborted''} \<and>
     (ro_Stage x = ''stable'') = (ro_Status x = ''promoted'') \<and> (ro_EndedAt x = None) = (ro_Status x = ''running'')"

lemma row_step_wf:
  assumes "row_step x y" "row_wf x"
  shows "row_wf y"
proof -
  from assms(1) obtain to status e t where y: "y = moved to status e t x" and run: "ro_Status x = ''running''" and
    c: "nextStage (ro_Stage x) = Some to \<and> (if to = ''stable'' then status = ''promoted'' \<and> e \<noteq> None else status = ''running'' \<and> e = None) \<or>
        to = ro_Stage x \<and> status \<in> {''aborted'', ''rolled_back''} \<and> e \<noteq> None"
    by (auto simp: row_step_def)
  from c show ?thesis
  proof
    assume "nextStage (ro_Stage x) = Some to \<and> (if to = ''stable'' then status = ''promoted'' \<and> e \<noteq> None else status = ''running'' \<and> e = None)"
    then have n: "nextStage (ro_Stage x) = Some to" and
      st: "if to = ''stable'' then status = ''promoted'' \<and> e \<noteq> None else status = ''running'' \<and> e = None" by auto
    from nextStage_cases [OF n] show ?thesis
      by (elim disjE conjE) (use st y in \<open>simp_all add: row_wf_def moved_def stageOrder_def\<close>)
  next
    assume "to = ro_Stage x \<and> status \<in> {''aborted'', ''rolled_back''} \<and> e \<noteq> None"
    then show ?thesis using y run assms(2) by (auto simp: row_wf_def moved_def)
  qed
qed

lemma row_steps_terminal: "row_step\<^sup>*\<^sup>* x y \<Longrightarrow> ro_Status x \<noteq> ''running'' \<Longrightarrow> y = x"
  by (induction rule: converse_rtranclp_induct) (auto dest: row_step_running)

lemma row_steps_wf: "row_step\<^sup>*\<^sup>* x y \<Longrightarrow> row_wf x \<Longrightarrow> row_wf y"
  by (induction rule: rtranclp_induct) (auto intro: row_step_wf)

lemma row_steps_fields:
  "row_step\<^sup>*\<^sup>* x y \<Longrightarrow>
     ro_RolloutID y = ro_RolloutID x \<and> ro_ModelRef y = ro_ModelRef x \<and> ro_VersionID y = ro_VersionID x \<and>
     ro_StableVersionID y = ro_StableVersionID x \<and> ro_StrategyJSON y = ro_StrategyJSON x \<and> ro_StartedAt y = ro_StartedAt x \<and>
     stage_index (ro_Stage x) \<le> stage_index (ro_Stage y)"
proof (induction rule: rtranclp_induct)
  case (step y z)
  then show ?case using row_step_fields [OF step.hyps(2)] by simp
qed simp

text \<open>
  What one action of an operation on rollout \<open>i\<close> may do to the table: nothing, or one move of that row to one of
  the statuses \<open>S\<close>, from the required stage when one is required.
\<close>

definition one_move :: "('w \<Rightarrow> string \<rightharpoonup> Rollout) \<Rightarrow> string set \<Rightarrow> string \<Rightarrow> string \<Rightarrow> 'w \<Rightarrow> 'w \<Rightarrow> bool" where
  "one_move rows S i req w w' \<longleftrightarrow>
     rows w' = rows w \<or>
     (\<exists>x y. rows w i = Some x \<and> row_step x y \<and> ro_Status y \<in> S \<and> (req \<noteq> [] \<longrightarrow> ro_Stage x = req) \<and> rows w' = (rows w)(i \<mapsto> y))"

text \<open>What any operation may do: rows move, and a new row starts at the first stage.\<close>

definition rows_step :: "('w \<Rightarrow> string \<rightharpoonup> Rollout) \<Rightarrow> 'w \<Rightarrow> 'w \<Rightarrow> bool" where
  "rows_step rows w w' \<longleftrightarrow>
     (\<forall>i x. rows w i = Some x \<longrightarrow> (\<exists>y. rows w' i = Some y \<and> row_step\<^sup>*\<^sup>* x y)) \<and>
     (\<forall>i y. rows w i = None \<and> rows w' i = Some y \<longrightarrow> row_wf y)"

lemma one_move_mono: "one_move rows S i req w w' \<Longrightarrow> S \<subseteq> T \<Longrightarrow> one_move rows T i req w w'"
  by (auto simp: one_move_def)

lemma one_move_any: "guar (one_move rows S i req) p \<Longrightarrow> guar (one_move rows UNIV i req) p"
  by (erule guar_mono) (erule one_move_mono, simp)

lemma one_move_rows_step: "one_move rows S i req w w' \<Longrightarrow> rows_step rows w w'"
  by (auto simp: one_move_def rows_step_def split: if_splits)

lemma rows_steps_row:
  "(rows_step rows)\<^sup>*\<^sup>* w w' \<Longrightarrow> rows w i = Some x \<Longrightarrow> \<exists>y. rows w' i = Some y \<and> row_step\<^sup>*\<^sup>* x y"
proof (induction rule: rtranclp_induct)
  case (step u v)
  then obtain y where y: "rows u i = Some y" "row_step\<^sup>*\<^sup>* x y" by blast
  with step.hyps(2) obtain z where "rows v i = Some z" "row_step\<^sup>*\<^sup>* y z" unfolding rows_step_def by blast
  with y(2) show ?case by (meson rtranclp_trans)
qed simp

lemma rows_steps_wf:
  "(rows_step rows)\<^sup>*\<^sup>* w w' \<Longrightarrow> \<forall>i x. rows w i = Some x \<longrightarrow> row_wf x \<Longrightarrow> rows w' i = Some y \<Longrightarrow> row_wf y"
proof (induction arbitrary: i y rule: rtranclp_induct)
  case (step u v)
  show ?case
  proof (cases "rows u i")
    case None
    with step.hyps(2) step.prems(2) show ?thesis unfolding rows_step_def by blast
  next
    case (Some x)
    then have "row_wf x" using step.IH step.prems(1) by blast
    moreover have "row_step\<^sup>*\<^sup>* x y" using step.hyps(2) Some step.prems(2) unfolding rows_step_def by fastforce
    ultimately show ?thesis by (rule row_steps_wf [rotated])
  qed
qed blast

text \<open>Moves that all start at one stage add up to at most one.\<close>

lemma one_moves_once:
  assumes "(one_move rows S i req)\<^sup>*\<^sup>* w w'" "req \<noteq> []"
  shows "rows w' = rows w \<or>
    (\<exists>x y. rows w i = Some x \<and> row_step x y \<and> ro_Status y \<in> S \<and> ro_Stage x = req \<and> rows w' = (rows w)(i \<mapsto> y))"
  using assms(1)
proof (induction rule: rtranclp_induct)
  case (step u v)
  from step.IH show ?case
  proof
    assume "rows u = rows w"
    then show ?thesis using step.hyps(2) assms(2) unfolding one_move_def by metis
  next
    assume "\<exists>x y. rows w i = Some x \<and> row_step x y \<and> ro_Status y \<in> S \<and> ro_Stage x = req \<and> rows u = (rows w)(i \<mapsto> y)"
    then obtain x y where xy: "rows w i = Some x" "row_step x y" "ro_Stage x = req" "rows u = (rows w)(i \<mapsto> y)"
      "ro_Status y \<in> S" by blast
    have "rows v = rows u"
    proof (rule ccontr)
      assume "rows v \<noteq> rows u"
      then obtain z where "row_step y z" "ro_Stage y = req"
        using step.hyps(2) xy(4) assms(2) by (auto simp: one_move_def)
      with xy(2,3) show False using row_step_running row_step_leaves by blast
    qed
    with xy show ?thesis by metis
  qed
qed simp

section \<open>The operations on any store\<close>

locale cas_service = cas_store "rl_store s" rows
  for s :: "'w rollout_Service" and rows :: "'w \<Rightarrow> string \<rightharpoonup> Rollout" +
  assumes PublishCanaryState_keeps: "keeps rows (rl_PublishCanaryState s m sv cv pc)"
    and Now_keeps: "keeps rows (rl_Now s)"
    and GetModelManifest_keeps: "guar (\<lambda>w w'. rows w' = rows w) (rl_GetModelManifest s m v)"
    and ActivateVersion_keeps: "guar (\<lambda>w w'. rows w' = rows w) (rl_ActivateVersion s m v)"
begin

lemma keeps_one_move: "keeps rows f \<Longrightarrow> guar (one_move rows S i req) (act f)"
  by (rule guar_act) (simp add: keeps_def one_move_def)

lemma prog_one_move: "guar (\<lambda>w w'. rows w' = rows w) p \<Longrightarrow> guar (one_move rows S i req) p"
  by (erule guar_mono) (simp add: one_move_def)

lemma get_keeps: "keeps rows (rt_GetRollout (rl_store s) i)" "keeps rows (rt_GetRunningRolloutByModelRef (rl_store s) m)"
  using GetRollout_law GetRunning_law by (metis keeps_def prod.collapse)+

lemma update_one_move:
  assumes "req \<noteq> [] \<longrightarrow> frm = req"
    and "nextStage frm = Some to \<and> (if to = ''stable'' then status = ''promoted'' \<and> e \<noteq> None else status = ''running'' \<and> e = None) \<or>
         to = frm \<and> status \<in> {''aborted'', ''rolled_back''} \<and> e \<noteq> None"
    and "status \<in> S"
  shows "guar (one_move rows S i req) (act (rt_UpdateRollout (rl_store s) i frm to status e))"
proof (rule guar_act)
  fix w
  obtain r w' where u: "rt_UpdateRollout (rl_store s) i frm to status e w = (r, w')" by fastforce
  from UpdateRollout_law [OF u]
  show "one_move rows S i req w (snd (rt_UpdateRollout (rl_store s) i frm to status e w))"
  proof
    assume "rows w' = rows w \<and> (r = None \<longrightarrow> rows w i = None)"
    with u show ?thesis by (simp add: one_move_def)
  next
    assume "\<exists>x t. rows w i = Some x \<and> ro_Stage x = frm \<and> ro_Status x = ''running'' \<and>
          rows w' = (rows w)(i \<mapsto> moved to status e t x)"
    then obtain x t where x: "rows w i = Some x" "ro_Stage x = frm" "ro_Status x = ''running''"
      "rows w' = (rows w)(i \<mapsto> moved to status e t x)" by blast
    with assms(2) have "row_step x (moved to status e t x)" unfolding row_step_def by blast
    moreover have "ro_Status (moved to status e t x) \<in> S" using assms(3) by (simp add: moved_def)
    ultimately show ?thesis using x assms(1) u unfolding one_move_def by auto
  qed
qed

lemmas move_rules =
  keeps_one_move [OF get_keeps(1)] keeps_one_move [OF Now_keeps] keeps_one_move [OF PublishCanaryState_keeps]
  prog_one_move [OF ActivateVersion_keeps]

lemma advanceStage_guar: "guar (one_move rows {''running'', ''promoted''} i req) (advanceStage s i req)"
  unfolding advanceStage_def
proof (rule guar_bindE [OF move_rules(1) guar_Ret], goal_cases)
  case (1 row)
  show ?case
  proof (cases row)
    case (Some r)
    show ?thesis
    proof (cases "\<not> (req \<noteq> [] \<and> ro_Stage r \<noteq> req) \<and> ro_Status r = ''running''")
      case True
      show ?thesis
      proof (cases "nextStage (ro_Stage r)")
        case (Some nx)
        have req: "req \<noteq> [] \<longrightarrow> ro_Stage r = req" using True by blast
        have u1: "guar (one_move rows {''running'', ''promoted''} i req) (act (rt_UpdateRollout (rl_store s) i (ro_Stage r) nx ''promoted'' (Some e)))"
          if "nx = ''stable''" for e
          by (rule update_one_move [OF req]) (simp_all add: Some that)
        have u2: "guar (one_move rows {''running'', ''promoted''} i req) (act (rt_UpdateRollout (rl_store s) i (ro_Stage r) nx ''running'' None))"
          if "nx \<noteq> ''stable''"
          by (rule update_one_move [OF req]) (simp_all add: Some that)
        show ?thesis
        proof (cases "nx = ''stable''")
          case st: True
          with True Some \<open>row = Some r\<close> show ?thesis
            by simp (intro guar_bindO guar_bindP move_rules guar_Ret u1 [unfolded st] refl)
        next
          case False
          with True Some \<open>row = Some r\<close> show ?thesis
            by simp (intro guar_bindO move_rules guar_Ret u2)
        qed
      qed (use True \<open>row = Some r\<close> in simp)
    qed (use \<open>row = Some r\<close> in auto)
  qed simp
qed

lemma revertCanary_guar:
  "status \<in> {''aborted'', ''rolled_back''} \<Longrightarrow> guar (one_move rows {status} i req) (revertCanary s i status req)"
  unfolding revertCanary_def
  by (intro guar_bindE move_rules guar_Ret)
    (auto split: option.splits intro!: guar_bindO guar_bindP move_rules update_one_move)

end

locale rollout_service = cas_service s rows + rollout_store "rl_store s" rows
  for s :: "'w rollout_Service" and rows :: "'w \<Rightarrow> string \<rightharpoonup> Rollout" +
  assumes NewUUID_keeps: "keeps rows (rl_NewUUID s)"
begin

lemma keeps_rows_step: "keeps rows f \<Longrightarrow> guar (rows_step rows) (act f)"
  by (rule guar_act) (auto simp: keeps_def rows_step_def)

lemma prog_rows_step: "guar (\<lambda>w w'. rows w' = rows w) p \<Longrightarrow> guar (rows_step rows) p"
  by (erule guar_mono) (auto simp: rows_step_def)

lemma move_rows_step: "guar (one_move rows S i req) p \<Longrightarrow> guar (rows_step rows) p"
  by (erule guar_mono) (rule one_move_rows_step)

lemma insert_rows_step:
  assumes "ro_Stage x = ''pending''" "ro_Status x = ''running''"
  shows "guar (rows_step rows) (act (rt_InsertRollout (rl_store s) x))"
proof (rule guar_act)
  fix w
  obtain r w' where u: "rt_InsertRollout (rl_store s) x w = (r, w')" by fastforce
  have "row_wf (x\<lparr>ro_EndedAt := None, ro_StageEnteredAt := t\<rparr>)" for t
    using assms by (simp add: row_wf_def stageOrder_def)
  with InsertRollout_law [OF u] u show "rows_step rows w (snd (rt_InsertRollout (rl_store s) x w))"
    by (auto simp: rows_step_def split: if_splits)
qed

lemmas step_rules =
  keeps_rows_step [OF get_keeps(1)] keeps_rows_step [OF get_keeps(2)] keeps_rows_step [OF Now_keeps]
  keeps_rows_step [OF NewUUID_keeps] keeps_rows_step [OF GetMostRecent_keeps] keeps_rows_step [OF ListRunning_keeps]
  keeps_rows_step [OF ListRollouts_keeps] prog_rows_step [OF GetModelManifest_keeps]
  move_rows_step [OF advanceStage_guar]

lemma CreateRollout_guar: "guar (rows_step rows) (CreateRollout s m v j)"
  unfolding CreateRollout_def
  by (auto intro!: guar_bindE guar_bindP guar_bindO step_rules insert_rows_step)

lemma reads_guar:
  "guar (rows_step rows) (GetRolloutStatus s i m)"
  "guar (rows_step rows) (rollout_ListRollouts s m l)"
  "guar (rows_step rows) (rollout_ListRunningRollouts s)"
  unfolding GetRolloutStatus_def rollout_ListRollouts_def rollout_ListRunningRollouts_def Let_def
  by (auto intro!: guar_bindE step_rules split: option.splits)

end

section \<open>The two stores\<close>

definition rollout_rows :: "'z rollout_tables_scheme \<Rightarrow> string \<rightharpoonup> Rollout" where
  "rollout_rows w = (\<lambda>i. find_rollout i (t_rollout w))"

lemma db_next_faults: "db_next w = (f, w') \<Longrightarrow> \<exists>fs. w' = w\<lparr>t_faults := fs\<rparr>"
proof (cases "t_faults w")
  case Nil
  have "w\<lparr>t_faults := t_faults w\<rparr> = w" by simp
  moreover assume "db_next w = (f, w')"
  ultimately show ?thesis using Nil by (metis db_next_def list.simps(4) snd_conv)
qed (auto simp: db_next_def)

lemma remote_query:
  assumes "remote Inl db_next (\<lambda>w. (Inr (q w), w)) w = (r, w')" "\<And>fs. q (w\<lparr>t_faults := fs\<rparr>) = q w"
  shows "(\<exists>fs. w' = w\<lparr>t_faults := fs\<rparr>) \<and> (\<forall>x. r = Inr x \<longrightarrow> x = q w)"
proof -
  obtain f u where n: "db_next w = (f, u)" by fastforce
  then obtain fs where "u = w\<lparr>t_faults := fs\<rparr>" using db_next_faults by blast
  with assms n show ?thesis by (cases f) (auto simp: remote_def)
qed

lemma rollout_rows_faults [simp]: "rollout_rows (w\<lparr>t_faults := fs\<rparr>) = rollout_rows w"
  by (simp add: rollout_rows_def)

lemma rollout_rows_query:
  assumes "\<And>w fs. q (w\<lparr>t_faults := fs\<rparr>) = q w"
  shows "keeps rollout_rows (remote Inl db_next (\<lambda>w. (Inr (q w), w)))"
  unfolding keeps_def
proof
  fix w :: "'a rollout_tables_scheme"
  from remote_query [OF prod.collapse [symmetric] assms]
  show "rollout_rows (snd (remote Inl db_next (\<lambda>w. (Inr (q w), w)) w)) = rollout_rows w"
    by (metis rollout_rows_faults)
qed

lemma find_rollout_put:
  "find_rollout i (put_rollout x rs) =
     (if i = ro_RolloutID x then (case find_rollout i rs of None \<Rightarrow> None | Some _ \<Rightarrow> Some x) else find_rollout i rs)"
  by (induction rs) (auto simp: find_rollout_def put_rollout_def split: option.splits)

lemma find_rollout_Some: "find_rollout i rs = Some x \<Longrightarrow> x \<in> set rs \<and> ro_RolloutID x = i"
  by (auto simp: find_rollout_def find_Some_iff)

lemma find_rollout_append:
  "find_rollout (ro_RolloutID x) rs = None \<Longrightarrow>
     find_rollout i (rs @ [x]) = ((\<lambda>j. find_rollout j rs)(ro_RolloutID x \<mapsto> x)) i"
  by (induction rs) (auto simp: find_rollout_def split: if_splits)

lemma moved_id [simp]: "ro_RolloutID (moved to status e t x) = ro_RolloutID x"
  by (simp add: moved_def)

lemma newest_first_Nil: "None = first_row (newest_first rs) \<longleftrightarrow> rs = []"
  unfolding first_row_def newest_first_def
  by (cases "sort_key (\<lambda>r. - ro_StartedAt r) rs") (simp, metis list.size(3) length_0_conv length_sort, simp, metis length_0_conv length_sort list.distinct(1) sort_key_simps(1))

lemma Cockroach_UpdateRollout_law:
  assumes "Cockroach_UpdateRollout i frm to status e w = (ru, w')"
  shows "rollout_rows w' = rollout_rows w \<and> ru \<noteq> None \<or>
    (\<exists>x t. rollout_rows w i = Some x \<and> ro_Stage x = frm \<and> ro_Status x = ''running'' \<and>
       rollout_rows w' = (rollout_rows w)(i \<mapsto> moved to status e t x))"
proof -
  obtain f u where n: "db_next w = (f, u)" by fastforce
  then obtain fs where u: "u = w\<lparr>t_faults := fs\<rparr>" using db_next_faults by blast
  show ?thesis
  proof (cases "\<exists>x. find_rollout i (t_rollout w) = Some x \<and> ro_Stage x = frm \<and> ro_Status x = ''running''")
    case True
    then obtain x where x: "find_rollout i (t_rollout w) = Some x" "ro_Stage x = frm" "ro_Status x = ''running''" by blast
    have "(\<lambda>j. find_rollout j (put_rollout (moved to status e t x) (t_rollout w))) =
        (rollout_rows w)(i \<mapsto> moved to status e t x)" for t
      using x(1) find_rollout_Some [OF x(1)] by (auto simp: find_rollout_put rollout_rows_def)
    with x n u assms show ?thesis
      by (cases f) (auto simp: Cockroach_UpdateRollout_def remote_def rollout_rows_def)
  next
    case False
    with n u assms show ?thesis
      by (cases f; cases "find_rollout i (t_rollout w)")
        (auto simp: Cockroach_UpdateRollout_def remote_def rollout_rows_def)
  qed
qed

lemma Cockroach_InsertRollout_law:
  assumes "Cockroach_InsertRollout x w = (ru, w')"
  shows "rollout_rows w' = rollout_rows w \<and> ru \<noteq> None \<or>
    rollout_rows w (ro_RolloutID x) = None \<and>
    (\<exists>t. rollout_rows w' = (rollout_rows w)(ro_RolloutID x \<mapsto> x\<lparr>ro_EndedAt := None, ro_StageEnteredAt := t\<rparr>))"
proof -
  obtain f u where n: "db_next w = (f, u)" by fastforce
  then obtain fs where u: "u = w\<lparr>t_faults := fs\<rparr>" using db_next_faults by blast
  show ?thesis
  proof (cases "find_rollout (ro_RolloutID x) (t_rollout w) = None")
    case True
    have "(\<lambda>j. find_rollout j (t_rollout w @ [x\<lparr>ro_EndedAt := None, ro_StageEnteredAt := t\<rparr>])) =
        (rollout_rows w)(ro_RolloutID x \<mapsto> x\<lparr>ro_EndedAt := None, ro_StageEnteredAt := t\<rparr>)" for t
      using True find_rollout_append [of "x\<lparr>ro_EndedAt := None, ro_StageEnteredAt := t\<rparr>" "t_rollout w"]
      by (intro ext) (simp add: rollout_rows_def)
    with True n u assms show ?thesis
      by (cases f) (auto simp: Cockroach_InsertRollout_def remote_def rollout_rows_def)
  next
    case False
    with n u assms show ?thesis by (cases f) (auto simp: Cockroach_InsertRollout_def remote_def rollout_rows_def)
  qed
qed

interpretation rcockroach: rollout_store rollout_CockroachStore rollout_rows
proof (unfold_locales, goal_cases)
  case (1 i w r w')
  then have "remote Inl db_next (\<lambda>w. (Inr (find_rollout i (t_rollout w)), w)) w = (r, w')"
    by (simp add: rollout_CockroachStore_def Cockroach_GetRollout_def)
  from remote_query [OF this] show ?case by (auto simp: rollout_rows_def)
next
  case (2 m w r w')
  then have "remote Inl db_next (\<lambda>w. (Inr (first_row (newest_first
      (filter (\<lambda>r. ro_ModelRef r = m \<and> ro_Status r = ''running'') (t_rollout w)))), w)) w = (r, w')"
    by (simp add: rollout_CockroachStore_def Cockroach_GetRunningRolloutByModelRef_def)
  from remote_query [OF this] show ?case
    by (auto simp: rollout_rows_def newest_first_Nil filter_empty_conv dest!: find_rollout_Some)
next
  case 3
  show ?case unfolding rollout_CockroachStore_def
    by (simp add: Cockroach_GetMostRecentRolloutByModelRef_def rollout_rows_query)
next
  case 4
  show ?case unfolding rollout_CockroachStore_def by (simp add: Cockroach_ListRunningRollouts_def rollout_rows_query)
next
  case 5
  show ?case unfolding rollout_CockroachStore_def by (simp add: Cockroach_ListRollouts_def rollout_rows_query)
next
  case 6
  then show ?case using Cockroach_UpdateRollout_law by (fastforce simp: rollout_CockroachStore_def)
next
  case 7
  then show ?case using Cockroach_InsertRollout_law by (simp add: rollout_CockroachStore_def)
qed

definition fake_rows :: "'z rollout_FakeStore_scheme \<Rightarrow> string \<rightharpoonup> Rollout" where
  "fake_rows f = map_of (rf_rollouts f)"

lemmas rollout_fake =
  rollout_FakeStore_ops_def fake_rows_def FakeStore_GetRollout_def FakeStore_GetRunningRolloutByModelRef_def
  FakeStore_GetMostRecentRolloutByModelRef_def FakeStore_ListRunningRollouts_def FakeStore_ListRollouts_def
  FakeStore_UpdateRollout_def keeps_def

interpretation rfake: cas_store rollout_FakeStore_ops fake_rows
proof (unfold_locales, goal_cases)
  case (2 m w r w')
  then show ?case by (force simp: rollout_fake find_None_iff dest: map_of_SomeD)
next
  case (6 i frm to status e w ru w')
  then show ?case by (auto simp: rollout_fake update_conv' split: option.splits if_splits)
qed (auto simp: rollout_fake Let_def)

section \<open>The service on CockroachDB and etcd\<close>

text \<open>
  The hypothesis of the properties below: etcd, the clock, the UUIDs and the registry do not write the table
  \<^verbatim>\<open>rollout\<close>.
\<close>

definition rollout_outside :: "'z rollout_tables_scheme rollout_Service \<Rightarrow> bool" where
  "rollout_outside s \<longleftrightarrow>
     (\<forall>m sv cv pc. keeps rollout_rows (rl_PublishCanaryState s m sv cv pc)) \<and>
     keeps rollout_rows (rl_Now s) \<and> keeps rollout_rows (rl_NewUUID s) \<and>
     (\<forall>m v. guar (\<lambda>w w'. rollout_rows w' = rollout_rows w) (rl_GetModelManifest s m v)) \<and>
     (\<forall>m v. guar (\<lambda>w w'. rollout_rows w' = rollout_rows w) (rl_ActivateVersion s m v))"

lemma rollout_service_cockroach:
  "rl_store s = rollout_CockroachStore \<Longrightarrow> rollout_outside s \<Longrightarrow> rollout_service s rollout_rows"
  by (intro rollout_service.intro rollout_service_axioms.intro cas_service.intro cas_service_axioms.intro)
    (simp_all add: rcockroach.rollout_store_axioms rcockroach.cas_store_axioms rollout_outside_def)

definition cp_rollout ::
  "(string \<Rightarrow> string \<Rightarrow> string) \<Rightarrow> (ManifestEnvelope \<Rightarrow> string) \<Rightarrow> (ActiveEnvelope \<Rightarrow> string) \<Rightarrow> (string \<Rightarrow> bool) \<Rightarrow> (int \<Rightarrow> string) \<Rightarrow> 'z rollout_tables_scheme rollout_Service" where
  "cp_rollout hmac_b64 mj aj valid rfc =
     \<lparr>rl_store = rollout_CockroachStore, rl_PublishCanaryState = etcd_PublishCanaryState (kv_client mj aj),
      rl_GetModelManifest = GetModelManifest (cp_registry hmac_b64 mj aj valid rfc),
      rl_ActivateVersion = ActivateVersion (cp_registry hmac_b64 mj aj valid rfc),
      rl_json_Valid = valid, rl_NewUUID = draw_uuid, rl_Now = read_clock\<rparr>"

text \<open>What each kind of call leaves alone.\<close>

lemma remote_db_keeps:
  assumes "\<And>w fs. obs (w\<lparr>t_faults := fs\<rparr>) = obs w" "\<And>w. obs (snd (call w)) = obs w"
  shows "keeps obs (remote fail db_next call)"
  unfolding keeps_def
proof (intro allI, goal_cases)
  case (1 w)
  obtain f u where n: "db_next w = (f, u)" by fastforce
  then obtain fs where "u = w\<lparr>t_faults := fs\<rparr>" using db_next_faults by blast
  with assms n show ?case by (cases f) (simp_all add: remote_def)
qed

lemma kv_Put_keeps:
  assumes "\<And>w fs. obs (w\<lparr>es_faults := fs\<rparr>) = obs w" "\<And>w kv. obs (w\<lparr>es_kv := kv\<rparr>) = obs w"
  shows "keeps obs (kv_Put k v)"
  by (auto simp: keeps_def kv_Put_def remote_def es_next_def assms split: list.splits fault.splits prod.splits)

lemma kv_publish_keeps:
  assumes "keeps obs (kv_Put (active_key m) (aj env))"
  shows "keeps obs (publishActiveEnvelope (kv_client mj aj) m env)"
  using assms by (auto simp: keeps_def publishActiveEnvelope_def kv_client_def split: prod.splits option.splits) (metis snd_conv)+

abbreviation "tables w \<equiv> (rollout_rows w, reg_manifests w, reg_active w)"

lemma PublishCanaryState_tables: "keeps (\<lambda>w. tables w) (etcd_PublishCanaryState (kv_client mj aj) m sv cv pc)"
  unfolding etcd_PublishCanaryState_def
  by (intro kv_publish_keeps kv_Put_keeps) (simp_all add: rollout_rows_def reg_manifests_def reg_active_def)

lemma PublishActive_tables: "keeps (\<lambda>w. tables w) (etcd_PublishActive (kv_client mj aj) m v)"
  unfolding etcd_PublishActive_def
  by (intro kv_publish_keeps kv_Put_keeps) (simp_all add: rollout_rows_def reg_manifests_def reg_active_def)

lemma SetActive_outside: "keeps (\<lambda>w. (rollout_rows w, es_kv w)) (Cockroach_SetActive m v)"
  unfolding Cockroach_SetActive_def by (rule remote_db_keeps) (simp_all add: rollout_rows_def)

lemma UpdateRollout_outside:
  "keeps (\<lambda>w. (reg_manifests w, reg_active w, es_kv w)) (Cockroach_UpdateRollout i frm to status e)"
  unfolding Cockroach_UpdateRollout_def
  by (rule remote_db_keeps) (simp_all add: reg_manifests_def reg_active_def split: option.splits)

lemma InsertRollout_outside: "keeps (\<lambda>w. (reg_manifests w, reg_active w, es_kv w)) (Cockroach_InsertRollout x)"
  unfolding Cockroach_InsertRollout_def by (rule remote_db_keeps) (simp_all add: reg_manifests_def reg_active_def)

lemma query_outside: "keeps (\<lambda>w. (tables w, es_kv w)) (remote fail db_next (\<lambda>w. (q w, w)))"
  by (rule remote_db_keeps) (simp_all add: rollout_rows_def reg_manifests_def reg_active_def)

lemma GetRollout_outside: "keeps (\<lambda>w. (tables w, es_kv w)) (Cockroach_GetRollout i)"
  unfolding Cockroach_GetRollout_def by (rule query_outside)

lemma GetRunning_outside: "keeps (\<lambda>w. (tables w, es_kv w)) (Cockroach_GetRunningRolloutByModelRef m)"
  unfolding Cockroach_GetRunningRolloutByModelRef_def by (rule query_outside)

lemma GetManifestByVersion_outside: "keeps (\<lambda>w. (tables w, es_kv w)) (Cockroach_GetManifestByVersion v)"
  unfolding Cockroach_GetManifestByVersion_def
  by (rule query_outside [where q = "\<lambda>w. scanManifest (find_manifest v (t_manifest w))"])

lemma GetActiveManifest_outside: "keeps (\<lambda>w. (tables w, es_kv w)) (Cockroach_GetActiveManifest m)"
  unfolding Cockroach_GetActiveManifest_def
  by (rule query_outside [where q = "\<lambda>w. scanManifest (Option.bind (map_of (t_active w) m) (\<lambda>v. find_manifest v (t_manifest w)))"])

lemma keeps_weaken: "keeps obs f \<Longrightarrow> (\<And>w w'. obs w' = obs w \<Longrightarrow> obs2 w' = obs2 w) \<Longrightarrow> keeps obs2 f"
  unfolding keeps_def by blast

lemma guar_keeps: "keeps obs f \<Longrightarrow> guar (\<lambda>w w'. obs w' = obs w) (act f)"
  by (rule guar_act) (simp add: keeps_def)

lemma FakeSigner_keeps: "keeps obs (FakeSigner_Sign h k p)" "keeps obs (FakeSigner_Verify h k p sig)"
  by (simp_all add: keeps_def FakeSigner_Sign_def FakeSigner_Verify_def)

lemma cp_keeps_rows:
  "keeps rollout_rows (Cockroach_GetManifestByVersion v)"
  "keeps rollout_rows (Cockroach_GetActiveManifest m)"
  "keeps rollout_rows (Cockroach_SetActive m v)"
  "keeps rollout_rows (etcd_PublishActive (kv_client mj aj) m v)"
  "keeps rollout_rows (etcd_PublishCanaryState (kv_client mj aj) m sv cv pc)"
  "keeps rollout_rows read_clock" "keeps rollout_rows draw_uuid"
  by (rule keeps_weaken [OF GetManifestByVersion_outside], simp)
    (rule keeps_weaken [OF GetActiveManifest_outside], simp,
     rule keeps_weaken [OF SetActive_outside], simp,
     rule keeps_weaken [OF PublishActive_tables], simp,
     rule keeps_weaken [OF PublishCanaryState_tables], simp,
     simp_all add: keeps_def read_clock_def draw_uuid_def rollout_rows_def split: list.splits)

lemma cp_GetModelManifest_rows:
  "guar (\<lambda>w w'. rollout_rows w' = rollout_rows w) (GetModelManifest (cp_registry hmac_b64 mj aj valid rfc) m v)"
  unfolding GetModelManifest_def
  by (intro guar_bindE)
    (auto simp: cp_registry_def registry_CockroachStore_def FakeSigner_def intro!: guar_keeps cp_keeps_rows FakeSigner_keeps)

lemma cp_ActivateVersion_rows:
  "guar (\<lambda>w w'. rollout_rows w' = rollout_rows w) (ActivateVersion (cp_registry hmac_b64 mj aj valid rfc) m v)"
  unfolding ActivateVersion_def
  by (intro guar_bindO guar_Ret)
    (auto simp: cp_registry_def registry_CockroachStore_def etcd_registry_Publisher_def intro!: guar_keeps cp_keeps_rows)

lemma cp_rollout_outside: "rollout_outside (cp_rollout hmac_b64 mj aj valid rfc)"
  by (simp add: rollout_outside_def cp_rollout_def cp_keeps_rows cp_GetModelManifest_rows cp_ActivateVersion_rows)

interpretation cpr: rollout_service "cp_rollout hmac_b64 mj aj valid rfc" rollout_rows
  for hmac_b64 mj aj valid rfc
  by (rule rollout_service_cockroach) (simp_all add: cp_rollout_outside, simp add: cp_rollout_def)

text \<open>The operations run alone.\<close>

lemma keepsD3: "keeps (\<lambda>w. (a w, b w, c w)) f \<Longrightarrow> f w = (r, w') \<Longrightarrow> a w' = a w \<and> b w' = b w \<and> c w' = c w"
  by (drule keepsD) simp_all

lemma run_cp_GetRollout:
  assumes "Cockroach_GetRollout i w = (Inr row, w1)"
  shows "row = rollout_rows w i \<and> (tables w1, es_kv w1) = (tables w, es_kv w)"
  using rcockroach.GetRollout_law [of i w "Inr row" w1] keepsD [OF GetRollout_outside assms] assms
  by (simp add: rollout_CockroachStore_def)

lemma run_cp_UpdateRollout:
  assumes "Cockroach_UpdateRollout i frm to status e w = (None, w')"
  shows "\<exists>x t. rollout_rows w i = Some x \<and> ro_Stage x = frm \<and> ro_Status x = ''running'' \<and>
    rollout_rows w' = (rollout_rows w)(i \<mapsto> moved to status e t x) \<and>
    reg_manifests w' = reg_manifests w \<and> reg_active w' = reg_active w \<and> es_kv w' = es_kv w"
  using Cockroach_UpdateRollout_law [OF assms] keepsD3 [OF UpdateRollout_outside assms] by auto

lemma run_cp_ActivateVersion:
  fixes w :: "'z rollout_tables_scheme"
  assumes "run (ActivateVersion (cp_registry hmac_b64 mj aj valid rfc) m v) w = (None, w')"
  shows "rollout_rows w' = rollout_rows w \<and> reg_manifests w' = reg_manifests w \<and>
    reg_active w' = (reg_active w)(m \<mapsto> v) \<and>
    es_kv w' = (es_kv w)(active_key m \<mapsto> aj \<lparr>ae_Stable = v, ae_Canary = [], ae_CanaryPercent = 0\<rparr>)"
proof -
  obtain w1 where 1: "Cockroach_SetActive m v w = (None, w1)" "etcd_PublishActive (kv_client mj aj) m v w1 = (None, w')"
    using assms
    by (auto simp: ActivateVersion_def cp_registry_def registry_CockroachStore_def etcd_registry_Publisher_def
        split: prod.splits option.splits)
  show ?thesis
    using Cockroach_SetActive_cases [OF 1(1)] keepsD [OF SetActive_outside 1(1)]
      keepsD3 [OF PublishActive_tables 1(2)] PublishActive_own [OF 1(2)] by auto
qed

lemma run_advanceStage:
  fixes w :: "'z rollout_tables_scheme"
  assumes "run (advanceStage (cp_rollout hmac_b64 mj aj valid rfc) i req) w = (Inr nx, w')"
  shows "\<exists>x t e. rollout_rows w i = Some x \<and> ro_Status x = ''running'' \<and> (req \<noteq> [] \<longrightarrow> ro_Stage x = req) \<and>
    nextStage (ro_Stage x) = Some nx \<and> reg_manifests w' = reg_manifests w \<and>
    (if nx = ''stable''
     then rollout_rows w' = (rollout_rows w)(i \<mapsto> moved nx ''promoted'' (Some e) t x) \<and>
       reg_active w' = (reg_active w)(ro_ModelRef x \<mapsto> ro_VersionID x) \<and>
       es_kv w' = (es_kv w)(active_key (ro_ModelRef x) \<mapsto>
         aj \<lparr>ae_Stable = ro_VersionID x, ae_Canary = [], ae_CanaryPercent = 0\<rparr>)
     else rollout_rows w' = (rollout_rows w)(i \<mapsto> moved nx ''running'' None t x) \<and>
       reg_active w' = reg_active w \<and>
       es_kv w' = (es_kv w)(active_key (ro_ModelRef x) \<mapsto>
         aj \<lparr>ae_Stable = ro_StableVersionID x, ae_Canary = ro_VersionID x, ae_CanaryPercent = stagePercent nx\<rparr>))"
proof -
  let ?s = "cp_rollout hmac_b64 mj aj valid rfc :: 'z rollout_tables_scheme rollout_Service"
  obtain x w1 where g: "Cockroach_GetRollout i w = (Inr (Some x), w1)" and
    c: "\<not> (req \<noteq> [] \<and> ro_Stage x \<noteq> req)" "ro_Status x = ''running''" "nextStage (ro_Stage x) = Some nx" and
    k: "if nx = ''stable''
        then \<exists>w2 e. run (ActivateVersion (cp_registry hmac_b64 mj aj valid rfc) (ro_ModelRef x) (ro_VersionID x)) w1 = (None, w2) \<and>
          Cockroach_UpdateRollout i (ro_Stage x) nx ''promoted'' (Some e) w2 = (None, w')
        else \<exists>w2. etcd_PublishCanaryState (kv_client mj aj) (ro_ModelRef x) (ro_StableVersionID x) (ro_VersionID x)
            (stagePercent nx) w1 = (None, w2) \<and>
          Cockroach_UpdateRollout i (ro_Stage x) nx ''running'' None w2 = (None, w')"
    using assms
    by (auto simp: advanceStage_def cp_rollout_def rollout_CockroachStore_def read_clock_def
        split: prod.splits sum.splits option.splits if_splits)
  note g1 = run_cp_GetRollout [OF g]
  show ?thesis
  proof (cases "nx = ''stable''")
    case True
    then obtain w2 e where k: "run (ActivateVersion (cp_registry hmac_b64 mj aj valid rfc) (ro_ModelRef x) (ro_VersionID x)) w1 = (None, w2)"
      "Cockroach_UpdateRollout i (ro_Stage x) nx ''promoted'' (Some e) w2 = (None, w')" using k by auto
    from run_cp_ActivateVersion [OF k(1)] run_cp_UpdateRollout [OF k(2)] g1 c True show ?thesis by fastforce
  next
    case False
    then obtain w2 where k: "etcd_PublishCanaryState (kv_client mj aj) (ro_ModelRef x) (ro_StableVersionID x) (ro_VersionID x)
            (stagePercent nx) w1 = (None, w2)"
      "Cockroach_UpdateRollout i (ro_Stage x) nx ''running'' None w2 = (None, w')" using k by auto
    from keepsD3 [OF PublishCanaryState_tables k(1)] PublishCanaryState_own [OF k(1)] run_cp_UpdateRollout [OF k(2)] g1 c False
    show ?thesis by fastforce
  qed
qed

lemma run_revertCanary:
  fixes w :: "'z rollout_tables_scheme"
  assumes "run (revertCanary (cp_rollout hmac_b64 mj aj valid rfc) i status req) w = (None, w')"
  shows "\<exists>x t e. rollout_rows w i = Some x \<and> ro_Status x = ''running'' \<and> (req \<noteq> [] \<longrightarrow> ro_Stage x = req) \<and>
    rollout_rows w' = (rollout_rows w)(i \<mapsto> moved (ro_Stage x) status (Some e) t x) \<and>
    reg_manifests w' = reg_manifests w \<and> reg_active w' = reg_active w \<and>
    es_kv w' = (es_kv w)(active_key (ro_ModelRef x) \<mapsto>
      aj \<lparr>ae_Stable = ro_StableVersionID x, ae_Canary = [], ae_CanaryPercent = 0\<rparr>)"
proof -
  obtain x w1 w2 e where g: "Cockroach_GetRollout i w = (Inr (Some x), w1)" and
    c: "\<not> (req \<noteq> [] \<and> ro_Stage x \<noteq> req)" "ro_Status x = ''running''" and
    k: "etcd_PublishCanaryState (kv_client mj aj) (ro_ModelRef x) (ro_StableVersionID x) [] 0 w1 = (None, w2)"
      "Cockroach_UpdateRollout i (ro_Stage x) (ro_Stage x) status (Some e) w2 = (None, w')"
    using assms
    by (auto simp: revertCanary_def cp_rollout_def rollout_CockroachStore_def read_clock_def
        split: prod.splits sum.splits option.splits if_splits)
  from run_cp_GetRollout [OF g] keepsD3 [OF PublishCanaryState_tables k(1)] PublishCanaryState_own [OF k(1)]
    run_cp_UpdateRollout [OF k(2)] c
  show ?thesis by fastforce
qed

lemma run_keeps:
  assumes "guar (\<lambda>w w'. obs w' = obs w) p"
  shows "obs (snd (run p w)) = obs w"
proof -
  have "obs u = obs w" if "(\<lambda>w w'. obs w' = obs w)\<^sup>*\<^sup>* w u" for u
    using that by (induction rule: rtranclp_induct) simp_all
  with run_guar [OF assms] show ?thesis by blast
qed

lemma cp_GetModelManifest_keeps:
  "guar (\<lambda>w w'. (tables w', es_kv w') = (tables w, es_kv w)) (GetModelManifest (cp_registry hmac_b64 mj aj valid rfc) m v)"
  unfolding GetModelManifest_def
  by (intro guar_bindE guar_keeps)
    (auto simp: cp_registry_def registry_CockroachStore_def FakeSigner_def
      intro: GetManifestByVersion_outside GetActiveManifest_outside guar_keeps FakeSigner_keeps)

lemma run_cp_GetModelManifest:
  fixes w :: "'z rollout_tables_scheme"
  assumes "run (GetModelManifest (cp_registry hmac_b64 mj aj valid rfc) m v) w = (r, w')"
  shows "(tables w', es_kv w') = (tables w, es_kv w)"
  using run_keeps [OF cp_GetModelManifest_keeps, of hmac_b64 mj aj valid rfc m v w] assms by simp

definition started :: "string \<Rightarrow> string \<Rightarrow> string \<Rightarrow> string \<Rightarrow> string \<Rightarrow> int \<Rightarrow> int \<Rightarrow> Rollout" where
  "started i m v j sv at t = \<lparr>ro_RolloutID = i, ro_ModelRef = m, ro_VersionID = v, ro_StrategyJSON = j,
     ro_Stage = ''canary_1'', ro_Status = ''running'', ro_StableVersionID = sv, ro_StartedAt = at, ro_EndedAt = None,
     ro_StageEnteredAt = t\<rparr>"

lemma run_CreateRollout:
  fixes w :: "'z rollout_tables_scheme"
  assumes "run (CreateRollout (cp_rollout hmac_b64 mj aj valid rfc) m v j) w = (Inr i, w')"
  shows "valid j \<and> (\<forall>k x. rollout_rows w k = Some x \<longrightarrow> \<not> (ro_ModelRef x = m \<and> ro_Status x = ''running'')) \<and>
    rollout_rows w i = None \<and>
    (\<exists>target a stable at t. (if v = [] then reg_active w m = Some a \<and> target = stable else reg_manifests w v = Some target) \<and>
       reg_active w m = Some a \<and> reg_manifests w a = Some stable \<and>
       rollout_rows w' = (rollout_rows w)(i \<mapsto> started i m v j (mf_VersionID stable) at t) \<and>
       es_kv w' = (es_kv w)(active_key m \<mapsto>
         aj \<lparr>ae_Stable = mf_VersionID stable, ae_Canary = v, ae_CanaryPercent = 1\<rparr>)) \<and>
    reg_active w' = reg_active w"
proof -
  let ?reg = "cp_registry hmac_b64 mj aj valid rfc :: 'z rollout_tables_scheme registry_Service"
  let ?row = "\<lambda>st at. \<lparr>ro_RolloutID = i, ro_ModelRef = m, ro_VersionID = v, ro_StrategyJSON = j, ro_Stage = ''pending'',
      ro_Status = ''running'', ro_StableVersionID = mf_VersionID st, ro_StartedAt = at, ro_EndedAt = None, ro_StageEnteredAt = 0\<rparr>"
  obtain target w1 stable w2 w3 w4 w5 w6 nx at where v: "valid j"
    and 1: "run (GetModelManifest ?reg m v) w = (Inr target, w1)"
    and 2: "run (GetModelManifest ?reg m []) w1 = (Inr stable, w2)"
    and 3: "Cockroach_GetRunningRolloutByModelRef m w2 = (Inr None, w3)"
    and 4: "draw_uuid w3 = (i, w4)" and 5: "read_clock w4 = (at, w5)"
    and 6: "Cockroach_InsertRollout (?row stable at) w5 = (None, w6)"
    and 7: "run (advanceStage (cp_rollout hmac_b64 mj aj valid rfc) i []) w6 = (Inr nx, w')"
    using assms
    by (auto simp: CreateRollout_def cp_rollout_def rollout_CockroachStore_def
        split: prod.splits sum.splits option.splits if_splits)
  note o1 = run_cp_GetModelManifest [OF 1] and o2 = run_cp_GetModelManifest [OF 2] and o3 = keepsD [OF GetRunning_outside 3]
  have "(tables w4, es_kv w4) = (tables w3, es_kv w3)"
    using 4 by (auto simp: draw_uuid_def rollout_rows_def reg_manifests_def reg_active_def split: list.splits)
  then have o5: "(tables w5, es_kv w5) = (tables w, es_kv w)" using 5 o1 o2 o3 by (simp add: read_clock_def)
  have norun: "\<forall>k x. rollout_rows w k = Some x \<longrightarrow> \<not> (ro_ModelRef x = m \<and> ro_Status x = ''running'')"
    using rcockroach.GetRunning_law [of m w2 "Inr None" w3] 3 o1 o2 by (simp add: rollout_CockroachStore_def)
  obtain t where ins: "rollout_rows w i = None" "rollout_rows w6 = (rollout_rows w)(i \<mapsto> ?row stable at\<lparr>ro_StageEnteredAt := t\<rparr>)"
    using Cockroach_InsertRollout_law [OF 6] o5 by auto
  have o6: "reg_active w6 = reg_active w" "es_kv w6 = es_kv w" using keepsD3 [OF InsertRollout_outside 6] o5 by auto
  have nx: "nx = ''canary_1''" using run_advanceStage [OF 7] ins(2) by (auto simp: nextStage_eq)
  obtain t2 where adv: "rollout_rows w' = (rollout_rows w6)(i \<mapsto> moved nx ''running'' None t2 (?row stable at\<lparr>ro_StageEnteredAt := t\<rparr>))"
    "reg_active w' = reg_active w6"
    "es_kv w' = (es_kv w6)(active_key m \<mapsto> aj \<lparr>ae_Stable = mf_VersionID stable, ae_Canary = v, ae_CanaryPercent = 1\<rparr>)"
    using run_advanceStage [OF 7] ins(2) nx by (auto simp: stagePercent_def)
  obtain a where a: "reg_active w m = Some a" "reg_manifests w a = Some stable"
    using cp.run_GetModelManifest [OF 2] o1 by auto
  have target: "if v = [] then target = stable else reg_manifests w v = Some target"
    using cp.run_GetModelManifest [OF 1] a by auto
  show ?thesis
    using v norun ins adv o6 a target nx
    by (intro conjI exI [of _ target] exI [of _ a] exI [of _ stable] exI [of _ at] exI [of _ t2])
      (auto simp: started_def moved_def)
qed

text \<open>With no fault to come, a promotion of a running rollout succeeds.\<close>

definition calm :: "'z reg_tables_scheme \<Rightarrow> bool" where
  "calm w \<longleftrightarrow> t_faults w = [] \<and> es_faults w = []"

lemma calm_db: "t_faults w = [] \<Longrightarrow> remote fail db_next call w = call w"
  by (simp add: remote_def db_next_def)

lemma calm_kv: "es_faults w = [] \<Longrightarrow> kv_Put k v w = (None, w\<lparr>es_kv := (es_kv w)(k \<mapsto> v)\<rparr>)"
  by (simp add: kv_Put_def remote_def es_next_def)

lemma calm_update:
  assumes "calm w" "rollout_rows w i = Some x" "ro_Stage x = frm" "ro_Status x = ''running''"
  shows "\<exists>w'. Cockroach_UpdateRollout i frm to status e w = (None, w') \<and> calm w'"
  using assms by (simp add: Cockroach_UpdateRollout_def calm_db calm_def rollout_rows_def)

lemma calm_canary:
  "calm w \<Longrightarrow> \<exists>w'. etcd_PublishCanaryState (kv_client mj aj) m sv cv pc w = (None, w') \<and> calm w' \<and> tables w' = tables w"
  by (simp add: etcd_PublishCanaryState_def publishActiveEnvelope_def kv_client_def calm_def calm_kv rollout_rows_def
      reg_manifests_def reg_active_def)

lemma calm_activate:
  fixes w :: "'z rollout_tables_scheme"
  assumes "calm w" "reg_manifests w v \<noteq> None"
  shows "\<exists>w'. run (ActivateVersion (cp_registry hmac_b64 mj aj valid rfc) m v) w = (None, w') \<and> calm w' \<and>
    rollout_rows w' = rollout_rows w"
  using assms
  by (auto simp: ActivateVersion_def cp_registry_def registry_CockroachStore_def etcd_registry_Publisher_def
      Cockroach_SetActive_def etcd_PublishActive_def publishActiveEnvelope_def kv_client_def calm_def calm_db calm_kv
      rollout_rows_def reg_manifests_def)

lemma calm_promote:
  fixes w :: "'z rollout_tables_scheme"
  assumes "calm w" "rollout_rows w i = Some x" "ro_Status x = ''running''" "nextStage (ro_Stage x) = Some nx"
    and "reg_manifests w (ro_VersionID x) \<noteq> None"
  shows "\<exists>w'. run (PromoteRollout (cp_rollout hmac_b64 mj aj valid rfc) i) w = (Inr nx, w') \<and> calm w'"
proof -
  have g: "Cockroach_GetRollout i w = (Inr (Some x), w)"
    using assms(1,2) by (simp add: Cockroach_GetRollout_def calm_db calm_def rollout_rows_def)
  show ?thesis
  proof (cases "nx = ''stable''")
    case True
    obtain w1 where a: "run (ActivateVersion (cp_registry hmac_b64 mj aj valid rfc) (ro_ModelRef x) (ro_VersionID x)) w = (None, w1)"
      "calm w1" "rollout_rows w1 = rollout_rows w" using calm_activate [OF assms(1,5)] by blast
    obtain w2 where u: "Cockroach_UpdateRollout i (ro_Stage x) nx ''promoted'' (Some (env_now w1)) w1 = (None, w2)" "calm w2"
      using calm_update [OF a(2), of i x "ro_Stage x" nx "''promoted''" "Some (env_now w1)"] a(3) assms(2,3) by auto
    show ?thesis
      using g a u assms(3,4) True
      by (simp add: PromoteRollout_def advanceStage_def cp_rollout_def rollout_CockroachStore_def read_clock_def)
  next
    case False
    obtain w1 where a: "etcd_PublishCanaryState (kv_client mj aj) (ro_ModelRef x) (ro_StableVersionID x) (ro_VersionID x)
        (stagePercent nx) w = (None, w1)" "calm w1" "rollout_rows w1 = rollout_rows w" using calm_canary [OF assms(1)] by blast
    obtain w2 where u: "Cockroach_UpdateRollout i (ro_Stage x) nx ''running'' None w1 = (None, w2)" "calm w2"
      using calm_update [OF a(2), of i x "ro_Stage x" nx "''running''" None] a(3) assms(2,3) by auto
    show ?thesis
      using g a u assms(3,4) False
      by (simp add: PromoteRollout_def advanceStage_def cp_rollout_def rollout_CockroachStore_def)
  qed
qed

lemma calm_promotes:
  fixes w :: "'z rollout_tables_scheme"
  assumes "calm w" "rollout_rows w i = Some x" "ro_Status x = ''running''" "ro_Stage x \<in> set stageOrder" "ro_Stage x \<noteq> ''stable''"
    and "reg_manifests w (ro_VersionID x) \<noteq> None"
  shows "\<exists>t e. let w' = ((\<lambda>w. snd (run (PromoteRollout (cp_rollout hmac_b64 mj aj valid rfc) i) w)) ^^ (4 - stage_index (ro_Stage x))) w in
    rollout_rows w' i = Some (moved ''stable'' ''promoted'' (Some e) t x) \<and>
    reg_active w' (ro_ModelRef x) = Some (ro_VersionID x) \<and>
    es_kv w' (active_key (ro_ModelRef x)) = Some (aj \<lparr>ae_Stable = ro_VersionID x, ae_Canary = [], ae_CanaryPercent = 0\<rparr>)"
  using assms
proof (induction "4 - stage_index (ro_Stage x)" arbitrary: w x)
  case 0
  then show ?case by (auto simp: stageOrder_def stage_index_def)
next
  case (Suc n)
  let ?p = "PromoteRollout (cp_rollout hmac_b64 mj aj valid rfc) i"
  obtain nx where nx: "nextStage (ro_Stage x) = Some nx"
    using Suc.prems(4,5) by (auto simp: stageOrder_def nextStage_eq)
  obtain w1 where w1: "run ?p w = (Inr nx, w1)" "calm w1" using calm_promote [OF Suc.prems(1-3) nx Suc.prems(6)] by blast
  have n: "stage_index nx = Suc (stage_index (ro_Stage x))" using nextStage_index [OF nx] by simp
  have step: "4 - stage_index (ro_Stage x) = Suc (4 - stage_index nx)" using Suc.hyps(2) n by simp
  note adv = run_advanceStage [OF w1(1) [unfolded PromoteRollout_def]]
  show ?case
  proof (cases "nx = ''stable''")
    case True
    have "stage_index nx = 4" using True by (simp add: stage_index_def stageOrder_def)
    then have one: "((\<lambda>w. snd (run ?p w)) ^^ (4 - stage_index (ro_Stage x))) w = w1" using step w1(1) by simp
    from adv Suc.prems(2) True obtain t e where "rollout_rows w1 = (rollout_rows w)(i \<mapsto> moved nx ''promoted'' (Some e) t x)"
      "reg_active w1 = (reg_active w)(ro_ModelRef x \<mapsto> ro_VersionID x)"
      "es_kv w1 = (es_kv w)(active_key (ro_ModelRef x) \<mapsto> aj \<lparr>ae_Stable = ro_VersionID x, ae_Canary = [], ae_CanaryPercent = 0\<rparr>)"
      by auto
    then show ?thesis unfolding one Let_def by (intro exI [of _ t] exI [of _ e]) (simp add: True)
  next
    case False
    with adv Suc.prems(2) obtain t where r: "rollout_rows w1 i = Some (moved nx ''running'' None t x)"
      "reg_manifests w1 = reg_manifests w" by auto
    have "nx \<in> set stageOrder" using nextStage_cases [OF nx] by (auto simp: stageOrder_def)
    then have "\<exists>t e. let w' = ((\<lambda>w. snd (run ?p w)) ^^ (4 - stage_index nx)) w1 in
        rollout_rows w' i = Some (moved ''stable'' ''promoted'' (Some e) t x) \<and>
        reg_active w' (ro_ModelRef x) = Some (ro_VersionID x) \<and>
        es_kv w' (active_key (ro_ModelRef x)) = Some (aj \<lparr>ae_Stable = ro_VersionID x, ae_Canary = [], ae_CanaryPercent = 0\<rparr>)"
      using Suc.hyps(1) [of "moved nx ''running'' None t x" w1] Suc.hyps(2) step r w1(2) False Suc.prems(6)
      by (simp add: moved_def)
    then show ?thesis unfolding step funpow_Suc_right comp_apply w1(1) snd_conv .
  qed
qed

text \<open>The requests and the reconciler's calls, each as a program that drops its reply.\<close>

datatype rollout_call =
    CallCreate string string string
  | CallPromote string
  | CallAbort string
  | CallAutoAdvance string string
  | CallAutoRollback string string
  | CallStatus string string
  | CallListRollouts string int
  | CallListRunning

primrec rollout_serve :: "'w rollout_Service \<Rightarrow> rollout_call \<Rightarrow> ('w, unit) prog" where
  "rollout_serve s (CallCreate m v j) = bindP (CreateRollout s m v j) (\<lambda>_. Ret ())"
| "rollout_serve s (CallPromote i) = bindP (PromoteRollout s i) (\<lambda>_. Ret ())"
| "rollout_serve s (CallAbort i) = bindP (AbortRollout s i) (\<lambda>_. Ret ())"
| "rollout_serve s (CallAutoAdvance i st) = bindP (AutoAdvance s i st) (\<lambda>_. Ret ())"
| "rollout_serve s (CallAutoRollback i st) = bindP (AutoRollback s i st) (\<lambda>_. Ret ())"
| "rollout_serve s (CallStatus i m) = bindP (GetRolloutStatus s i m) (\<lambda>_. Ret ())"
| "rollout_serve s (CallListRollouts m l) = bindP (rollout_ListRollouts s m l) (\<lambda>_. Ret ())"
| "rollout_serve s CallListRunning = bindP (rollout_ListRunningRollouts s) (\<lambda>_. Ret ())"

lemma rollout_serve_guar:
  assumes "rl_store s = rollout_CockroachStore" "rollout_outside s"
  shows "guar (rows_step rollout_rows) (rollout_serve s c)"
proof -
  have svc: "rollout_service s rollout_rows" using assms by (rule rollout_service_cockroach)
  then have cas: "cas_service s rollout_rows" by (rule rollout_service.axioms(1))
  note adv = rollout_service.move_rows_step [OF svc cas_service.advanceStage_guar [OF cas]]
  note rev = rollout_service.move_rows_step [OF svc cas_service.revertCanary_guar [OF cas]]
  show ?thesis
    using rollout_service.CreateRollout_guar [OF svc] rollout_service.reads_guar [OF svc] adv rev
    by (cases c) (auto simp: PromoteRollout_def AbortRollout_def AutoAdvance_def AutoRollback_def)
qed

text \<open>The calls that act on one stage of one rollout.\<close>

definition verdict_on :: "string \<Rightarrow> string \<Rightarrow> rollout_call \<Rightarrow> bool" where
  "verdict_on i stage c \<longleftrightarrow> c = CallAutoAdvance i stage \<or> c = CallAutoRollback i stage"

lemma verdict_guar:
  assumes "rl_store s = rollout_CockroachStore" "rollout_outside s" "verdict_on i stage c"
  shows "guar (one_move rollout_rows UNIV i stage) (rollout_serve s c)"
proof -
  have cas: "cas_service s rollout_rows"
    using rollout_service_cockroach [OF assms(1,2)] by (rule rollout_service.axioms(1))
  show ?thesis
    using assms(3) one_move_any [OF cas_service.advanceStage_guar [OF cas]]
      one_move_any [OF cas_service.revertCanary_guar [OF cas]]
    by (auto simp: verdict_on_def AutoAdvance_def AutoRollback_def intro!: guar_bindP)
qed

section \<open>Properties\<close>

text \<open>
  C1. In every interleaving of any number of creations, promotions, aborts, automatic advances and rollbacks and
  reads, on any number of replicas and whatever calls fail or lose their replies, a rollout keeps its identity, its
  model and its two versions; its stage never goes back; once it is promoted, aborted or rolled back its row never
  changes again; and every row, also one created on the way, is at the last stage exactly when it was promoted and
  has an end exactly when it is over.
\<close>

theorem rollout_rows_safe:
  assumes "rl_store s = rollout_CockroachStore" "rollout_outside s"
    and "conc_reaches (map (rollout_serve s) calls, w) (ps, w')"
    and "\<forall>i x. rollout_rows w i = Some x \<longrightarrow> row_wf x"
  shows "(\<forall>i x. rollout_rows w i = Some x \<longrightarrow>
      (\<exists>y. rollout_rows w' i = Some y \<and> ro_ModelRef y = ro_ModelRef x \<and> ro_VersionID y = ro_VersionID x \<and>
         ro_StableVersionID y = ro_StableVersionID x \<and> stage_index (ro_Stage x) \<le> stage_index (ro_Stage y) \<and>
         (ro_Status x \<noteq> ''running'' \<longrightarrow> y = x))) \<and>
    (\<forall>i y. rollout_rows w' i = Some y \<longrightarrow> row_wf y)"
proof -
  have steps: "(rows_step rollout_rows)\<^sup>*\<^sup>* w w'"
    using conc_guar [OF assms(3), of "rows_step rollout_rows"] rollout_serve_guar [OF assms(1,2)] by auto
  have "\<exists>y. rollout_rows w' i = Some y \<and> ro_ModelRef y = ro_ModelRef x \<and> ro_VersionID y = ro_VersionID x \<and>
         ro_StableVersionID y = ro_StableVersionID x \<and> stage_index (ro_Stage x) \<le> stage_index (ro_Stage y) \<and>
         (ro_Status x \<noteq> ''running'' \<longrightarrow> y = x)" if "rollout_rows w i = Some x" for i x
  proof -
    from rows_steps_row [OF steps that] obtain y where y: "rollout_rows w' i = Some y" "row_step\<^sup>*\<^sup>* x y" by blast
    with row_steps_fields [OF y(2)] row_steps_terminal [OF y(2)] show ?thesis by auto
  qed
  moreover have "row_wf y" if "rollout_rows w' i = Some y" for i y
    by (rule rows_steps_wf [OF steps assms(4) that])
  ultimately show ?thesis by blast
qed

definition demo_row :: "string \<Rightarrow> Rollout" where
  "demo_row stage = \<lparr>ro_RolloutID = ''r1'', ro_ModelRef = ''gpt'', ro_VersionID = ''v2'', ro_StrategyJSON = ''{}'',
     ro_Stage = stage, ro_Status = ''running'', ro_StableVersionID = ''v1'', ro_StartedAt = 3, ro_EndedAt = None,
     ro_StageEnteredAt = 5\<rparr>"

definition demo_cp :: "rollout_tables rollout_Service" where
  "demo_cp = cp_rollout (\<lambda>k p. k @ p) (\<lambda>e. me_VersionID e) (\<lambda>e. ae_Stable e @ ''/'' @ ae_Canary e @ ''/'' @ show_int (ae_CanaryPercent e))
     (\<lambda>j. j \<noteq> []) (\<lambda>t. [])"

definition demo_tables :: "string \<Rightarrow> rollout_tables" where
  "demo_tables stage =
     \<lparr>es_kv = (\<lambda>_. None), es_faults = [], env_now = 9, env_uuids = [''r2'', ''r3''],
      t_manifest = [published ''v1'' ''gpt'' ''{}'' (''fake:v1:fake-test-signing-key-model-manifest-signingv1|gpt|{}'') ''ops'' 1,
                    published ''v2'' ''gpt'' ''{}'' (''fake:v1:fake-test-signing-key-model-manifest-signingv2|gpt|{}'') ''ops'' 2],
      t_active = [(''gpt'', ''v1'')], t_faults = [], t_rollout = [demo_row stage]\<rparr>"

lemma demo_cp_ok: "rl_store demo_cp = rollout_CockroachStore" "rollout_outside demo_cp"
  by (simp_all add: demo_cp_def cp_rollout_outside, simp add: cp_rollout_def)

lemma demo_rows: "rollout_rows (demo_tables stage) i = Some x \<longleftrightarrow> i = ''r1'' \<and> x = demo_row stage"
  by (auto simp: rollout_rows_def demo_tables_def find_rollout_def demo_row_def)

theorem rollout_rows_safe_witness:
  "\<exists>y. rollout_rows (snd (conc_run [0, 1, 1, 1, 1, 0, 0, 0] (map (rollout_serve demo_cp)
      [CallPromote ''r1'', CallAbort ''r1''], demo_tables ''canary_10''))) ''r1'' = Some y \<and> ro_VersionID y = ''v2'' \<and> row_wf y"
proof -
  let ?c = "(map (rollout_serve demo_cp) [CallPromote ''r1'', CallAbort ''r1''], demo_tables ''canary_10'')"
  let ?d = "conc_run [0, 1, 1, 1, 1, 0, 0, 0] ?c"
  have r: "conc_reaches ?c (fst ?d, snd ?d)" unfolding prod.collapse by (rule conc_run_reaches)
  have wf: "\<forall>i x. rollout_rows (demo_tables ''canary_10'') i = Some x \<longrightarrow> row_wf x"
    by (simp add: demo_rows demo_row_def row_wf_def stageOrder_def)
  have x: "rollout_rows (demo_tables ''canary_10'') ''r1'' = Some (demo_row ''canary_10'')" by (simp add: demo_rows)
  have v: "ro_VersionID (demo_row ''canary_10'') = ''v2''" by (simp add: demo_row_def)
  note safe = rollout_rows_safe [OF demo_cp_ok r wf]
  show ?thesis using safe [THEN conjunct1, rule_format, OF x] safe [THEN conjunct2] unfolding v by blast
qed

text \<open>
  C4. Verdicts about one stage move a rollout at most once: in every interleaving of any number of automatic
  advances and rollbacks that were decided for the same stage of the same rollout, the table is unchanged or that
  row was moved once, from that stage. A stage that was not analysed cannot be skipped.
\<close>

theorem rollout_verdicts_move_once:
  assumes "rl_store s = rollout_CockroachStore" "rollout_outside s" "stage \<noteq> []"
    and "\<forall>c \<in> set calls. verdict_on i stage c"
    and "conc_reaches (map (rollout_serve s) calls, w) (ps, w')"
  shows "rollout_rows w' = rollout_rows w \<or>
    (\<exists>x y. rollout_rows w i = Some x \<and> ro_Stage x = stage \<and> row_step x y \<and> rollout_rows w' = (rollout_rows w)(i \<mapsto> y))"
proof -
  have "(one_move rollout_rows UNIV i stage)\<^sup>*\<^sup>* w w'"
    using conc_guar [OF assms(5), of "one_move rollout_rows UNIV i stage"] verdict_guar [OF assms(1,2)] assms(4) by auto
  from one_moves_once [OF this assms(3)] show ?thesis by blast
qed

theorem rollout_verdicts_move_once_witness:
  "\<exists>x y. rollout_rows (demo_tables ''canary_10'') ''r1'' = Some x \<and> row_step x y \<and>
     rollout_rows (snd (conc_run [0, 1, 0, 1, 0, 1] (map (rollout_serve demo_cp)
        [CallAutoAdvance ''r1'' ''canary_10'', CallAutoAdvance ''r1'' ''canary_10''], demo_tables ''canary_10''))) ''r1'' = Some y"
proof -
  let ?c = "(map (rollout_serve demo_cp) [CallAutoAdvance ''r1'' ''canary_10'', CallAutoAdvance ''r1'' ''canary_10''], demo_tables ''canary_10'')"
  let ?d = "conc_run [0, 1, 0, 1, 0, 1] ?c"
  have r: "conc_reaches ?c (fst ?d, snd ?d)" unfolding prod.collapse by (rule conc_run_reaches)
  have m: "rollout_rows (snd ?d) ''r1'' \<noteq> rollout_rows (demo_tables ''canary_10'') ''r1''"
    by (simp add: demo_cp_def cp_rollout_def rollout_CockroachStore_def AutoAdvance_def advanceStage_def bindE_def bindO_def act_def
        Cockroach_GetRollout_def Cockroach_UpdateRollout_def remote_def db_next_def es_next_def demo_tables_def demo_row_def
        find_rollout_def rollout_rows_def nextStage_eq etcd_PublishCanaryState_def publishActiveEnvelope_def kv_client_def kv_Put_def
        put_rollout_def moved_def)
  have "\<forall>c \<in> set [CallAutoAdvance ''r1'' ''canary_10'', CallAutoAdvance ''r1'' ''canary_10'']. verdict_on ''r1'' ''canary_10'' c"
    by (simp add: verdict_on_def)
  from rollout_verdicts_move_once [OF demo_cp_ok _ this r] m show ?thesis by (auto dest: fun_cong)
qed

text \<open>
  An advance that succeeds found the rollout running (at the required stage, when one is required), moved it to
  the next stage of the fixed order, and published the matching envelope: below the last stage the old stable version
  with the canary at the stage's percentage and the active pointer untouched; at the last stage the new version alone,
  with the active pointer of the model moved to it.
\<close>

theorem rollout_advance:
  fixes w :: "'z rollout_tables_scheme"
  assumes "run (advanceStage (cp_rollout hmac_b64 mj aj valid rfc) i req) w = (Inr nx, w')"
  shows "\<exists>x t e. rollout_rows w i = Some x \<and> ro_Status x = ''running'' \<and> (req \<noteq> [] \<longrightarrow> ro_Stage x = req) \<and>
    nextStage (ro_Stage x) = Some nx \<and>
    (if nx = ''stable''
     then rollout_rows w' = (rollout_rows w)(i \<mapsto> moved nx ''promoted'' (Some e) t x) \<and>
       reg_active w' = (reg_active w)(ro_ModelRef x \<mapsto> ro_VersionID x) \<and>
       es_kv w' = (es_kv w)(active_key (ro_ModelRef x) \<mapsto>
         aj \<lparr>ae_Stable = ro_VersionID x, ae_Canary = [], ae_CanaryPercent = 0\<rparr>)
     else rollout_rows w' = (rollout_rows w)(i \<mapsto> moved nx ''running'' None t x) \<and>
       reg_active w' = reg_active w \<and>
       es_kv w' = (es_kv w)(active_key (ro_ModelRef x) \<mapsto>
         aj \<lparr>ae_Stable = ro_StableVersionID x, ae_Canary = ro_VersionID x, ae_CanaryPercent = stagePercent nx\<rparr>))"
  using run_advanceStage [OF assms] by blast

lemmas demo_rollout_eval =
  demo_cp_def cp_rollout_def rollout_CockroachStore_def PromoteRollout_def AbortRollout_def advanceStage_def revertCanary_def
  Cockroach_GetRollout_def Cockroach_UpdateRollout_def remote_def db_next_def es_next_def demo_tables_def demo_row_def
  find_rollout_def rollout_rows_def nextStage_eq etcd_PublishCanaryState_def publishActiveEnvelope_def kv_client_def kv_Put_def
  put_rollout_def moved_def read_clock_def ActivateVersion_def cp_registry_def registry_CockroachStore_def Cockroach_SetActive_def
  find_manifest_def published_def etcd_registry_Publisher_def etcd_PublishActive_def reg_active_def

theorem rollout_advance_witness:
  "es_kv (snd (run (advanceStage demo_cp ''r1'' ''canary_10'') (demo_tables ''canary_10''))) (active_key ''gpt'') =
     Some (''v1/v2/'' @ show_int 50)"
proof -
  let ?w = "demo_tables ''canary_10''"
  have "fst (run (advanceStage demo_cp ''r1'' ''canary_10'') ?w) = Inr ''canary_50''"
    by (simp add: demo_rollout_eval)
  then have r: "run (advanceStage demo_cp ''r1'' ''canary_10'') ?w =
      (Inr ''canary_50'', snd (run (advanceStage demo_cp ''r1'' ''canary_10'') ?w))" by (metis prod.collapse)
  from rollout_advance [OF r [unfolded demo_cp_def]] show ?thesis
    by (simp add: demo_rows demo_row_def demo_cp_def stagePercent_def)
qed

text \<open>
  An abort or an automatic rollback that succeeds found the rollout running, recorded its outcome and its end
  without changing the stage, and published the version that was stable when the rollout began with no canary at all;
  the active pointers are untouched.
\<close>

theorem rollout_revert:
  fixes w :: "'z rollout_tables_scheme"
  assumes "run (revertCanary (cp_rollout hmac_b64 mj aj valid rfc) i status req) w = (None, w')"
  shows "\<exists>x t e. rollout_rows w i = Some x \<and> ro_Status x = ''running'' \<and> (req \<noteq> [] \<longrightarrow> ro_Stage x = req) \<and>
    rollout_rows w' = (rollout_rows w)(i \<mapsto> moved (ro_Stage x) status (Some e) t x) \<and>
    reg_active w' = reg_active w \<and>
    es_kv w' = (es_kv w)(active_key (ro_ModelRef x) \<mapsto>
      aj \<lparr>ae_Stable = ro_StableVersionID x, ae_Canary = [], ae_CanaryPercent = 0\<rparr>)"
  using run_revertCanary [OF assms] by blast

theorem rollout_revert_witness:
  "es_kv (snd (run (revertCanary demo_cp ''r1'' ''aborted'' []) (demo_tables ''canary_10''))) (active_key ''gpt'') =
     Some (''v1//'' @ show_int 0)"
proof -
  let ?w = "demo_tables ''canary_10''"
  have "fst (run (revertCanary demo_cp ''r1'' ''aborted'' []) ?w) = None" by (simp add: demo_rollout_eval)
  then have r: "run (revertCanary demo_cp ''r1'' ''aborted'' []) ?w =
      (None, snd (run (revertCanary demo_cp ''r1'' ''aborted'' []) ?w))" by (metis prod.collapse)
  from rollout_revert [OF r [unfolded demo_cp_def]] show ?thesis by (simp add: demo_rows demo_row_def demo_cp_def)
qed

text \<open>
  C31. Without faults and interference a running rollout whose version is stored reaches the end: promoting it as
  often as there are stages left makes it promoted, makes its version the active one of the model and publishes it
  as the only version.
\<close>

theorem rollout_promotes_to_stable:
  fixes w :: "'z rollout_tables_scheme"
  assumes "calm w" "rollout_rows w i = Some x" "ro_Status x = ''running''" "ro_Stage x \<in> set stageOrder" "ro_Stage x \<noteq> ''stable''"
    and "reg_manifests w (ro_VersionID x) \<noteq> None"
  shows "\<exists>t e. let w' = ((\<lambda>w. snd (run (PromoteRollout (cp_rollout hmac_b64 mj aj valid rfc) i) w)) ^^ (4 - stage_index (ro_Stage x))) w in
    rollout_rows w' i = Some (moved ''stable'' ''promoted'' (Some e) t x) \<and>
    reg_active w' (ro_ModelRef x) = Some (ro_VersionID x) \<and>
    es_kv w' (active_key (ro_ModelRef x)) = Some (aj \<lparr>ae_Stable = ro_VersionID x, ae_Canary = [], ae_CanaryPercent = 0\<rparr>)"
  by (rule calm_promotes [OF assms])

theorem rollout_promotes_to_stable_witness:
  "reg_active (((\<lambda>w. snd (run (PromoteRollout demo_cp ''r1'') w)) ^^ 3) (demo_tables ''canary_1'')) ''gpt'' = Some ''v2''"
proof -
  have "calm (demo_tables ''canary_1'')" by (simp add: calm_def demo_tables_def)
  moreover have "rollout_rows (demo_tables ''canary_1'') ''r1'' = Some (demo_row ''canary_1'')" by (simp add: demo_rows)
  moreover have "reg_manifests (demo_tables ''canary_1'') ''v2'' \<noteq> None"
    by (simp add: reg_manifests_def demo_tables_def find_manifest_def published_def)
  moreover have "4 - stage_index ''canary_1'' = 3" by (simp add: stage_index_def stageOrder_def)
  ultimately show ?thesis
    using rollout_promotes_to_stable [of "demo_tables ''canary_1''" "''r1''" "demo_row ''canary_1''"]
    by (simp add: demo_row_def stageOrder_def demo_cp_def Let_def)
qed

text \<open>
  A creation that succeeds without interference: the model had no running rollout, the target version is stored,
  the version recorded as stable is the model's active one, and exactly one new row exists, running at the first
  canary stage; etcd serves the stable version with one percent of the traffic on the target, and no active pointer
  has moved.
\<close>

theorem rollout_create:
  fixes w :: "'z rollout_tables_scheme"
  assumes "run (CreateRollout (cp_rollout hmac_b64 mj aj valid rfc) m v j) w = (Inr i, w')"
  shows "valid j \<and> (\<forall>k x. rollout_rows w k = Some x \<longrightarrow> \<not> (ro_ModelRef x = m \<and> ro_Status x = ''running'')) \<and>
    rollout_rows w i = None \<and>
    (\<exists>target a stable at t. (if v = [] then reg_active w m = Some a \<and> target = stable else reg_manifests w v = Some target) \<and>
       reg_active w m = Some a \<and> reg_manifests w a = Some stable \<and>
       rollout_rows w' = (rollout_rows w)(i \<mapsto> started i m v j (mf_VersionID stable) at t) \<and>
       es_kv w' = (es_kv w)(active_key m \<mapsto>
         aj \<lparr>ae_Stable = mf_VersionID stable, ae_Canary = v, ae_CanaryPercent = 1\<rparr>)) \<and>
    reg_active w' = reg_active w"
  by (rule run_CreateRollout [OF assms])

lemmas demo_create_eval = CreateRollout_def GetModelManifest_def demo_rollout_eval
    Cockroach_GetRunningRolloutByModelRef_def Cockroach_GetManifestByVersion_def Cockroach_GetActiveManifest_def
    scanManifest_def newest_first_def first_row_def FakeSigner_def FakeSigner_Verify_def FakeSigner_Sign_def
    FakeSigner_keyFor_def signedPayload_def draw_uuid_def Cockroach_InsertRollout_def

theorem rollout_create_witness:
  "reg_active (snd (run (CreateRollout demo_cp ''gpt'' ''v2'' ''{}'') (demo_tables ''pending''\<lparr>t_rollout := []\<rparr>))) ''gpt'' = Some ''v1''"
proof -
  let ?w = "demo_tables ''pending''\<lparr>t_rollout := []\<rparr>"
  have "fst (run (CreateRollout demo_cp ''gpt'' ''v2'' ''{}'') ?w) = Inr ''r2''" by (simp add: demo_create_eval)
  then have r: "run (CreateRollout demo_cp ''gpt'' ''v2'' ''{}'') ?w =
      (Inr ''r2'', snd (run (CreateRollout demo_cp ''gpt'' ''v2'' ''{}'') ?w))" by (metis prod.collapse)
  from rollout_create [OF r [unfolded demo_cp_def]] show ?thesis
    by (simp add: demo_cp_def reg_active_def demo_tables_def)
qed


text \<open>
  C33. The check that a model has no running rollout and the insertion of the new row are separate statements, and
  nothing in the table forbids a second running row: two creations at the same time can both succeed and leave two
  running rollouts of one model.
\<close>

theorem rollout_create_race:
  "\<exists>(s :: rollout_tables rollout_Service) w w' x y.
     rl_store s = rollout_CockroachStore \<and> rollout_outside s \<and> t_rollout w = [] \<and>
     conc_reaches
       ([bindP (CreateRollout s ''gpt'' ''v2'' ''{}'') (\<lambda>r. Ret (r = Inr ''r2'')),
         bindP (CreateRollout s ''gpt'' ''v2'' ''{}'') (\<lambda>r. Ret (r = Inr ''r3''))], w)
       ([Ret True, Ret True], w') \<and>
     rollout_rows w' ''r2'' = Some x \<and> ro_ModelRef x = ''gpt'' \<and> ro_Status x = ''running'' \<and>
     rollout_rows w' ''r3'' = Some y \<and> ro_ModelRef y = ''gpt'' \<and> ro_Status y = ''running''"
proof -
  let ?w = "demo_tables ''pending''\<lparr>t_rollout := []\<rparr>"
  let ?c = "([bindP (CreateRollout demo_cp ''gpt'' ''v2'' ''{}'') (\<lambda>r. Ret (r = Inr ''r2'')),
         bindP (CreateRollout demo_cp ''gpt'' ''v2'' ''{}'') (\<lambda>r. Ret (r = Inr ''r3''))], ?w)"
  let ?d = "conc_run [0, 0, 0, 0, 0, 1, 1, 1, 1, 1, 0, 0, 0, 0, 0, 0, 1, 1, 1, 1, 1, 1] ?c"
  note eval = demo_create_eval bindE_def bindO_def act_def
  have "fst ?d = [Ret True, Ret True]" by (simp add: eval)
  moreover have "\<exists>x. rollout_rows (snd ?d) ''r2'' = Some x \<and> ro_ModelRef x = ''gpt'' \<and> ro_Status x = ''running''"
    by (simp add: eval)
  moreover have "\<exists>y. rollout_rows (snd ?d) ''r3'' = Some y \<and> ro_ModelRef y = ''gpt'' \<and> ro_Status y = ''running''"
    by (simp add: eval)
  moreover have "t_rollout ?w = []" by simp
  moreover have "conc_reaches ?c (fst ?d, snd ?d)" unfolding prod.collapse by (rule conc_run_reaches)
  ultimately show ?thesis using demo_cp_ok by metis
qed

end
