(* ===== verification/Analysis.thy ===== *)
theory Analysis
  imports Rollout
begin

text \<open>
  The automatic driver of rollouts (\<^verbatim>\<open>services/control-plane/internal/analysis\<close>): every tick the reconciler lists
  the running rollouts and, for each, looks up the AnalysisRun of its stage, creates one after the grace period, and
  advances or rolls back on its verdict. Its calls interleave with the other replicas' and with the operators', so it
  is a program of \<open>Resumption\<close> over a rollout driver and a client for AnalysisRuns.

  The Kubernetes API is an argument: listing and creating objects. The log line at the end of a branch is its result,
  which tells the branches apart.
\<close>

section \<open>Model\<close>

type_synonym Phase = string

abbreviation PhasePending :: Phase where "PhasePending \<equiv> ''Pending''"
abbreviation PhaseRunning :: Phase where "PhaseRunning \<equiv> ''Running''"
abbreviation PhaseSuccessful :: Phase where "PhaseSuccessful \<equiv> ''Successful''"
abbreviation PhaseFailed :: Phase where "PhaseFailed \<equiv> ''Failed''"
abbreviation PhaseError :: Phase where "PhaseError \<equiv> ''Error''"
abbreviation PhaseInconclusive :: Phase where "PhaseInconclusive \<equiv> ''Inconclusive''"

record Run =
  run_Name :: string
  run_Phase :: Phase

record 'w analysis_Client =
  ac_FindForStage :: "string \<Rightarrow> string \<Rightarrow> 'w \<Rightarrow> Run option result \<times> 'w"
  ac_CreateForStage :: "string \<Rightarrow> string \<Rightarrow> string \<Rightarrow> int \<Rightarrow> 'w \<Rightarrow> go_error option \<times> 'w"

record 'w RolloutDriver =
  rd_ListRunningRollouts :: "('w, Rollout list result) prog"
  rd_AutoAdvance :: "string \<Rightarrow> string \<Rightarrow> ('w, string result) prog"
  rd_AutoRollback :: "string \<Rightarrow> string \<Rightarrow> ('w, go_error option) prog"

record 'w Reconciler =
  rc_driver :: "'w RolloutDriver"
  rc_runs :: "'w analysis_Client"
  rc_stageGrace :: duration
  rc_interval :: duration
  rc_Now :: "'w \<Rightarrow> int \<times> 'w"

definition stageGracePeriod :: duration where "stageGracePeriod = 30 * nsPerSecond"

definition NewReconciler :: "'w RolloutDriver \<Rightarrow> 'w analysis_Client \<Rightarrow> ('w \<Rightarrow> int \<times> 'w) \<Rightarrow> 'w Reconciler" where
  "NewReconciler driver runs now =
     \<lparr>rc_driver = driver, rc_runs = runs, rc_stageGrace = stageGracePeriod, rc_interval = 5 * nsPerSecond, rc_Now = now\<rparr>"

text \<open>\<^verbatim>\<open>time.Since\<close> saturates at the ends of \<^verbatim>\<open>time.Duration\<close>.\<close>

definition time_Sub :: "int \<Rightarrow> int \<Rightarrow> duration" where
  "time_Sub t u = max (- (2 ^ 63)) (min (2 ^ 63 - 1) (t - u))"

datatype reconcile_log =
    LogStable
  | LogLookupFailed go_error
  | LogGrace
  | LogCreateFailed go_error
  | LogCreated
  | LogAdvanceSkipped
  | LogAdvanceFailed go_error
  | LogAdvanced string
  | LogRollbackSkipped
  | LogRollbackFailed go_error
  | LogRolledBack Phase
  | LogWait Phase

definition reconcileOne :: "'w Reconciler \<Rightarrow> Rollout \<Rightarrow> ('w, reconcile_log) prog" where
  "reconcileOne r ro =
     (if ro_Stage ro = ''stable'' then Ret LogStable
      else
        bindE (act (ac_FindForStage (rc_runs r) (ro_RolloutID ro) (ro_Stage ro)))
          (\<lambda>err. Ret (LogLookupFailed err))
          (\<lambda>found. case found of
             None \<Rightarrow>
               bindP (act (rc_Now r)) (\<lambda>now.
               if time_Sub now (ro_StageEnteredAt ro) < rc_stageGrace r then Ret LogGrace
               else
                 bindO (act (ac_CreateForStage (rc_runs r) (ro_RolloutID ro) (ro_ModelRef ro) (ro_Stage ro)
                              (StagePercent (ro_Stage ro))))
                   (\<lambda>err. Ret (LogCreateFailed err))
                   (Ret LogCreated))
           | Some run1 \<Rightarrow>
               if run_Phase run1 = PhaseSuccessful then
                 bindE (rd_AutoAdvance (rc_driver r) (ro_RolloutID ro) (ro_Stage ro))
                   (\<lambda>err. Ret (if errors_Is err ErrConcurrentUpdate then LogAdvanceSkipped else LogAdvanceFailed err))
                   (\<lambda>newStage. Ret (LogAdvanced newStage))
               else if run_Phase run1 = PhaseFailed \<or> run_Phase run1 = PhaseError \<or> run_Phase run1 = PhaseInconclusive then
                 bindO (rd_AutoRollback (rc_driver r) (ro_RolloutID ro) (ro_Stage ro))
                   (\<lambda>err. Ret (if errors_Is err ErrConcurrentUpdate \<or> errors_Is err ErrNotRunning
                                then LogRollbackSkipped else LogRollbackFailed err))
                   (Ret (LogRolledBack (run_Phase run1)))
               else Ret (LogWait (run_Phase run1))))"

primrec reconcile_each :: "'w Reconciler \<Rightarrow> Rollout list \<Rightarrow> ('w, reconcile_log list) prog" where
  "reconcile_each r [] = Ret []"
| "reconcile_each r (ro # ros) = bindP (reconcileOne r ro) (\<lambda>l. bindP (reconcile_each r ros) (\<lambda>ls. Ret (l # ls)))"

definition reconcileAll :: "'w Reconciler \<Rightarrow> ('w, reconcile_log list result) prog" where
  "reconcileAll r =
     bindE (rd_ListRunningRollouts (rc_driver r)) (\<lambda>err. Ret (Inl err))
       (\<lambda>running. bindP (reconcile_each r running) (\<lambda>ls. Ret (Inr ls)))"

text \<open>The loop, with the number of ticks that arrive before the context ends.\<close>

primrec Reconciler_Run :: "'w Reconciler \<Rightarrow> nat \<Rightarrow> ('w, unit) prog" where
  "Reconciler_Run r 0 = bindP (reconcileAll r) (\<lambda>_. Ret ())"
| "Reconciler_Run r (Suc n) = bindP (reconcileAll r) (\<lambda>_. Reconciler_Run r n)"

subsection \<open>The query and the AnalysisRun objects\<close>

text \<open>The verb \<^verbatim>\<open>%q\<close>; bytes from 128 on belong to printable runes, which it copies.\<close>

definition hex_digit :: "nat \<Rightarrow> char" where
  "hex_digit n = (if n < 10 then char_of (48 + n) else char_of (87 + n))"

definition quote_char :: "char \<Rightarrow> string" where
  "quote_char c =
     (let n = of_char c :: nat in
      if c = CHR 0x22 \<or> c = CHR 0x5C then [CHR 0x5C, c]
      else if n = 7 then [CHR 0x5C, CHR ''a''] else if n = 8 then [CHR 0x5C, CHR ''b'']
      else if n = 12 then [CHR 0x5C, CHR ''f''] else if n = 10 then [CHR 0x5C, CHR ''n'']
      else if n = 13 then [CHR 0x5C, CHR ''r''] else if n = 9 then [CHR 0x5C, CHR ''t'']
      else if n = 11 then [CHR 0x5C, CHR ''v'']
      else if n < 32 \<or> n = 127 then [CHR 0x5C, CHR ''x'', hex_digit (n div 16), hex_digit (n mod 16)]
      else [c])"

definition go_quote :: "string \<Rightarrow> string" where
  "go_quote s = CHR 0x22 # concat (map quote_char s) @ [CHR 0x22]"

definition queryFor :: "string \<Rightarrow> string" where
  "queryFor modelRef =
     ''(sum(rate(data_plane_submit_total{model_ref='' @ go_quote modelRef @ '',canary='' @ go_quote ''true'' @ '',status='' @ go_quote ''error''
       @ ''}[2m])) or vector(0)) '' @ ''/ sum(rate(data_plane_submit_total{model_ref='' @ go_quote modelRef @ '',canary='' @ go_quote ''true'' @ ''}[2m]))''"

record AnalysisRun =
  ar_name :: string
  ar_namespace :: string
  ar_labels :: "(string \<times> string) list"
  ar_metric :: string
  ar_count :: int
  ar_address :: string
  ar_query :: string
  ar_successCondition :: string
  ar_failureCondition :: string
  ar_consecutiveErrorLimit :: int
  ar_phase :: "string option"

text \<open>The dynamic client on the resource \<^verbatim>\<open>analysisruns\<close> of the group \<^verbatim>\<open>argoproj.io\<close>, version \<^verbatim>\<open>v1alpha1\<close>.\<close>

record 'w k8s_dynamic =
  dyn_List :: "string \<Rightarrow> string \<Rightarrow> 'w \<Rightarrow> AnalysisRun list result \<times> 'w"
  dyn_Create :: "string \<Rightarrow> AnalysisRun \<Rightarrow> 'w \<Rightarrow> go_error option \<times> 'w"

record 'w K8sClient =
  kc_dyn :: "'w k8s_dynamic"
  kc_namespace :: string
  kc_promAddr :: string
  kc_NewUUID :: "'w \<Rightarrow> string \<times> 'w"

abbreviation labelRolloutID :: string where "labelRolloutID \<equiv> ''onezox.io/rollout-id''"
abbreviation labelStage :: string where "labelStage \<equiv> ''onezox.io/stage''"

definition stage_selector :: "string \<Rightarrow> string \<Rightarrow> string" where
  "stage_selector rolloutID stage = labelRolloutID @ ''='' @ rolloutID @ '','' @ labelStage @ ''='' @ stage"

definition K8s_FindForStage :: "'w K8sClient \<Rightarrow> string \<Rightarrow> string \<Rightarrow> 'w \<Rightarrow> Run option result \<times> 'w" where
  "K8s_FindForStage c rolloutID stage w =
     (case dyn_List (kc_dyn c) (kc_namespace c) (stage_selector rolloutID stage) w of
        (Inl err, w1) \<Rightarrow> (Inl (Wrap ''listing AnalysisRuns: '' err []), w1)
      | (Inr [], w1) \<Rightarrow> (Inr None, w1)
      | (Inr (item # _), w1) \<Rightarrow>
          (Inr (Some \<lparr>run_Name = ar_name item, run_Phase = (case ar_phase item of None \<Rightarrow> [] | Some p \<Rightarrow> p)\<rparr>), w1))"

text \<open>The slice \<^verbatim>\<open>[:8]\<close> of a UUID's text, which has 36 bytes.\<close>

definition K8s_CreateForStage :: "'w K8sClient \<Rightarrow> string \<Rightarrow> string \<Rightarrow> string \<Rightarrow> int \<Rightarrow> 'w \<Rightarrow> go_error option \<times> 'w" where
  "K8s_CreateForStage c rolloutID modelRef stage canaryPercent w =
     (case kc_NewUUID c w of (u, w1) \<Rightarrow>
        (case dyn_Create (kc_dyn c) (kc_namespace c)
                \<lparr>ar_name = ''onezox-canary-'' @ rolloutID @ ''-'' @ take 8 u, ar_namespace = kc_namespace c,
                 ar_labels = [(labelRolloutID, rolloutID), (labelStage, stage)], ar_metric = ''canary-error-rate'',
                 ar_count = 1, ar_address = kc_promAddr c, ar_query = queryFor modelRef,
                 ar_successCondition = ''result[0] < 0.5'', ar_failureCondition = ''result[0] >= 0.5'',
                 ar_consecutiveErrorLimit = 3, ar_phase = None\<rparr> w1 of
           (Some err, w2) \<Rightarrow> (Some (Wrap ''creating AnalysisRun: '' err []), w2)
         | (None, w2) \<Rightarrow> (None, w2)))"

definition K8sClient_ops :: "'w K8sClient \<Rightarrow> 'w analysis_Client" where
  "K8sClient_ops c = \<lparr>ac_FindForStage = K8s_FindForStage c, ac_CreateForStage = K8s_CreateForStage c\<rparr>"

subsection \<open>FakeClient and FakeDriver\<close>

record CreateCall =
  cc_RolloutID :: string
  cc_ModelRef :: string
  cc_Stage :: string
  cc_CanaryPercent :: int

record FakeClient = rollout_tables +
  fc_runs :: "string \<rightharpoonup> Run"
  fc_CreateCalls :: "CreateCall list"
  fc_CreateErr :: "go_error option"
  fc_FindErr :: "go_error option"
  fd_AutoAdvanceCalls :: "string list"
  fd_AutoRollbackCalls :: "string list"

definition analysis_key :: "string \<Rightarrow> string \<Rightarrow> string" where
  "analysis_key rolloutID stage = rolloutID @ ''/'' @ stage"

definition FakeClient_FindForStage ::
  "string \<Rightarrow> string \<Rightarrow> 'z FakeClient_scheme \<Rightarrow> Run option result \<times> 'z FakeClient_scheme" where
  "FakeClient_FindForStage rolloutID stage f =
     (case fc_FindErr f of
        Some err \<Rightarrow> (Inl err, f)
      | None \<Rightarrow> (Inr (fc_runs f (analysis_key rolloutID stage)), f))"

definition FakeClient_CreateForStage ::
  "string \<Rightarrow> string \<Rightarrow> string \<Rightarrow> int \<Rightarrow> 'z FakeClient_scheme \<Rightarrow> go_error option \<times> 'z FakeClient_scheme" where
  "FakeClient_CreateForStage rolloutID modelRef stage canaryPercent f =
     (case fc_CreateErr f of
        Some err \<Rightarrow> (Some err, f)
      | None \<Rightarrow>
          (None, f\<lparr>fc_CreateCalls := fc_CreateCalls f @ [\<lparr>cc_RolloutID = rolloutID, cc_ModelRef = modelRef,
                     cc_Stage = stage, cc_CanaryPercent = canaryPercent\<rparr>],
                   fc_runs := (fc_runs f)(analysis_key rolloutID stage \<mapsto>
                     \<lparr>run_Name = ''fake-run-'' @ analysis_key rolloutID stage, run_Phase = PhasePending\<rparr>)\<rparr>))"

definition FakeClient_SetPhase :: "string \<Rightarrow> string \<Rightarrow> Phase \<Rightarrow> 'z FakeClient_scheme \<Rightarrow> 'z FakeClient_scheme" where
  "FakeClient_SetPhase rolloutID stage phase f =
     (case fc_runs f (analysis_key rolloutID stage) of
        None \<Rightarrow> f
      | Some r \<Rightarrow> f\<lparr>fc_runs := (fc_runs f)(analysis_key rolloutID stage \<mapsto> r\<lparr>run_Phase := phase\<rparr>)\<rparr>)"

definition FakeClient_ops :: "'z FakeClient_scheme analysis_Client" where
  "FakeClient_ops = \<lparr>ac_FindForStage = FakeClient_FindForStage, ac_CreateForStage = FakeClient_CreateForStage\<rparr>"

text \<open>The service as driver, and the fake that records the calls before it forwards them.\<close>

definition rollout_driver :: "'w rollout_Service \<Rightarrow> 'w RolloutDriver" where
  "rollout_driver svc =
     \<lparr>rd_ListRunningRollouts = rollout_ListRunningRollouts svc, rd_AutoAdvance = AutoAdvance svc,
      rd_AutoRollback = AutoRollback svc\<rparr>"

definition FakeDriver :: "'z FakeClient_scheme rollout_Service \<Rightarrow> 'z FakeClient_scheme RolloutDriver" where
  "FakeDriver svc =
     \<lparr>rd_ListRunningRollouts = rollout_ListRunningRollouts svc,
      rd_AutoAdvance = (\<lambda>rolloutID fromStage.
        bindP (act (\<lambda>f. ((), f\<lparr>fd_AutoAdvanceCalls := fd_AutoAdvanceCalls f @ [rolloutID]\<rparr>)))
          (\<lambda>_. AutoAdvance svc rolloutID fromStage)),
      rd_AutoRollback = (\<lambda>rolloutID fromStage.
        bindP (act (\<lambda>f. ((), f\<lparr>fd_AutoRollbackCalls := fd_AutoRollbackCalls f @ [rolloutID]\<rparr>)))
          (\<lambda>_. AutoRollback svc rolloutID fromStage))\<rparr>"

section \<open>What the reconciler relies on\<close>

text \<open>A driver whose automatic operations move one rollout at most, from the stage they are given.\<close>

locale verdict_driver =
  fixes d :: "'w RolloutDriver" and rows :: "'w \<Rightarrow> string \<rightharpoonup> Rollout"
  assumes ListRunning_keeps: "guar (\<lambda>w w'. rows w' = rows w) (rd_ListRunningRollouts d)"
    and AutoAdvance_moves: "guar (one_move rows {''running'', ''promoted''} i stage) (rd_AutoAdvance d i stage)"
    and AutoRollback_moves: "guar (one_move rows {''rolled_back''} i stage) (rd_AutoRollback d i stage)"

text \<open>The AnalysisRuns and the clock are apart from the table of rollouts.\<close>

locale reconciler = verdict_driver "rc_driver r" rows
  for r :: "'w Reconciler" and rows :: "'w \<Rightarrow> string \<rightharpoonup> Rollout" +
  assumes Find_keeps: "keeps rows (ac_FindForStage (rc_runs r) i stage)"
    and Create_keeps: "keeps rows (ac_CreateForStage (rc_runs r) i m stage pc)"
    and Clock_keeps: "keeps rows (rc_Now r)"
begin

lemma keeps_move: "keeps rows f \<Longrightarrow> guar (one_move rows S i req) (act f)"
  by (rule guar_act) (simp add: keeps_def one_move_def)

lemma reconcileOne_moves: "guar (one_move rows UNIV (ro_RolloutID ro) (ro_Stage ro)) (reconcileOne r ro)"
proof -
  note rules = keeps_move [OF Find_keeps] keeps_move [OF Create_keeps] keeps_move [OF Clock_keeps]
    one_move_any [OF AutoAdvance_moves] one_move_any [OF AutoRollback_moves]
  show ?thesis
    unfolding reconcileOne_def
    by (auto split: option.splits intro!: guar_bindE guar_bindP guar_bindO rules)
qed

lemma moves_step: "guar (one_move rows S i req) p \<Longrightarrow> guar (rows_step rows) p"
  by (erule guar_mono) (rule one_move_rows_step)

lemma reconcile_each_step: "guar (rows_step rows) (reconcile_each r ros)"
  by (induction ros) (auto intro!: guar_bindP moves_step [OF reconcileOne_moves])

lemma reconcileAll_step: "guar (rows_step rows) (reconcileAll r)"
  unfolding reconcileAll_def
  by (intro guar_bindE guar_bindP guar_Ret reconcile_each_step guar_mono [OF ListRunning_keeps]) (auto simp: rows_step_def)

lemma Run_step: "guar (rows_step rows) (Reconciler_Run r n)"
  by (induction n) (auto intro!: guar_bindP reconcileAll_step)

lemma run_moves:
  assumes "guar (one_move rows S i req) p" "req \<noteq> []" "run p w = (a, w')"
  shows "rows w' = rows w \<or>
    (\<exists>x y. rows w i = Some x \<and> row_step x y \<and> ro_Status y \<in> S \<and> ro_Stage x = req \<and> rows w' = (rows w)(i \<mapsto> y))"
  using one_moves_once [OF run_guar [OF assms(1)] assms(2), of w] assms(3) by simp

text \<open>The verdict behind a move, and the wait behind a new AnalysisRun.\<close>

lemma run_reconcileOne:
  assumes "run (reconcileOne r ro) w = (l, w')" "ro_Stage ro \<noteq> []"
  shows "(rows w' = rows w \<or>
     (\<exists>x y rn w1. rows w (ro_RolloutID ro) = Some x \<and> ro_Stage x = ro_Stage ro \<and> row_step x y \<and>
        rows w' = (rows w)(ro_RolloutID ro \<mapsto> y) \<and>
        ac_FindForStage (rc_runs r) (ro_RolloutID ro) (ro_Stage ro) w = (Inr (Some rn), w1) \<and>
        (run_Phase rn = PhaseSuccessful \<and> ro_Status y \<in> {''running'', ''promoted''} \<or>
         run_Phase rn \<in> {PhaseFailed, PhaseError, PhaseInconclusive} \<and> ro_Status y = ''rolled_back''))) \<and>
   (l = LogCreated \<longrightarrow>
     (\<exists>w1 now w2. ac_FindForStage (rc_runs r) (ro_RolloutID ro) (ro_Stage ro) w = (Inr None, w1) \<and>
        rc_Now r w1 = (now, w2) \<and> rc_stageGrace r \<le> time_Sub now (ro_StageEnteredAt ro)))"
proof (cases "ro_Stage ro = ''stable''")
  case True
  with assms(1) show ?thesis by (simp add: reconcileOne_def)
next
  case False
  obtain res w1 where find: "ac_FindForStage (rc_runs r) (ro_RolloutID ro) (ro_Stage ro) w = (res, w1)" by fastforce
  have w1: "rows w1 = rows w" by (rule keepsD [OF Find_keeps find])
  note base = assms(1) False find
  show ?thesis
  proof (cases res)
    case (Inl e)
    with base w1 show ?thesis by (auto simp: reconcileOne_def)
  next
    case (Inr found)
    show ?thesis
    proof (cases found)
      case None
      obtain now w2 where now: "rc_Now r w1 = (now, w2)" by fastforce
      obtain e w3 where cr: "ac_CreateForStage (rc_runs r) (ro_RolloutID ro) (ro_ModelRef ro) (ro_Stage ro)
          (StagePercent (ro_Stage ro)) w2 = (e, w3)" by fastforce
      have "rows w2 = rows w" "rows w3 = rows w"
        using keepsD [OF Clock_keeps now] keepsD [OF Create_keeps cr] w1 by simp_all
      with base Inr None now cr show ?thesis
        by (cases e) (auto simp: reconcileOne_def split: if_splits)
    next
      case (Some rn)
      consider (adv) "run_Phase rn = PhaseSuccessful"
        | (rb) "run_Phase rn \<in> {PhaseFailed, PhaseError, PhaseInconclusive}"
        | (other) "run_Phase rn \<notin> {PhaseSuccessful, PhaseFailed, PhaseError, PhaseInconclusive}" by auto
      then show ?thesis
      proof cases
        case adv
        obtain a w2 where a: "run (rd_AutoAdvance (rc_driver r) (ro_RolloutID ro) (ro_Stage ro)) w1 = (a, w2)" by fastforce
        have "w' = w2" "l \<noteq> LogCreated" using base Inr Some adv a by (auto simp: reconcileOne_def split: sum.splits if_splits)
        with run_moves [OF AutoAdvance_moves assms(2) a] w1 Inr Some find adv show ?thesis by fastforce
      next
        case rb
        then have np: "run_Phase rn \<noteq> PhaseSuccessful" by auto
        obtain a w2 where a: "run (rd_AutoRollback (rc_driver r) (ro_RolloutID ro) (ro_Stage ro)) w1 = (a, w2)" by fastforce
        have "w' = w2" "l \<noteq> LogCreated" using base Inr Some rb np a by (auto simp: reconcileOne_def split: option.splits if_splits)
        with run_moves [OF AutoRollback_moves assms(2) a] w1 Inr Some find rb show ?thesis by fastforce
      next
        case other
        with base Inr Some w1 show ?thesis by (auto simp: reconcileOne_def)
      qed
    qed
  qed
qed

end

text \<open>The service of control-plane is such a driver, on any world with the tables.\<close>

lemma rollout_driver_moves:
  assumes "rl_store s = rollout_CockroachStore" "rollout_outside s"
  shows "verdict_driver (rollout_driver s) rollout_rows"
proof -
  have svc: "rollout_service s rollout_rows" using assms by (rule rollout_service_cockroach)
  then have cas: "cas_service s rollout_rows" by (rule rollout_service.axioms(1))
  then have st: "cas_store (rl_store s) rollout_rows" by (rule cas_service.axioms(1))
  show ?thesis
    using cas_service.advanceStage_guar [OF cas] cas_service.revertCanary_guar [OF cas] cas_store.ListRunning_keeps [OF st]
    by unfold_locales
      (auto simp: rollout_driver_def AutoAdvance_def AutoRollback_def rollout_ListRunningRollouts_def intro!: guar_keeps)
qed

interpretation cp_driver: verdict_driver "rollout_driver (cp_rollout hmac_b64 mj aj valid rfc)" rollout_rows
  for hmac_b64 mj aj valid rfc
  by (rule rollout_driver_moves) (simp_all add: cp_rollout_outside, simp add: cp_rollout_def)

text \<open>With the test client, whose AnalysisRuns are a map in the world.\<close>

lemma FakeClient_keeps:
  "keeps rollout_rows (FakeClient_FindForStage i stage)" "keeps rollout_rows (FakeClient_CreateForStage i m stage pc)"
  by (simp_all add: keeps_def FakeClient_FindForStage_def FakeClient_CreateForStage_def rollout_rows_def split: option.splits)

interpretation cp_rec: reconciler
  "NewReconciler (rollout_driver (cp_rollout hmac_b64 mj aj valid rfc)) FakeClient_ops read_clock" rollout_rows
  for hmac_b64 mj aj valid rfc
  using FakeClient_keeps cp_keeps_rows(6)
  by (intro reconciler.intro reconciler_axioms.intro)
    (simp_all add: NewReconciler_def FakeClient_ops_def cp_driver.verdict_driver_axioms)

section \<open>Properties\<close>

text \<open>
  A reconciler of control-plane: it drives the rollout service on CockroachDB, and neither the Kubernetes API nor the
  clock writes the table of rollouts.
\<close>

definition cp_reconciler :: "'z rollout_tables_scheme Reconciler \<Rightarrow> bool" where
  "cp_reconciler r \<longleftrightarrow>
     (\<exists>s. rc_driver r = rollout_driver s \<and> rl_store s = rollout_CockroachStore \<and> rollout_outside s) \<and>
     (\<forall>i stage. keeps rollout_rows (ac_FindForStage (rc_runs r) i stage)) \<and>
     (\<forall>i m stage pc. keeps rollout_rows (ac_CreateForStage (rc_runs r) i m stage pc)) \<and>
     keeps rollout_rows (rc_Now r)"

lemma cp_reconciler_reconciler: "cp_reconciler r \<Longrightarrow> reconciler r rollout_rows"
  unfolding cp_reconciler_def
  by (intro reconciler.intro reconciler_axioms.intro) (auto intro: rollout_driver_moves)

text \<open>
  C13. The reconciler acts on verdicts only. When it handles a rollout, the table of rollouts is unchanged, or that
  rollout, still at the stage that was listed, was moved once: forward or promoted when the AnalysisRun of that
  stage was found Successful, rolled back when it was found Failed, Error or Inconclusive. A new AnalysisRun is
  created only when none was found for the stage and the stage had lasted at least the grace period.
\<close>

theorem reconciler_acts_on_verdicts:
  assumes "cp_reconciler r" "run (reconcileOne r ro) w = (l, w')" "ro_Stage ro \<noteq> []"
  shows "(rollout_rows w' = rollout_rows w \<or>
     (\<exists>x y rn w1. rollout_rows w (ro_RolloutID ro) = Some x \<and> ro_Stage x = ro_Stage ro \<and> row_step x y \<and>
        rollout_rows w' = (rollout_rows w)(ro_RolloutID ro \<mapsto> y) \<and>
        ac_FindForStage (rc_runs r) (ro_RolloutID ro) (ro_Stage ro) w = (Inr (Some rn), w1) \<and>
        (run_Phase rn = PhaseSuccessful \<and> ro_Status y \<in> {''running'', ''promoted''} \<or>
         run_Phase rn \<in> {PhaseFailed, PhaseError, PhaseInconclusive} \<and> ro_Status y = ''rolled_back''))) \<and>
   (l = LogCreated \<longrightarrow>
     (\<exists>w1 now w2. ac_FindForStage (rc_runs r) (ro_RolloutID ro) (ro_Stage ro) w = (Inr None, w1) \<and>
        rc_Now r w1 = (now, w2) \<and> rc_stageGrace r \<le> time_Sub now (ro_StageEnteredAt ro)))"
  by (rule reconciler.run_reconcileOne [OF cp_reconciler_reconciler [OF assms(1)] assms(2,3)])

definition demo_reconciler :: "FakeClient Reconciler" where
  "demo_reconciler = NewReconciler
     (rollout_driver (cp_rollout (\<lambda>k p. k @ p) (\<lambda>e. me_VersionID e) (\<lambda>e. ae_Stable e) (\<lambda>j. j \<noteq> []) (\<lambda>t. [])))
     FakeClient_ops read_clock"

definition demo_fleet :: "string \<Rightarrow> Phase \<Rightarrow> FakeClient" where
  "demo_fleet stage phase = rollout_tables.extend (demo_tables stage)
     \<lparr>fc_runs = [''r1/'' @ stage \<mapsto> \<lparr>run_Name = ''run'', run_Phase = phase\<rparr>], fc_CreateCalls = [], fc_CreateErr = None,
      fc_FindErr = None, fd_AutoAdvanceCalls = [], fd_AutoRollbackCalls = []\<rparr>"

lemma demo_reconciler_ok: "cp_reconciler demo_reconciler"
  unfolding cp_reconciler_def demo_reconciler_def
  using FakeClient_keeps cp_keeps_rows(6) cp_rollout_outside
  by (auto simp: NewReconciler_def FakeClient_ops_def intro!: exI) (simp add: cp_rollout_def)

lemmas demo_fleet_eval =
  demo_reconciler_def NewReconciler_def rollout_driver_def FakeClient_ops_def FakeClient_FindForStage_def demo_fleet_def
  rollout_tables.extend_def analysis_key_def AutoAdvance_def AutoRollback_def reconcileOne_def demo_rollout_eval

theorem reconciler_acts_on_verdicts_witness:
  "\<exists>y. rollout_rows (snd (run (reconcileOne demo_reconciler (demo_row ''canary_1'')) (demo_fleet ''canary_1'' PhaseFailed))) ''r1'' = Some y \<and>
     ro_Status y = ''rolled_back''"
proof -
  let ?w = "demo_fleet ''canary_1'' PhaseFailed" and ?ro = "demo_row ''canary_1''"
  let ?r = "run (reconcileOne demo_reconciler ?ro) ?w"
  have moved: "rollout_rows (snd ?r) ''r1'' \<noteq> rollout_rows ?w ''r1''" by (simp add: demo_fleet_eval)
  have find: "ac_FindForStage (rc_runs demo_reconciler) ''r1'' ''canary_1'' ?w =
      (Inr (Some \<lparr>run_Name = ''run'', run_Phase = PhaseFailed\<rparr>), ?w)" by (simp add: demo_fleet_eval)
  have ro: "ro_Stage ?ro = ''canary_1''" "ro_RolloutID ?ro = ''r1''" by (simp_all add: demo_row_def)
  from reconciler_acts_on_verdicts [OF demo_reconciler_ok, of ?ro ?w "fst ?r" "snd ?r"] moved find ro show ?thesis by auto
qed

text \<open>
  Replicas do not add up: when any number of reconcilers, on any replicas and with any clients, handle the same
  stage of the same rollout in any interleaving, the table of rollouts is unchanged or that rollout was moved
  once from that stage.
\<close>

theorem reconciler_replicas_move_once:
  assumes "\<forall>p \<in> set ps. \<exists>r ro. cp_reconciler r \<and> p = reconcileOne r ro \<and> ro_RolloutID ro = i \<and> ro_Stage ro = stage"
    and "stage \<noteq> []" "conc_reaches (ps, w) (ps', w')"
  shows "rollout_rows w' = rollout_rows w \<or>
    (\<exists>x y. rollout_rows w i = Some x \<and> ro_Stage x = stage \<and> row_step x y \<and> rollout_rows w' = (rollout_rows w)(i \<mapsto> y))"
proof -
  have "\<forall>p \<in> set ps. guar (one_move rollout_rows UNIV i stage) p"
  proof
    fix p assume "p \<in> set ps"
    with assms(1) obtain r ro where r: "cp_reconciler r" "p = reconcileOne r ro" "ro_RolloutID ro = i" "ro_Stage ro = stage"
      by blast
    show "guar (one_move rollout_rows UNIV i stage) p"
      using reconciler.reconcileOne_moves [OF cp_reconciler_reconciler [OF r(1)], of ro] unfolding r(2-4) .
  qed
  with conc_guar [OF assms(3), of "one_move rollout_rows UNIV i stage"]
  have "(one_move rollout_rows UNIV i stage)\<^sup>*\<^sup>* w w'" by blast
  from one_moves_once [OF this assms(2)] show ?thesis by blast
qed

theorem reconciler_replicas_move_once_witness:
  "\<exists>y. rollout_rows (snd (conc_run [0, 1, 0, 1, 0, 1, 0, 1] ([reconcileOne demo_reconciler (demo_row ''canary_1''),
      reconcileOne demo_reconciler (demo_row ''canary_1'')], demo_fleet ''canary_1'' PhaseSuccessful))) ''r1'' = Some y \<and>
     row_step (demo_row ''canary_1'') y"
proof -
  let ?ps = "[reconcileOne demo_reconciler (demo_row ''canary_1''), reconcileOne demo_reconciler (demo_row ''canary_1'')]"
  let ?w = "demo_fleet ''canary_1'' PhaseSuccessful"
  let ?d = "conc_run [0, 1, 0, 1, 0, 1, 0, 1] (?ps, ?w)"
  have r: "conc_reaches (?ps, ?w) (fst ?d, snd ?d)" unfolding prod.collapse by (rule conc_run_reaches)
  have moved: "rollout_rows (snd ?d) ''r1'' \<noteq> rollout_rows ?w ''r1''"
    by (simp add: demo_fleet_eval bindE_def bindO_def act_def)
  have row: "rollout_rows ?w ''r1'' = Some (demo_row ''canary_1'')"
    by (simp add: demo_fleet_def rollout_tables.extend_def rollout_rows_def demo_tables_def find_rollout_def demo_row_def)
  have "ro_Stage (demo_row ''canary_1'') = ''canary_1''" "ro_RolloutID (demo_row ''canary_1'') = ''r1''"
    by (simp_all add: demo_row_def)
  then have "\<forall>p \<in> set ?ps. \<exists>r ro. cp_reconciler r \<and> p = reconcileOne r ro \<and> ro_RolloutID ro = ''r1'' \<and> ro_Stage ro = ''canary_1''"
    using demo_reconciler_ok by auto
  note once = reconciler_replicas_move_once [OF this _ r]
  have use: "rollout_rows u ''r1'' \<noteq> rollout_rows v ''r1'' \<Longrightarrow> rollout_rows v ''r1'' = Some x \<Longrightarrow>
      rollout_rows u = rollout_rows v \<or> (\<exists>x y. rollout_rows v ''r1'' = Some x \<and> ro_Stage x = ''canary_1'' \<and> row_step x y \<and>
        rollout_rows u = (rollout_rows v)(''r1'' \<mapsto> y)) \<Longrightarrow>
      \<exists>y. rollout_rows u ''r1'' = Some y \<and> row_step x y" for u v :: FakeClient and x by auto
  show ?thesis by (rule use [OF moved row once]) simp
qed

end
