(* ===== verification/Base64.thy ===== *)
theory Base64
  imports Json_Codec
begin

text \<open>
  The package \<^verbatim>\<open>encoding/base64\<close>, of which the client for Vault uses \<^verbatim>\<open>StdEncoding.EncodeToString\<close>: three bytes become four characters of
  an alphabet of 64, and the end is padded with equals signs. The decoder is the reference for what the text means: it gives back the bytes.
\<close>

section \<open>Model\<close>

definition b64_alphabet :: string where
  "b64_alphabet = ''ABCDEFGHIJKLMNOPQRSTUVWXYZabcdefghijklmnopqrstuvwxyz0123456789+/''"

definition b64_char :: "nat \<Rightarrow> char" where
  "b64_char k = b64_alphabet ! k"

fun base64_encode :: "string \<Rightarrow> string" where
  "base64_encode [] = []"
| "base64_encode [a] = [b64_char (byte a div 4), b64_char (byte a mod 4 * 16), CHR ''='', CHR ''='']"
| "base64_encode [a, b] =
     [b64_char (byte a div 4), b64_char (byte a mod 4 * 16 + byte b div 16), b64_char (byte b mod 16 * 4), CHR ''='']"
| "base64_encode (a # b # c # s) =
     b64_char (byte a div 4) # b64_char (byte a mod 4 * 16 + byte b div 16) # b64_char (byte b mod 16 * 4 + byte c div 64) #
     b64_char (byte c mod 64) # base64_encode s"

section \<open>The reference decoder\<close>

definition b64_value :: "char \<Rightarrow> nat option" where
  "b64_value c = (let k = length (takeWhile (\<lambda>d. d \<noteq> c) b64_alphabet) in if k < 64 then Some k else None)"

fun base64_decode :: "string \<Rightarrow> string option" where
  "base64_decode [] = Some []"
| "base64_decode (p # q # r # t # s) =
     (case (b64_value p, b64_value q) of
        (Some i, Some j) \<Rightarrow>
          if r = CHR ''='' then (if t = CHR ''='' \<and> s = [] \<and> j mod 16 = 0 then Some [char_of (i * 4 + j div 16)] else None)
          else
            (case b64_value r of
               None \<Rightarrow> None
             | Some k \<Rightarrow>
                 if t = CHR ''='' then
                   (if s = [] \<and> k mod 4 = 0 then Some [char_of (i * 4 + j div 16), char_of (j mod 16 * 16 + k div 4)] else None)
                 else
                   (case (b64_value t, base64_decode s) of
                      (Some l, Some u) \<Rightarrow> Some (char_of (i * 4 + j div 16) # char_of (j mod 16 * 16 + k div 4) # char_of (k mod 4 * 64 + l) # u)
                    | _ \<Rightarrow> None))
      | _ \<Rightarrow> None)"
| "base64_decode _ = None"

section \<open>Facts\<close>

lemma b64_alphabet_ok:
  "\<forall>k \<in> {0..<64}. b64_value (b64_char k) = Some k" "\<forall>k \<in> {0..<64}. b64_char k \<noteq> CHR ''='' \<and> byte (b64_char k) < 128"
  by code_simp+

lemma b64_char_value: "k < 64 \<Longrightarrow> b64_value (b64_char k) = Some k"
  using b64_alphabet_ok(1) by simp

lemma b64_char_ascii: "k < 64 \<Longrightarrow> b64_char k \<noteq> CHR ''=''" "k < 64 \<Longrightarrow> byte (b64_char k) < 128"
  using b64_alphabet_ok(2) by simp_all

lemma byte_divs: "byte a div 4 < 64" "byte a div 16 < 16" "byte a div 64 < 4"
proof -
  have "byte a < 256" by simp
  then show "byte a div 4 < 64" "byte a div 16 < 16" "byte a div 64 < 4" by (simp_all add: less_mult_imp_div_less)
qed

lemma byte_bounds:
  "byte a mod 4 * 16 < 64" "byte a mod 4 * 16 + byte b div 16 < 64" "byte b mod 16 * 4 < 64"
  "byte b mod 16 * 4 + byte c div 64 < 64" "byte c mod 64 < 64"
proof -
  have "byte a mod 4 < 4" "byte b mod 16 < 16" by simp_all
  then show "byte a mod 4 * 16 < 64" "byte a mod 4 * 16 + byte b div 16 < 64" "byte b mod 16 * 4 < 64"
    "byte b mod 16 * 4 + byte c div 64 < 64" "byte c mod 64 < 64"
    using byte_divs(2) [of b] byte_divs(3) [of c] by linarith+
qed

text \<open>The text means the bytes.\<close>

lemma base64_decode_encode: "base64_decode (base64_encode s) = Some s"
proof (induction s rule: base64_encode.induct)
  case (2 a)
  have "(byte a mod 4 * 16) div 16 = byte a mod 4" by simp
  then show ?case by (simp add: b64_char_value b64_char_ascii byte_bounds byte_divs(1))
next
  case (3 a b)
  have "(byte a mod 4 * 16 + byte b div 16) div 16 = byte a mod 4" "(byte a mod 4 * 16 + byte b div 16) mod 16 = byte b div 16"
    using byte_divs(2) [of b] by simp_all
  then show ?case by (simp add: b64_char_value b64_char_ascii byte_bounds byte_divs(1))
next
  case (4 a b c s)
  have "byte b div 16 < 16" "byte c div 64 < 4" using byte_divs by blast+
  then have "(byte a mod 4 * 16 + byte b div 16) div 16 = byte a mod 4" "(byte a mod 4 * 16 + byte b div 16) mod 16 = byte b div 16"
    "(byte b mod 16 * 4 + byte c div 64) div 4 = byte b mod 16" "(byte b mod 16 * 4 + byte c div 64) mod 4 = byte c div 64"
    by simp_all
  then show ?case using 4 by (simp add: b64_char_value b64_char_ascii byte_bounds byte_divs(1))
qed simp

lemma base64_encode_inj: "base64_encode s = base64_encode t \<longleftrightarrow> s = t"
  by (metis base64_decode_encode option.inject)

lemma base64_encode_ascii: "\<forall>c \<in> set (base64_encode s). byte c < 128"
  by (induction s rule: base64_encode.induct) (simp_all add: b64_char_ascii byte_bounds byte_divs(1))

lemma base64_encode_valid: "utf8_valid (base64_encode s)"
  by (rule utf8_valid_ascii [OF base64_encode_ascii])

end
