(* ===== verification/Vault.thy ===== *)
theory Vault
  imports Registry Base64
begin

text \<open>
  The client for Vault (\<^verbatim>\<open>services/control-plane/internal/vaultclient\<close>) and the provider tokens made from its
  secrets (\<^verbatim>\<open>internal/providertoken\<close>). The HTTP client, the file with the service account's token and the clock
  are arguments; the JSON of the requests and answers and the base64 of the signed bytes are defined. The client's cached token is part of the state that its operations thread; the mutex of
  \<open>ensureToken\<close> makes each of them one action for the others.
\<close>

section \<open>Model\<close>

record vault_Client =
  vc_addr :: string
  vc_k8sRole :: string
  vc_saTokenPath :: string
  vc_vaultToken :: string
  vc_tokenExpires :: int

definition vault_New :: "string \<Rightarrow> string \<Rightarrow> vault_Client" where
  "vault_New addr k8sRole =
     \<lparr>vc_addr = addr, vc_k8sRole = k8sRole, vc_saTokenPath = ''/var/run/secrets/kubernetes.io/serviceaccount/token'',
      vc_vaultToken = [], vc_tokenExpires = 0\<rparr>"

record http_request =
  hq_method :: string
  hq_url :: string
  hq_headers :: "(string \<times> string) list"
  hq_body :: string

record vaultAuthResponse =
  va_ClientToken :: string
  va_LeaseDuration :: int
  va_Errors :: "string list"

record transitSignResponse =
  ts_Signature :: string
  ts_Errors :: "string list"

record transitVerifyResponse =
  tv_Valid :: bool
  tv_Errors :: "string list"

text \<open>The value under \<^verbatim>\<open>api_key\<close> in the secret's data, when it is a string.\<close>

record kvReadResponse =
  kv_api_key :: "string option"
  kv_Errors :: "string list"

text \<open>
  What the client uses of its surroundings. A response is its status and the outcome of reading its body. \<open>ve_fitsFloat64\<close> says whether the literal
  of a number is in the range of a float64, which matters inside a secret only.
\<close>

record 'w vault_env =
  ve_ReadFile :: "string \<Rightarrow> 'w \<Rightarrow> string result \<times> 'w"
  ve_NewRequest :: "http_request \<Rightarrow> go_error option"
  ve_Do :: "http_request \<Rightarrow> 'w \<Rightarrow> (int \<times> string result) result \<times> 'w"
  ve_Now :: "'w \<Rightarrow> int \<times> 'w"
  ve_fitsFloat64 :: "string \<Rightarrow> bool"

subsection \<open>The JSON of requests and answers\<close>

definition k8sLoginRequest :: "string \<Rightarrow> string \<Rightarrow> json" where
  "k8sLoginRequest role jwt = JsonObj [(''role'', JsonStr role), (''jwt'', JsonStr jwt)]"

definition transitSignRequest :: "string \<Rightarrow> json" where
  "transitSignRequest input = JsonObj [(''input'', JsonStr input)]"

definition transitVerifyRequest :: "string \<Rightarrow> string \<Rightarrow> json" where
  "transitVerifyRequest input signature = JsonObj [(''input'', JsonStr input), (''signature'', JsonStr signature)]"

definition dec_errors :: "string list json_dec" where
  "dec_errors = dec_slice ''[]string'' (dec_string ''string'') []"

definition vault_auth_fields :: "(string \<times> int) json_field list" where
  "vault_auth_fields =
     [in_field ''client_token'' (dec_string ''string'') fst (\<lambda>t a. (t, snd a)),
      in_field ''lease_duration'' (dec_int ''int'' in_int64) snd (\<lambda>k a. (fst a, k))]"

definition vault_UnmarshalAuth :: "string \<Rightarrow> vaultAuthResponse result" where
  "vault_UnmarshalAuth =
     json_Unmarshal (dec_struct ''vaultclient.vaultAuthResponse''
       [in_field ''auth'' (dec_struct ''struct'' vault_auth_fields) (\<lambda>r. (va_ClientToken r, va_LeaseDuration r))
          (\<lambda>a r. r\<lparr>va_ClientToken := fst a, va_LeaseDuration := snd a\<rparr>),
        in_field ''errors'' dec_errors va_Errors (\<lambda>es r. r\<lparr>va_Errors := es\<rparr>)])
       \<lparr>va_ClientToken = [], va_LeaseDuration = 0, va_Errors = []\<rparr>"

definition vault_UnmarshalSign :: "string \<Rightarrow> transitSignResponse result" where
  "vault_UnmarshalSign =
     json_Unmarshal (dec_struct ''vaultclient.transitSignResponse''
       [in_field ''data'' (dec_only ''struct'' ''signature'' (dec_string ''string'')) ts_Signature (\<lambda>s r. r\<lparr>ts_Signature := s\<rparr>),
        in_field ''errors'' dec_errors ts_Errors (\<lambda>es r. r\<lparr>ts_Errors := es\<rparr>)])
       \<lparr>ts_Signature = [], ts_Errors = []\<rparr>"

definition vault_UnmarshalVerify :: "string \<Rightarrow> transitVerifyResponse result" where
  "vault_UnmarshalVerify =
     json_Unmarshal (dec_struct ''vaultclient.transitVerifyResponse''
       [in_field ''data'' (dec_only ''struct'' ''valid'' (dec_bool ''bool'')) tv_Valid (\<lambda>b r. r\<lparr>tv_Valid := b\<rparr>),
        in_field ''errors'' dec_errors tv_Errors (\<lambda>es r. r\<lparr>tv_Errors := es\<rparr>)])
       \<lparr>tv_Valid = False, tv_Errors = []\<rparr>"

definition vault_UnmarshalKV :: "'w vault_env \<Rightarrow> string \<Rightarrow> kvReadResponse result" where
  "vault_UnmarshalKV env =
     json_Unmarshal (dec_struct ''vaultclient.kvReadResponse''
       [in_field ''data'' (dec_only ''struct'' ''data'' (dec_map_string (ve_fitsFloat64 env) ''api_key'')) kv_api_key (\<lambda>k r. r\<lparr>kv_api_key := k\<rparr>),
        in_field ''errors'' dec_errors kv_Errors (\<lambda>es r. r\<lparr>kv_Errors := es\<rparr>)])
       \<lparr>kv_api_key = None, kv_Errors = []\<rparr>"

text \<open>The field \<^verbatim>\<open>errors\<close> of an answer that is an error, whose decoding is not checked.\<close>

definition vault_errors :: "string \<Rightarrow> string list" where
  "vault_errors =
     Unmarshal_ignored (dec_only ''struct'' ''errors'' (lenient (dec_slice ''[]string'' (lenient (dec_string ''string'')) []))) []"

subsection \<open>The client\<close>

text \<open>The verb \<^verbatim>\<open>%v\<close> on a slice of strings.\<close>

definition show_strings :: "string list \<Rightarrow> string" where
  "show_strings xs = ''['' @ strings_Join xs '' '' @ '']''"

text \<open>What the four operations have in common: build the request, call Vault, read the body.\<close>

definition vault_exchange ::
  "'w vault_env \<Rightarrow> string \<Rightarrow> string \<Rightarrow> string \<Rightarrow> http_request \<Rightarrow> 'w \<Rightarrow> (int \<times> string) result \<times> 'w" where
  "vault_exchange env building calling reading req w =
     (case ve_NewRequest env req of
        Some err \<Rightarrow> (Inl (Wrap building err []), w)
      | None \<Rightarrow>
          (case ve_Do env req w of
             (Inl err, w1) \<Rightarrow> (Inl (Wrap calling err []), w1)
           | (Inr (status, Inl err), w1) \<Rightarrow> (Inl (Wrap reading err []), w1)
           | (Inr (status, Inr body), w1) \<Rightarrow> (Inr (status, body), w1)))"

definition login_request :: "vault_Client \<Rightarrow> string \<Rightarrow> http_request" where
  "login_request c body =
     \<lparr>hq_method = ''POST'', hq_url = vc_addr c @ ''/v1/auth/kubernetes/login'',
      hq_headers = [(''Content-Type'', ''application/json'')], hq_body = body\<rparr>"

definition vault_login :: "'w vault_env \<Rightarrow> vault_Client \<times> 'w \<Rightarrow> go_error option \<times> vault_Client \<times> 'w" where
  "vault_login env = (\<lambda>(c, w).
     case ve_ReadFile env (vc_saTokenPath c) w of
       (Inl err, w1) \<Rightarrow> (Some (Wrap ''reading service account token: '' err []), c, w1)
     | (Inr jwt, w1) \<Rightarrow>
         (case json_Marshal True (k8sLoginRequest (vc_k8sRole c) jwt) of
            Inl err \<Rightarrow> (Some (Wrap ''marshaling login request: '' err []), c, w1)
          | Inr body \<Rightarrow>
              (case vault_exchange env ''building login request: '' ''calling Vault kubernetes login: '' ''reading login response: ''
                      (login_request c body) w1 of
                 (Inl err, w2) \<Rightarrow> (Some err, c, w2)
               | (Inr (status, respBody), w2) \<Rightarrow>
                   (case vault_UnmarshalAuth respBody of
                      Inl err \<Rightarrow> (Some (Wrap (''decoding login response (status '' @ show_int status @ ''): '') err []), c, w2)
                    | Inr authResp \<Rightarrow>
                        if status \<noteq> 200 \<or> va_ClientToken authResp = []
                        then (Some (ErrorString (''vault kubernetes login failed (status '' @ show_int status @ ''): ''
                               @ show_strings (va_Errors authResp))), c, w2)
                        else (case ve_Now env w2 of (now, w3) \<Rightarrow>
                          (None, c\<lparr>vc_vaultToken := va_ClientToken authResp,
                                   vc_tokenExpires := now + wrap64 (wrap64 (va_LeaseDuration authResp * nsPerSecond)
                                     - 30 * nsPerSecond)\<rparr>, w3))))))"

definition ensureToken :: "'w vault_env \<Rightarrow> vault_Client \<times> 'w \<Rightarrow> string result \<times> vault_Client \<times> 'w" where
  "ensureToken env = (\<lambda>(c, w).
     if vc_vaultToken c \<noteq> [] then
       (case ve_Now env w of (now, w1) \<Rightarrow>
          if now < vc_tokenExpires c then (Inr (vc_vaultToken c), c, w1)
          else (case vault_login env (c, w1) of
                  (Some err, c1, w2) \<Rightarrow> (Inl err, c1, w2)
                | (None, c1, w2) \<Rightarrow> (Inr (vc_vaultToken c1), c1, w2)))
     else (case vault_login env (c, w) of
             (Some err, c1, w2) \<Rightarrow> (Inl err, c1, w2)
           | (None, c1, w2) \<Rightarrow> (Inr (vc_vaultToken c1), c1, w2)))"

definition vault_Sign :: "'w vault_env \<Rightarrow> string \<Rightarrow> string \<Rightarrow> vault_Client \<times> 'w \<Rightarrow> string result \<times> vault_Client \<times> 'w" where
  "vault_Sign env keyName input cw =
     (case ensureToken env cw of
        (Inl err, c, w) \<Rightarrow> (Inl (Wrap ''vault auth: '' err []), c, w)
      | (Inr token, c, w) \<Rightarrow>
          (case json_Marshal True (transitSignRequest (base64_encode input)) of
             Inl err \<Rightarrow> (Inl (Wrap ''marshaling sign request: '' err []), c, w)
           | Inr reqBody \<Rightarrow>
               (case vault_exchange env ''building sign request: '' ''calling transit sign: '' ''reading sign response: ''
                       \<lparr>hq_method = ''POST'', hq_url = vc_addr c @ ''/v1/transit/sign/'' @ keyName,
                        hq_headers = [(''Content-Type'', ''application/json''), (''X-Vault-Token'', token)],
                        hq_body = reqBody\<rparr> w of
                  (Inl err, w1) \<Rightarrow> (Inl err, c, w1)
                | (Inr (status, respBody), w1) \<Rightarrow>
                    (case vault_UnmarshalSign respBody of
                       Inl err \<Rightarrow> (Inl (Wrap (''decoding sign response (status '' @ show_int status @ ''): '') err []), c, w1)
                     | Inr signResp \<Rightarrow>
                         if status \<noteq> 200 \<or> ts_Signature signResp = []
                         then (Inl (ErrorString (''transit sign failed (status '' @ show_int status @ ''): ''
                                @ show_strings (ts_Errors signResp))), c, w1)
                         else (Inr (ts_Signature signResp), c, w1)))))"

definition vault_Verify ::
  "'w vault_env \<Rightarrow> string \<Rightarrow> string \<Rightarrow> string \<Rightarrow> vault_Client \<times> 'w \<Rightarrow> bool result \<times> vault_Client \<times> 'w" where
  "vault_Verify env keyName input signature cw =
     (case ensureToken env cw of
        (Inl err, c, w) \<Rightarrow> (Inl (Wrap ''vault auth: '' err []), c, w)
      | (Inr token, c, w) \<Rightarrow>
          (case json_Marshal True (transitVerifyRequest (base64_encode input) signature) of
             Inl err \<Rightarrow> (Inl (Wrap ''marshaling verify request: '' err []), c, w)
           | Inr reqBody \<Rightarrow>
               (case vault_exchange env ''building verify request: '' ''calling transit verify: '' ''reading verify response: ''
                       \<lparr>hq_method = ''POST'', hq_url = vc_addr c @ ''/v1/transit/verify/'' @ keyName,
                        hq_headers = [(''Content-Type'', ''application/json''), (''X-Vault-Token'', token)],
                        hq_body = reqBody\<rparr> w of
                  (Inl err, w1) \<Rightarrow> (Inl err, c, w1)
                | (Inr (status, respBody), w1) \<Rightarrow>
                    if status \<noteq> 200 then
                      (if status = 400 then (Inr False, c, w1)
                       else (Inl (ErrorString (''transit verify failed (status '' @ show_int status @ ''): ''
                               @ show_strings (vault_errors respBody))), c, w1))
                    else
                      (case vault_UnmarshalVerify respBody of
                         Inl err \<Rightarrow> (Inl (Wrap ''decoding verify response: '' err []), c, w1)
                       | Inr verifyResp \<Rightarrow> (Inr (tv_Valid verifyResp), c, w1)))))"

definition ReadProviderSecret :: "'w vault_env \<Rightarrow> string \<Rightarrow> vault_Client \<times> 'w \<Rightarrow> string result \<times> vault_Client \<times> 'w" where
  "ReadProviderSecret env provider cw =
     (case ensureToken env cw of
        (Inl err, c, w) \<Rightarrow> (Inl (Wrap ''vault auth: '' err []), c, w)
      | (Inr token, c, w) \<Rightarrow>
          (case vault_exchange env ''building secret read request: '' ''calling secret read: '' ''reading secret read response: ''
                  \<lparr>hq_method = ''GET'', hq_url = vc_addr c @ ''/v1/secret/data/provider/'' @ provider,
                   hq_headers = [(''X-Vault-Token'', token)], hq_body = []\<rparr> w of
             (Inl err, w1) \<Rightarrow> (Inl err, c, w1)
           | (Inr (status, respBody), w1) \<Rightarrow>
               if status = 404 then (Inl (ErrorString (''no secret stored at secret/provider/'' @ provider)), c, w1)
               else if status \<noteq> 200 then
                 (Inl (ErrorString (''secret read failed (status '' @ show_int status @ ''): ''
                    @ show_strings (vault_errors respBody))), c, w1)
               else
                 (case vault_UnmarshalKV env respBody of
                    Inl err \<Rightarrow> (Inl (Wrap ''decoding secret read response: '' err []), c, w1)
                  | Inr kvResp \<Rightarrow>
                      (case kv_api_key kvResp of
                         Some apiKey \<Rightarrow>
                           if apiKey = []
                           then (Inl (ErrorString (''secret/provider/'' @ provider @ '' has no non-empty api_key field'')), c, w1)
                           else (Inr apiKey, c, w1)
                       | None \<Rightarrow> (Inl (ErrorString (''secret/provider/'' @ provider @ '' has no non-empty api_key field'')), c, w1)))))"

text \<open>The client as the registry's signer.\<close>

definition vault_Signer :: "'w vault_env \<Rightarrow> (vault_Client \<times> 'w) Signer" where
  "vault_Signer env = \<lparr>sg_Sign = vault_Sign env, sg_Verify = vault_Verify env\<rparr>"

subsection \<open>Provider tokens\<close>

record 'w providertoken_Service =
  pt_reader :: "string \<Rightarrow> 'w \<Rightarrow> string result \<times> 'w"
  pt_ttl :: duration

text \<open>\<^verbatim>\<open>int64(ttl.Seconds())\<close>.\<close>

definition IssueToken :: "'w providertoken_Service \<Rightarrow> string \<Rightarrow> string \<Rightarrow> 'w \<Rightarrow> (string \<times> int) result \<times> 'w" where
  "IssueToken s provider scope w =
     (case pt_reader s provider w of
        (Inl err, w1) \<Rightarrow> (Inl err, w1)
      | (Inr apiKey, w1) \<Rightarrow> (Inr (apiKey, wholeSeconds (pt_ttl s)), w1))"

definition FakeSecretReader :: "(string \<rightharpoonup> string) \<Rightarrow> string \<Rightarrow> 'w \<Rightarrow> string result \<times> 'w" where
  "FakeSecretReader secrets provider w =
     (case secrets provider of
        None \<Rightarrow> (Inl (ErrorString (''no fake secret for provider: '' @ provider)), w)
      | Some key \<Rightarrow> (Inr key, w))"

section \<open>Facts\<close>

lemma vault_exchange_Inr:
  "vault_exchange env b c r req w = (Inr (status, body), w') \<longleftrightarrow>
     ve_NewRequest env req = None \<and> ve_Do env req w = (Inr (status, Inr body), w')"
  by (auto simp: vault_exchange_def split: option.splits prod.splits sum.splits)

text \<open>What the signer's answer \<open>True\<close> means on the wire.\<close>

lemma vault_Verify_True:
  assumes "vault_Verify env keyName input sig cw = (Inr True, cw')"
  shows "\<exists>req w1 w2 body resp. ve_Do env req w1 = (Inr (200, Inr body), w2) \<and>
    hq_method req = ''POST'' \<and> hq_url req = vc_addr (fst cw') @ ''/v1/transit/verify/'' @ keyName \<and>
    hq_body req = json_print (transitVerifyRequest (base64_encode input) sig) \<and>
    vault_UnmarshalVerify body = Inr resp \<and> tv_Valid resp"
proof -
  obtain token c w where t: "ensureToken env cw = (Inr token, c, w)"
    using assms by (cases "ensureToken env cw") (auto simp: vault_Verify_def split: sum.splits)
  define reqBody where "reqBody = json_print (transitVerifyRequest (base64_encode input) sig)"
  have b: "json_Marshal True (transitVerifyRequest (base64_encode input) sig) = Inr reqBody" by (simp add: json_Marshal_def reqBody_def)
  let ?req = "\<lparr>hq_method = ''POST'', hq_url = vc_addr c @ ''/v1/transit/verify/'' @ keyName,
      hq_headers = [(''Content-Type'', ''application/json''), (''X-Vault-Token'', token)], hq_body = reqBody\<rparr>"
  let ?ex = "vault_exchange env ''building verify request: '' ''calling transit verify: '' ''reading verify response: '' ?req w"
  obtain status body w1 where x: "?ex = (Inr (status, body), w1)"
    using assms t b by (auto simp: vault_Verify_def split: sum.splits prod.splits)
  obtain resp where r: "status = 200" "vault_UnmarshalVerify body = Inr resp" "tv_Valid resp" "fst cw' = c"
    using assms t b x by (auto simp: vault_Verify_def split: if_splits sum.splits)
  from x have "ve_Do env ?req w = (Inr (status, Inr body), w1)" by (simp add: vault_exchange_Inr)
  with r reqBody_def show ?thesis by (intro exI [of _ ?req] exI [of _ w] exI [of _ w1] exI [of _ body] exI [of _ resp]) simp
qed

section \<open>Properties\<close>

text \<open>
  A token from a login is reused, without another login, exactly until thirty seconds before its lease ends;
  from then on every call logs in again. A lease of at most thirty seconds is never reused.
\<close>

theorem vault_token_reuse:
  assumes "vc_vaultToken c = []"
    and "ve_ReadFile env (vc_saTokenPath c) w = (Inr jwt, w1)" "body = json_print (k8sLoginRequest (vc_k8sRole c) jwt)"
    and "ve_NewRequest env (login_request c body) = None" "ve_Do env (login_request c body) w1 = (Inr (200, Inr text), w2)"
    and "vault_UnmarshalAuth text = Inr resp" "va_ClientToken resp \<noteq> []" "ve_Now env w2 = (now0, w3)"
    and "0 \<le> va_LeaseDuration resp" "in_int64 (va_LeaseDuration resp * nsPerSecond)"
  shows "\<exists>c1. ensureToken env (c, w) = (Inr (va_ClientToken resp), c1, w3) \<and>
    (\<forall>u now u1. ve_Now env u = (now, u1) \<longrightarrow>
       ensureToken env (c1, u) =
         (if now < now0 + (va_LeaseDuration resp - 30) * nsPerSecond then (Inr (va_ClientToken resp), c1, u1)
          else case vault_login env (c1, u1) of
              (Some err, c2, u2) \<Rightarrow> (Inl err, c2, u2)
            | (None, c2, u2) \<Rightarrow> (Inr (vc_vaultToken c2), c2, u2)))"
proof -
  let ?e = "now0 + (va_LeaseDuration resp - 30) * nsPerSecond"
  let ?c1 = "c\<lparr>vc_vaultToken := va_ClientToken resp, vc_tokenExpires := ?e\<rparr>"
  have "wrap64 (va_LeaseDuration resp * nsPerSecond - 30 * nsPerSecond) = va_LeaseDuration resp * nsPerSecond - 30 * nsPerSecond"
    using assms(9,10) by (intro wrap64_diff_id) (simp_all add: nsPerSecond_def in_int64_def)
  then have e: "now0 + wrap64 (wrap64 (va_LeaseDuration resp * nsPerSecond) - 30 * nsPerSecond) = ?e"
    using assms(10) by (simp add: wrap64_id left_diff_distrib)
  have "vault_login env (c, w) = (None, ?c1, w3)"
    using assms(2-8) by (simp add: vault_login_def vault_exchange_def json_Marshal_def e)
  then have "ensureToken env (c, w) = (Inr (va_ClientToken resp), ?c1, w3)"
    using assms(1) by (simp add: ensureToken_def)
  moreover have "ensureToken env (?c1, u) =
         (if now < ?e then (Inr (va_ClientToken resp), ?c1, u1)
          else case vault_login env (?c1, u1) of
              (Some err, c2, u2) \<Rightarrow> (Inl err, c2, u2)
            | (None, c2, u2) \<Rightarrow> (Inr (vc_vaultToken c2), c2, u2))" if "ve_Now env u = (now, u1)" for u now u1
    using that assms(7) by (simp add: ensureToken_def)
  ultimately show ?thesis by blast
qed

text \<open>Vault as a function of the clock: to every request it gives one answer that grants a token, a signature, a verdict and a key.\<close>

definition demo_answer :: "int \<Rightarrow> json" where
  "demo_answer lease =
     JsonObj [(''auth'', JsonObj [(''client_token'', JsonStr ''tok''), (''lease_duration'', json_int lease)]),
              (''data'', JsonObj [(''signature'', JsonStr ''sig''), (''valid'', JsonBool True), (''data'', JsonObj [(''api_key'', JsonStr ''sk'')])])]"

definition demo_vault :: "int \<Rightarrow> int vault_env" where
  "demo_vault lease =
     \<lparr>ve_ReadFile = (\<lambda>p w. (Inr ''jwt'', w)), ve_NewRequest = (\<lambda>_. None), ve_Do = (\<lambda>req w. (Inr (200, Inr (json_print (demo_answer lease))), w)),
      ve_Now = (\<lambda>w. (w, w)), ve_fitsFloat64 = (\<lambda>_. True)\<rparr>"

lemma vault_names:
  "foldName ''auth'' = ''AUTH''" "foldName ''data'' = ''DATA''" "foldName ''errors'' = ''ERRORS''" "foldName ''client_token'' = ''CLIENT_TOKEN''"
  "foldName ''lease_duration'' = ''LEASE_DURATION''" "foldName ''signature'' = ''SIGNATURE''" "foldName ''valid'' = ''VALID''"
  by (simp_all add: fold_eval)

lemma demo_answer_wf: "wf_json (demo_answer lease)" "json_depth (demo_answer lease) \<le> maxNestingDepth"
proof -
  have "utf8_valid ''auth''" "utf8_valid ''client_token''" "utf8_valid ''lease_duration''" "utf8_valid ''data''" "utf8_valid ''signature''"
    "utf8_valid ''valid''" "utf8_valid ''api_key''" "utf8_valid ''tok''" "utf8_valid ''sig''" "utf8_valid ''sk''"
    by (simp_all add: utf8_valid_ascii)
  then show "wf_json (demo_answer lease)" "json_depth (demo_answer lease) \<le> maxNestingDepth"
    by (simp_all add: demo_answer_def maxNestingDepth_def)
qed

lemma demo_answers:
  "in_int64 lease \<Longrightarrow> vault_UnmarshalAuth (json_print (demo_answer lease)) = Inr \<lparr>va_ClientToken = ''tok'', va_LeaseDuration = lease, va_Errors = []\<rparr>"
  "vault_UnmarshalSign (json_print (demo_answer lease)) = Inr \<lparr>ts_Signature = ''sig'', ts_Errors = []\<rparr>"
  "vault_UnmarshalVerify (json_print (demo_answer lease)) = Inr \<lparr>tv_Valid = True, tv_Errors = []\<rparr>"
  "vault_UnmarshalKV env (json_print (demo_answer lease)) = Inr \<lparr>kv_api_key = Some ''sk'', kv_Errors = []\<rparr>"
  unfolding vault_UnmarshalAuth_def vault_UnmarshalSign_def vault_UnmarshalVerify_def vault_UnmarshalKV_def
    json_Unmarshal_print [OF demo_answer_wf]
  by (simp_all add: demo_answer_def vault_names vault_auth_fields_def dec_map_string_def)

lemma demo_login: "vault_UnmarshalAuth (json_print (demo_answer 900)) = Inr \<lparr>va_ClientToken = ''tok'', va_LeaseDuration = 900, va_Errors = []\<rparr>"
  by (simp add: demo_answers in_int64_def)

lemmas demo_vault_eval = demo_login demo_answers(2-4) json_Marshal_def

text \<open>
  C35. End to end: a manifest that the registry serves with Vault as its signer was declared valid by Vault. There was an
  exchange with Vault's transit engine under the registry's key, about the stored signature and an input that is the base64 of exactly the version,
  the model and the specification that are served, answered with status 200 and a positive verdict. A response with any other status,
  also the status 400 of a malformed signature, never lets a manifest pass.
\<close>

theorem vault_declares_served_manifests:
  assumes "rg_signer s = vault_Signer env" "run (GetModelManifest s m v) cw = (Inr x, cw')"
  shows "\<exists>req w1 w2 input body resp. ve_Do env req w1 = (Inr (200, Inr body), w2) \<and>
    hq_method req = ''POST'' \<and> hq_url req = vc_addr (fst cw') @ ''/v1/transit/verify/'' @ SigningKeyName \<and>
    hq_body req = json_print (JsonObj [(''input'', JsonStr input), (''signature'', JsonStr (mf_Signature x))]) \<and>
    base64_decode input = Some (signedPayload (mf_VersionID x) (mf_ModelRef x) (mf_SpecJSON x)) \<and>
    vault_UnmarshalVerify body = Inr resp \<and> tv_Valid resp"
proof -
  let ?p = "signedPayload (mf_VersionID x) (mf_ModelRef x) (mf_SpecJSON x)"
  obtain w1 where "vault_Verify env SigningKeyName ?p (mf_Signature x) w1 = (Inr True, cw')"
    using assms by (auto simp: GetModelManifest_def vault_Signer_def split: prod.splits sum.splits if_splits)
  from vault_Verify_True [OF this] show ?thesis
    using base64_decode_encode [of ?p] unfolding transitVerifyRequest_def by blast
qed

definition demo_vault_registry :: "(vault_Client \<times> int) registry_Service" where
  "demo_vault_registry =
     \<lparr>rg_store = \<lparr>rs_InsertManifest = (\<lambda>_ _ _ _ _ _ w. (None, w)), rs_SetActive = (\<lambda>_ _ w. (None, w)),
        rs_GetManifestByVersion = (\<lambda>v w. (Inr demo_manifest, w)), rs_GetActiveManifest = (\<lambda>m w. (Inr demo_manifest, w)),
        rs_ListActive = (\<lambda>w. (Inr [], w)), rs_HasActiveVersion = (\<lambda>m w. (Inr True, w))\<rparr>,
      rg_signer = vault_Signer (demo_vault 900),
      rg_publisher = \<lparr>pb_PublishManifest = (\<lambda>_ _ _ _ _ _ _ w. (None, w)), pb_PublishActive = (\<lambda>_ _ w. (None, w))\<rparr>,
      rg_json_Valid = (\<lambda>_. True), rg_NewUUID = (\<lambda>w. (''u'', w)), rg_Now = (\<lambda>w. (0, w)), rg_RFC3339 = (\<lambda>_. [])\<rparr>"

theorem vault_declares_served_manifests_witness:
  "\<exists>(req :: http_request) input. hq_url req = ''http://v'' @ ''/v1/transit/verify/'' @ SigningKeyName \<and>
     hq_body req = json_print (JsonObj [(''input'', JsonStr input), (''signature'', JsonStr ''sig'')]) \<and>
     base64_decode input = Some (signedPayload ''v1'' ''gpt'' ''{}'')"
proof -
  let ?cw = "(vault_New ''http://v'' ''cp'', 0)"
  let ?r = "run (GetModelManifest demo_vault_registry ''gpt'' []) ?cw"
  have a: "fst ?r = Inr demo_manifest" "vc_addr (fst (snd ?r)) = ''http://v''"
    by (simp_all add: GetModelManifest_def demo_vault_registry_def vault_Signer_def vault_Verify_def ensureToken_def vault_login_def
        vault_exchange_def demo_vault_def vault_New_def demo_vault_eval)
  have s: "rg_signer demo_vault_registry = vault_Signer (demo_vault 900)" by (simp add: demo_vault_registry_def)
  have "?r = (Inr demo_manifest, snd ?r)" using a(1) by (metis prod.collapse)
  from vault_declares_served_manifests [OF s this, unfolded a(2)] obtain req :: http_request and input where
    "hq_url req = ''http://v'' @ ''/v1/transit/verify/'' @ SigningKeyName"
    "hq_body req = json_print (JsonObj [(''input'', JsonStr input), (''signature'', JsonStr (mf_Signature demo_manifest))])"
    "base64_decode input = Some (signedPayload (mf_VersionID demo_manifest) (mf_ModelRef demo_manifest) (mf_SpecJSON demo_manifest))" by blast
  then show ?thesis by (intro exI [of _ req] exI [of _ input]) (simp add: demo_manifest_def published_def del: json_print.simps)
qed

end
