(* ===== verification/Control_Server.thy ===== *)
theory Control_Server
  imports Analysis Vault
begin

text \<open>
  The gRPC surface of control-plane (\<^verbatim>\<open>services/control-plane/main.go\<close>): every handler calls one operation of the
  registry, of the rollout service or of the token service and translates its error to a gRPC status. The handlers are
  programs of \<open>Resumption\<close> like the operations they call. The generated message types are the records of their
  fields; the RFC 3339 rendering of a time is an argument.
\<close>

section \<open>Model\<close>

record 'w cp_server =
  sv_registry :: "'w registry_Service"
  sv_providerToken :: "'w providertoken_Service"
  sv_rollout :: "'w rollout_Service"
  sv_ping :: "'w \<Rightarrow> go_error option \<times> 'w"

record GetModelManifestResponse =
  gm_VersionId :: string
  gm_ModelRef :: string
  gm_SpecJson :: string
  gm_Signature :: string
  gm_CreatedBy :: string
  gm_CreatedAt :: string
  gm_Status :: string

record GetRolloutStatusResponse =
  gr_RolloutId :: string
  gr_ModelRef :: string
  gr_VersionId :: string
  gr_Stage :: string
  gr_Status :: string
  gr_CanaryPercent :: int
  gr_StartedAt :: string
  gr_EndedAt :: string

definition server_RegisterModelManifest :: "'w cp_server \<Rightarrow> string \<Rightarrow> string \<Rightarrow> string \<Rightarrow> ('w, string result) prog" where
  "server_RegisterModelManifest s modelRef specJson createdBy =
     bindE (RegisterModelManifest (sv_registry s) modelRef specJson createdBy)
       (\<lambda>err. Ret (Inl (StatusError Internal (error_text err))))
       (\<lambda>versionID. Ret (Inr versionID))"

definition server_GetModelManifest ::
  "(int \<Rightarrow> string) \<Rightarrow> 'w cp_server \<Rightarrow> string \<Rightarrow> string \<Rightarrow> ('w, GetModelManifestResponse result) prog" where
  "server_GetModelManifest rfc3339 s modelRef versionId =
     bindE (GetModelManifest (sv_registry s) modelRef versionId)
       (\<lambda>err. Ret (Inl
          (if errors_Is err registry_ErrNotFound then StatusError NotFound (error_text err)
           else if errors_Is err ErrInvalidSignature then StatusError FailedPrecondition (error_text err)
           else StatusError Internal (error_text err))))
       (\<lambda>m. Ret (Inr \<lparr>gm_VersionId = mf_VersionID m, gm_ModelRef = mf_ModelRef m, gm_SpecJson = mf_SpecJSON m,
          gm_Signature = mf_Signature m, gm_CreatedBy = mf_CreatedBy m, gm_CreatedAt = rfc3339 (mf_CreatedAt m),
          gm_Status = mf_Status m\<rparr>))"

definition server_ListModels :: "'w cp_server \<Rightarrow> ('w, (string \<times> string) list result) prog" where
  "server_ListModels s =
     bindE (ListModels (sv_registry s))
       (\<lambda>err. Ret (Inl (StatusError Internal (error_text err))))
       (\<lambda>entries. Ret (Inr (map (\<lambda>e. (en_ModelRef e, en_ActiveVersionID e)) entries)))"

definition server_IssueProviderToken :: "'w cp_server \<Rightarrow> string \<Rightarrow> string \<Rightarrow> ('w, (string \<times> int) result) prog" where
  "server_IssueProviderToken s provider scope =
     (if provider = [] then Ret (Inl (StatusError InvalidArgument ''provider is required''))
      else
        bindE (act (IssueToken (sv_providerToken s) provider scope))
          (\<lambda>err. Ret (Inl (StatusError Internal ''failed to issue provider token'')))
          (\<lambda>t. Ret (Inr t)))"

definition mapRolloutError :: "go_error \<Rightarrow> go_error" where
  "mapRolloutError err =
     (if errors_Is err rollout_ErrNotFound then StatusError NotFound (error_text err)
      else if errors_Is err ErrNotRunning \<or> errors_Is err ErrAlreadyRunning \<or> errors_Is err ErrAlreadyFullyPromoted
              \<or> errors_Is err ErrNoActiveVersion
      then StatusError FailedPrecondition (error_text err)
      else StatusError Internal (error_text err))"

definition server_CreateRollout :: "'w cp_server \<Rightarrow> string \<Rightarrow> string \<Rightarrow> string \<Rightarrow> ('w, string result) prog" where
  "server_CreateRollout s modelRef versionId strategyJson =
     bindE (CreateRollout (sv_rollout s) modelRef versionId strategyJson)
       (\<lambda>err. Ret (Inl (mapRolloutError err))) (\<lambda>rolloutID. Ret (Inr rolloutID))"

definition server_PromoteRollout :: "'w cp_server \<Rightarrow> string \<Rightarrow> ('w, string result) prog" where
  "server_PromoteRollout s rolloutId =
     bindE (PromoteRollout (sv_rollout s) rolloutId)
       (\<lambda>err. Ret (Inl (mapRolloutError err))) (\<lambda>newStage. Ret (Inr newStage))"

definition server_AbortRollout :: "'w cp_server \<Rightarrow> string \<Rightarrow> ('w, unit result) prog" where
  "server_AbortRollout s rolloutId =
     bindO (AbortRollout (sv_rollout s) rolloutId) (\<lambda>err. Ret (Inl (mapRolloutError err))) (Ret (Inr ()))"

definition rolloutToProto :: "(int \<Rightarrow> string) \<Rightarrow> Rollout \<Rightarrow> GetRolloutStatusResponse" where
  "rolloutToProto rfc3339 r =
     \<lparr>gr_RolloutId = ro_RolloutID r, gr_ModelRef = ro_ModelRef r, gr_VersionId = ro_VersionID r, gr_Stage = ro_Stage r,
      gr_Status = ro_Status r, gr_CanaryPercent = StagePercent (ro_Stage r), gr_StartedAt = rfc3339 (ro_StartedAt r),
      gr_EndedAt = (case ro_EndedAt r of None \<Rightarrow> [] | Some t \<Rightarrow> rfc3339 t)\<rparr>"

definition server_GetRolloutStatus ::
  "(int \<Rightarrow> string) \<Rightarrow> 'w cp_server \<Rightarrow> string \<Rightarrow> string \<Rightarrow> ('w, GetRolloutStatusResponse result) prog" where
  "server_GetRolloutStatus rfc3339 s rolloutId modelRef =
     bindE (GetRolloutStatus (sv_rollout s) rolloutId modelRef)
       (\<lambda>err. Ret (Inl (if errors_Is err rollout_ErrNotFound then StatusError NotFound (error_text err)
                        else StatusError Internal (error_text err))))
       (\<lambda>r. Ret (Inr (rolloutToProto rfc3339 r)))"

definition server_ListRollouts ::
  "(int \<Rightarrow> string) \<Rightarrow> 'w cp_server \<Rightarrow> string \<Rightarrow> int \<Rightarrow> ('w, GetRolloutStatusResponse list result) prog" where
  "server_ListRollouts rfc3339 s modelRef limit =
     bindE (rollout_ListRollouts (sv_rollout s) modelRef limit)
       (\<lambda>err. Ret (Inl (StatusError Internal (error_text err))))
       (\<lambda>rs. Ret (Inr (map (rolloutToProto rfc3339) rs)))"

text \<open>The probes: status code and body.\<close>

definition cp_healthz :: "int \<times> string" where
  "cp_healthz = (200, ''ok'')"

definition cp_readyz :: "'w cp_server \<Rightarrow> ('w, int \<times> string) prog" where
  "cp_readyz s = bindO (act (sv_ping s)) (\<lambda>err. Ret (503, ''not ready'')) (Ret (200, ''ready''))"

section \<open>Facts\<close>

lemma rollout_sentinels_distinct:
  "errors_Is ErrNotRunning rollout_ErrNotFound = False" "errors_Is ErrAlreadyFullyPromoted rollout_ErrNotFound = False"
  "errors_Is ErrAlreadyFullyPromoted ErrNotRunning = False" "errors_Is ErrConcurrentUpdate rollout_ErrNotFound = False"
  "errors_Is ErrConcurrentUpdate ErrNotRunning = False" "errors_Is ErrConcurrentUpdate ErrAlreadyRunning = False"
  "errors_Is ErrConcurrentUpdate ErrAlreadyFullyPromoted = False" "errors_Is ErrConcurrentUpdate ErrNoActiveVersion = False"
  by (simp_all add: ErrNotRunning_def rollout_ErrNotFound_def ErrAlreadyFullyPromoted_def ErrConcurrentUpdate_def
      ErrAlreadyRunning_def ErrNoActiveVersion_def)

lemma mapRolloutError_eval:
  "mapRolloutError rollout_ErrNotFound = StatusError NotFound ''rollout not found''"
  "mapRolloutError ErrNotRunning = StatusError FailedPrecondition ''rollout is not running''"
  "mapRolloutError ErrAlreadyFullyPromoted = StatusError FailedPrecondition ''rollout is already fully promoted''"
  "mapRolloutError ErrConcurrentUpdate = StatusError Internal ''rollout changed concurrently; write refused''"
  by (simp_all add: mapRolloutError_def rollout_sentinels_distinct)
    (simp_all add: rollout_ErrNotFound_def ErrNotRunning_def ErrAlreadyFullyPromoted_def ErrConcurrentUpdate_def)

lemma ReadProviderSecret_Inr:
  assumes "ReadProviderSecret env provider cw = (Inr key, cw')"
  shows "key \<noteq> [] \<and> (\<exists>req w1 w2 body resp. ve_Do env req w1 = (Inr (200, Inr body), w2) \<and> hq_method req = ''GET'' \<and>
    hq_url req = vc_addr (fst cw') @ ''/v1/secret/data/provider/'' @ provider \<and>
    vault_UnmarshalKV env body = Inr resp \<and> kv_api_key resp = Some key)"
proof -
  obtain token c w where t: "ensureToken env cw = (Inr token, c, w)"
    using assms by (cases "ensureToken env cw") (auto simp: ReadProviderSecret_def split: sum.splits)
  let ?req = "\<lparr>hq_method = ''GET'', hq_url = vc_addr c @ ''/v1/secret/data/provider/'' @ provider,
      hq_headers = [(''X-Vault-Token'', token)], hq_body = []\<rparr>"
  let ?ex = "vault_exchange env ''building secret read request: '' ''calling secret read: '' ''reading secret read response: '' ?req w"
  obtain status body w1 where x: "?ex = (Inr (status, body), w1)"
    using assms t by (auto simp: ReadProviderSecret_def split: sum.splits prod.splits)
  obtain resp where r: "status = 200" "vault_UnmarshalKV env body = Inr resp" "kv_api_key resp = Some key" "key \<noteq> []" "fst cw' = c"
    using assms t x by (auto simp: ReadProviderSecret_def split: if_splits sum.splits option.splits)
  from x have "ve_Do env ?req w = (Inr (status, Inr body), w1)" by (simp add: vault_exchange_Inr)
  with r show ?thesis by (intro conjI exI [of _ ?req] exI [of _ w] exI [of _ w1] exI [of _ body] exI [of _ resp]) simp_all
qed

section \<open>Properties\<close>

text \<open>
  What an operator sees of \<^verbatim>\<open>PromoteRollout\<close>, on every branch and without faults: \<^verbatim>\<open>NotFound\<close> for an unknown
  rollout and \<^verbatim>\<open>FailedPrecondition\<close> for one that is over or already at the last stage, both without any change of the
  rollouts, of the active pointers or of etcd; and otherwise the name of the next stage, at which the row then is.
\<close>

theorem control_promote_outcomes:
  fixes w :: "'z rollout_tables_scheme"
  assumes "calm w" "sv_rollout s = cp_rollout hmac_b64 mj aj valid rfc"
    and "\<forall>x. rollout_rows w i = Some x \<longrightarrow> reg_manifests w (ro_VersionID x) \<noteq> None"
  shows "case rollout_rows w i of
      None \<Rightarrow> run (server_PromoteRollout s i) w = (Inl (StatusError NotFound ''rollout not found''), w)
    | Some x \<Rightarrow>
        if ro_Status x \<noteq> ''running''
        then run (server_PromoteRollout s i) w = (Inl (StatusError FailedPrecondition ''rollout is not running''), w)
        else (case nextStage (ro_Stage x) of
            None \<Rightarrow> run (server_PromoteRollout s i) w =
              (Inl (StatusError FailedPrecondition ''rollout is already fully promoted''), w)
          | Some nx \<Rightarrow> \<exists>w' y. run (server_PromoteRollout s i) w = (Inr nx, w') \<and> rollout_rows w' i = Some y \<and> ro_Stage y = nx)"
proof -
  have g: "Cockroach_GetRollout i w = (Inr (rollout_rows w i), w)"
    using assms(1) by (simp add: Cockroach_GetRollout_def calm_db calm_def rollout_rows_def)
  note eval = server_PromoteRollout_def PromoteRollout_def advanceStage_def assms(2) cp_rollout_def rollout_CockroachStore_def
    mapRolloutError_eval
  show ?thesis
  proof (cases "rollout_rows w i")
    case None
    with g show ?thesis by (simp add: eval)
  next
    case (Some x)
    show ?thesis
    proof (cases "ro_Status x = ''running'' \<and> nextStage (ro_Stage x) \<noteq> None")
      case True
      then obtain nx where nx: "nextStage (ro_Stage x) = Some nx" by blast
      obtain w' where w': "run (PromoteRollout (cp_rollout hmac_b64 mj aj valid rfc) i) w = (Inr nx, w')"
        using calm_promote [OF assms(1) Some _ nx] True assms(3) Some by blast
      have "\<exists>y. rollout_rows w' i = Some y \<and> ro_Stage y = nx"
        using run_advanceStage [OF w' [unfolded PromoteRollout_def]] by (auto simp: moved_def split: if_splits)
      with w' Some True nx show ?thesis by (simp add: server_PromoteRollout_def assms(2))
    next
      case False
      with g Some show ?thesis by (auto simp: eval split: option.splits)
    qed
  qed
qed

definition demo_server :: "rollout_tables cp_server" where
  "demo_server = \<lparr>sv_registry = cp_registry (\<lambda>k p. k @ p) (\<lambda>e. me_VersionID e) (\<lambda>e. ae_Stable e) (\<lambda>j. j \<noteq> []) (\<lambda>t. []),
     sv_providerToken = \<lparr>pt_reader = FakeSecretReader [''openai'' \<mapsto> ''sk''], pt_ttl = 300 * nsPerSecond\<rparr>,
     sv_rollout = demo_cp, sv_ping = (\<lambda>w. (None, w))\<rparr>"

theorem control_promote_outcomes_witness:
  "\<exists>w' y. run (server_PromoteRollout demo_server ''r1'') (demo_tables ''canary_10'') = (Inr ''canary_50'', w') \<and>
     rollout_rows w' ''r1'' = Some y \<and> ro_Stage y = ''canary_50''"
proof -
  let ?w = "demo_tables ''canary_10''"
  have c: "calm ?w" by (simp add: calm_def demo_tables_def)
  have m: "\<forall>x. rollout_rows ?w ''r1'' = Some x \<longrightarrow> reg_manifests ?w (ro_VersionID x) \<noteq> None"
    by (simp add: demo_rows) (simp add: demo_row_def reg_manifests_def demo_tables_def find_manifest_def published_def)
  have r: "rollout_rows ?w ''r1'' = Some (demo_row ''canary_10'')" by (simp add: demo_rows)
  have s: "sv_rollout demo_server = cp_rollout (\<lambda>k p. k @ p) (\<lambda>e. me_VersionID e)
      (\<lambda>e. ae_Stable e @ ''/'' @ ae_Canary e @ ''/'' @ show_int (ae_CanaryPercent e)) (\<lambda>j. j \<noteq> []) (\<lambda>t. [])"
    by (simp add: demo_server_def demo_cp_def)
  have x: "ro_Status (demo_row ''canary_10'') = ''running''" "nextStage (ro_Stage (demo_row ''canary_10'')) = Some ''canary_50''"
    by (simp_all add: demo_row_def nextStage_eq)
  from control_promote_outcomes [OF c s m] r x show ?thesis by simp
qed

text \<open>
  \<^verbatim>\<open>IssueProviderToken\<close> with Vault behind it: the token it returns is the non-empty key that Vault's answer with status
  200 holds for exactly the provider that was asked for, with the configured time to live; every failure is one of two
  fixed texts, so that nothing of Vault's errors or of the secret reaches the caller.
\<close>

theorem control_issue_token:
  assumes "pt_reader (sv_providerToken s) = ReadProviderSecret env"
    and "run (server_IssueProviderToken s provider scope) cw = (r, cw')"
  shows "case r of
      Inl err \<Rightarrow> err = StatusError InvalidArgument ''provider is required'' \<or> err = StatusError Internal ''failed to issue provider token''
    | Inr (token, ttl) \<Rightarrow> provider \<noteq> [] \<and> token \<noteq> [] \<and> ttl = wholeSeconds (pt_ttl (sv_providerToken s)) \<and>
        (\<exists>req w1 w2 body resp. ve_Do env req w1 = (Inr (200, Inr body), w2) \<and> hq_method req = ''GET'' \<and>
           hq_url req = vc_addr (fst cw') @ ''/v1/secret/data/provider/'' @ provider \<and>
           vault_UnmarshalKV env body = Inr resp \<and> kv_api_key resp = Some token)"
proof (cases "provider = []")
  case True
  with assms(2) show ?thesis by (auto simp: server_IssueProviderToken_def)
next
  case False
  obtain k cw1 where read: "ReadProviderSecret env provider cw = (k, cw1)" by (metis surj_pair)
  show ?thesis
  proof (cases k)
    case (Inl e)
    with read False assms show ?thesis by (auto simp: server_IssueProviderToken_def IssueToken_def)
  next
    case (Inr key)
    from read Inr False assms have r: "r = Inr (key, wholeSeconds (pt_ttl (sv_providerToken s)))" "cw' = cw1"
      by (auto simp: server_IssueProviderToken_def IssueToken_def)
    from ReadProviderSecret_Inr [OF read [unfolded Inr]] r False show ?thesis by simp
  qed
qed

definition demo_vault_server :: "(vault_Client \<times> int) cp_server" where
  "demo_vault_server = \<lparr>sv_registry = demo_vault_registry,
     sv_providerToken = \<lparr>pt_reader = ReadProviderSecret (demo_vault 900), pt_ttl = 300 * nsPerSecond\<rparr>,
     sv_rollout = \<lparr>rl_store = \<lparr>rt_InsertRollout = (\<lambda>_ w. (None, w)), rt_GetRollout = (\<lambda>_ w. (Inr None, w)),
         rt_GetRunningRolloutByModelRef = (\<lambda>_ w. (Inr None, w)), rt_GetMostRecentRolloutByModelRef = (\<lambda>_ w. (Inr None, w)),
         rt_ListRunningRollouts = (\<lambda>w. (Inr [], w)), rt_ListRollouts = (\<lambda>_ _ w. (Inr [], w)),
         rt_UpdateRollout = (\<lambda>_ _ _ _ _ w. (Some ErrConcurrentUpdate, w))\<rparr>,
       rl_PublishCanaryState = (\<lambda>_ _ _ _ w. (None, w)), rl_GetModelManifest = GetModelManifest demo_vault_registry,
       rl_ActivateVersion = ActivateVersion demo_vault_registry, rl_json_Valid = (\<lambda>_. True), rl_NewUUID = (\<lambda>w. (''u'', w)),
       rl_Now = (\<lambda>w. (0, w))\<rparr>,
     sv_ping = (\<lambda>w. (None, w))\<rparr>"

theorem control_issue_token_witness:
  "\<exists>req :: http_request. hq_url req = ''http://v'' @ ''/v1/secret/data/provider/'' @ ''openai''"
proof -
  let ?cw = "(vault_New ''http://v'' ''cp'', 0)"
  let ?r = "run (server_IssueProviderToken demo_vault_server ''openai'' ''invoke'') ?cw"
  have a: "fst ?r = Inr (''sk'', wholeSeconds (300 * nsPerSecond))" "vc_addr (fst (snd ?r)) = ''http://v''"
    by (simp_all add: server_IssueProviderToken_def demo_vault_server_def IssueToken_def ReadProviderSecret_def ensureToken_def
        vault_login_def vault_exchange_def demo_vault_def vault_New_def demo_vault_eval)
  have s: "pt_reader (sv_providerToken demo_vault_server) = ReadProviderSecret (demo_vault 900)" by (simp add: demo_vault_server_def)
  have "?r = (Inr (''sk'', wholeSeconds (300 * nsPerSecond)), snd ?r)" using a(1) by (metis prod.collapse)
  from control_issue_token [OF s this, unfolded a(2)] show ?thesis by auto
qed

end
