(* ===== verification/Admin_Auth.thy ===== *)
theory Admin_Auth
  imports Control_Server Json_Codec "HOL-Library.Multiset"
begin

text \<open>
  The gate in front of admin-api's commands: authentication, authorization and the audit log
  (\<^verbatim>\<open>services/admin-api/internal/authn\<close>, \<^verbatim>\<open>internal/authz\<close>, \<^verbatim>\<open>internal/audit\<close>). The two interceptors are programs of
  \<open>Resumption\<close> around an arbitrary handler, so that requests of several callers interleave at every call to the database.

  SHA-256 with its hexadecimal rendering, the normal form of a JSONB column and the RFC 3339 rendering
  of a time are arguments. So is \<^verbatim>\<open>json.Marshal\<close> of an entry in the theorems on the log, which hold for any; \<open>audit_marshal\<close> is the one the
  service has. The columns of type UUID are texts; a text that is no UUID never equals a stored one.
\<close>

section \<open>Model\<close>

subsection \<open>Errors, identities and the context\<close>

definition ErrMissingCredential :: go_error where "ErrMissingCredential = Sentinel ''authn'' ''missing admin credential''"
definition ErrInvalidCredential :: go_error where "ErrInvalidCredential = Sentinel ''authn'' ''invalid admin credential''"
definition ErrRevoked :: go_error where "ErrRevoked = Sentinel ''authn'' ''admin credential revoked''"

record Identity =
  id_UserID :: string
  id_OrgID :: string
  id_Role :: string

record Row =
  row_UserID :: string
  row_OrgID :: string
  row_Role :: string
  row_RevokedAt :: "int option"

text \<open>The parts of a request's context that the service reads: the gRPC metadata and the identity attached to it.\<close>

record rpc_ctx =
  ctx_metadata :: "(string \<Rightarrow> string list) option"
  ctx_identity :: "Identity option"

definition WithIdentity :: "rpc_ctx \<Rightarrow> Identity \<Rightarrow> rpc_ctx" where
  "WithIdentity ctx i = ctx\<lparr>ctx_identity := Some i\<rparr>"

definition IdentityFromContext :: "rpc_ctx \<Rightarrow> Identity option" where
  "IdentityFromContext ctx = ctx_identity ctx"

subsection \<open>Authentication\<close>

type_synonym 'w authn_Store = "string \<Rightarrow> 'w \<Rightarrow> Row option result \<times> 'w"

definition HashToken :: "(string \<Rightarrow> string) \<Rightarrow> string \<Rightarrow> string" where
  "HashToken sha256_hex raw = sha256_hex raw"

definition Authenticate :: "(string \<Rightarrow> string) \<Rightarrow> 'w authn_Store \<Rightarrow> string \<Rightarrow> 'w \<Rightarrow> Identity result \<times> 'w" where
  "Authenticate sha256_hex LookupByHash rawToken w =
     (if rawToken = [] then (Inl ErrMissingCredential, w)
      else
        (case LookupByHash (HashToken sha256_hex rawToken) w of
           (Inl err, w1) \<Rightarrow> (Inl err, w1)
         | (Inr None, w1) \<Rightarrow> (Inl ErrInvalidCredential, w1)
         | (Inr (Some row), w1) \<Rightarrow>
             (case row_RevokedAt row of
                Some _ \<Rightarrow> (Inl ErrRevoked, w1)
              | None \<Rightarrow> (Inr \<lparr>id_UserID = row_UserID row, id_OrgID = row_OrgID row, id_Role = row_Role row\<rparr>, w1))))"

definition bearerTokenFromHeader :: "string \<Rightarrow> string" where
  "bearerTokenFromHeader v =
     (let prefix = ''bearer ''
      in if length v > length prefix \<and> strings_EqualFold (take (length prefix) v) prefix then drop (length prefix) v else [])"

definition metadataKey :: string where "metadataKey = ''authorization''"

definition bearerToken :: "rpc_ctx \<Rightarrow> string" where
  "bearerToken ctx =
     (case ctx_metadata ctx of
        None \<Rightarrow> []
      | Some md \<Rightarrow>
          (case md metadataKey of
             [] \<Rightarrow> []
           | v # _ \<Rightarrow>
               (let prefix = ''bearer ''
                in if length v > length prefix \<and> strings_EqualFold (take (length prefix) v) prefix
                   then drop (length prefix) v else [])))"

type_synonym ('w, 'q, 'r) handler = "rpc_ctx \<Rightarrow> 'q \<Rightarrow> ('w, 'r result call) prog"

definition authn_UnaryInterceptor ::
  "(string \<Rightarrow> string) \<Rightarrow> 'w authn_Store \<Rightarrow> ('w, 'q, 'r) handler \<Rightarrow> ('w, 'q, 'r) handler" where
  "authn_UnaryInterceptor sha256_hex store handler ctx req =
     bindE (act (Authenticate sha256_hex store (bearerToken ctx)))
       (\<lambda>err. Ret (Returned (Inl (StatusError Unauthenticated ''invalid or missing admin credential''))))
       (\<lambda>i. handler (WithIdentity ctx i) req)"

text \<open>What is logged of a refusal: its level and its reason. \<open>Some\<close> stands for the error that is logged with it.\<close>

datatype slog_level = LogWarn | LogError

definition logAuthFailure :: "go_error \<Rightarrow> slog_level \<times> string \<times> go_error option" where
  "logAuthFailure err =
     (if errors_Is err ErrMissingCredential then (LogWarn, ''missing_credential'', None)
      else if errors_Is err ErrRevoked then (LogWarn, ''revoked'', None)
      else if errors_Is err ErrInvalidCredential then (LogWarn, ''invalid_credential'', None)
      else (LogError, ''store_error'', Some err))"

text \<open>An HTTP response is its status and its body. The body is the one text that the encoder gives for the constant map.\<close>

definition writeUnauthorized :: "int \<times> string" where
  "writeUnauthorized = (401, ''{'' @ quoted ''errors'' @ '':[{'' @ quoted ''message'' @ '':''
     @ quoted ''invalid or missing admin credential'' @ ''}]}'' @ [newline])"

definition HTTPMiddleware ::
  "(string \<Rightarrow> string) \<Rightarrow> 'w authn_Store \<Rightarrow> (rpc_ctx \<Rightarrow> 'q \<Rightarrow> ('w, int \<times> string) prog) \<Rightarrow> string \<Rightarrow> rpc_ctx \<Rightarrow> 'q \<Rightarrow> ('w, int \<times> string) prog" where
  "HTTPMiddleware sha256_hex store nx authorization ctx req =
     bindE (act (Authenticate sha256_hex store (bearerTokenFromHeader authorization)))
       (\<lambda>err. Ret writeUnauthorized)
       (\<lambda>i. nx (WithIdentity ctx i) req)"

subsection \<open>Authorization\<close>

definition roleViewer :: string where "roleViewer = ''viewer''"
definition roleAdmin :: string where "roleAdmin = ''admin''"

definition methodPublishModelVersion :: string where "methodPublishModelVersion = ''/admin.v1.AdminService/PublishModelVersion''"
definition methodStartRollout :: string where "methodStartRollout = ''/admin.v1.AdminService/StartRollout''"
definition methodPromoteRollout :: string where "methodPromoteRollout = ''/admin.v1.AdminService/PromoteRollout''"
definition methodAbortRollout :: string where "methodAbortRollout = ''/admin.v1.AdminService/AbortRollout''"
definition methodCreateApiKey :: string where "methodCreateApiKey = ''/admin.v1.AdminService/CreateApiKey''"
definition methodRevokeApiKey :: string where "methodRevokeApiKey = ''/admin.v1.AdminService/RevokeApiKey''"

definition allowedRPCs :: "string \<rightharpoonup> (string \<rightharpoonup> bool)" where
  "allowedRPCs =
     [roleAdmin \<mapsto>
        [methodPublishModelVersion \<mapsto> True, methodStartRollout \<mapsto> True, methodPromoteRollout \<mapsto> True,
         methodAbortRollout \<mapsto> True, methodCreateApiKey \<mapsto> True, methodRevokeApiKey \<mapsto> True],
      roleViewer \<mapsto> Map.empty]"

text \<open>A map read in Go gives the zero value for a missing key, and a read of a nil map gives it for every key.\<close>

definition Allowed :: "string \<Rightarrow> string \<Rightarrow> bool" where
  "Allowed role fullMethod =
     (case allowedRPCs role of
        None \<Rightarrow> False
      | Some methods \<Rightarrow> (case methods fullMethod of None \<Rightarrow> False | Some b \<Rightarrow> b))"

subsection \<open>The audit log\<close>

text \<open>The Go values that the service puts into an entry: \<^verbatim>\<open>map[string]string\<close> and, for the scopes, a slice.\<close>

datatype audit_value = JString string | JStrings "string list" | JMap "(string \<times> audit_value) list"

record audit_Entry =
  ent_Actor :: string
  ent_Action :: string
  ent_Target :: string
  ent_Before :: "audit_value option"
  ent_After :: "audit_value option"

type_synonym 'w audit_Writer = "audit_Entry \<Rightarrow> 'w \<Rightarrow> go_error option \<times> 'w"

definition authz_UnaryInterceptor ::
  "'w audit_Writer \<Rightarrow> string \<Rightarrow> ('w, 'q, 'r) handler \<Rightarrow> ('w, 'q, 'r) handler" where
  "authz_UnaryInterceptor Write fullMethod handler ctx req =
     (case IdentityFromContext ctx of
        None \<Rightarrow> Ret (Returned (Inl (StatusError PermissionDenied ''no verified identity'')))
      | Some i \<Rightarrow>
          if \<not> Allowed (id_Role i) fullMethod
          then bindP (act (Write \<lparr>ent_Actor = id_UserID i, ent_Action = fullMethod @ ''_denied'', ent_Target = fullMethod,
                                  ent_Before = None, ent_After = None\<rparr>))
                 (\<lambda>_. Ret (Returned (Inl (StatusError PermissionDenied ''insufficient privileges for this action''))))
          else handler ctx req)"

subsection \<open>The tables of admin-api\<close>

text \<open>
  The tables live in the database of control-plane, next to its own; \<open>rpc_faults\<close> is what will happen to the calls from
  admin-api to control-plane, \<open>rand_reads\<close> what the next reads of the random source give.
\<close>

record admin_user_row =
  au_user_id :: string
  au_org_id :: string
  au_role :: string
  au_credential_hash :: string
  au_revoked_at :: "int option"

record audit_row =
  al_audit_id :: string
  al_actor :: string
  al_action :: string
  al_target :: string
  al_before_json :: "string option"
  al_after_json :: "string option"
  al_ts :: int

record api_key_row =
  ak_key_id :: string
  ak_org_id :: string
  ak_hash :: string
  ak_scopes :: "string list"
  ak_created_at :: int
  ak_revoked_at :: "int option"

record admin_tables = rollout_tables +
  adm_users :: "admin_user_row list"
  adm_tenants :: "string list"
  adm_audit :: "audit_row list"
  adm_keys :: "api_key_row list"
  rpc_faults :: "fault list"
  rand_reads :: "nat list result list"

definition Cockroach_LookupByHash :: "string \<Rightarrow> 'z admin_tables_scheme \<Rightarrow> Row option result \<times> 'z admin_tables_scheme" where
  "Cockroach_LookupByHash hash =
     remote Inl db_next (\<lambda>w.
       (Inr (map_option (\<lambda>u. \<lparr>row_UserID = au_user_id u, row_OrgID = au_org_id u, row_Role = au_role u,
               row_RevokedAt = au_revoked_at u\<rparr>)
             (find (\<lambda>u. au_credential_hash u = hash) (adm_users w))), w))"

text \<open>A nil value is the SQL NULL.\<close>

definition marshalNullable :: "(audit_value \<Rightarrow> string result) \<Rightarrow> audit_value option \<Rightarrow> string option result" where
  "marshalNullable marshal v =
     (case v of
        None \<Rightarrow> Inr None
      | Some x \<Rightarrow> (case marshal x of Inl err \<Rightarrow> Inl err | Inr b \<Rightarrow> Inr (Some b)))"

text \<open>
  \<^verbatim>\<open>json.Marshal\<close> of the values the audit table builds. The members of a map are written in the order of their keys, whatever order the map
  has, and a nil slice is null. It never fails on them.
\<close>

fun audit_json :: "audit_value \<Rightarrow> json" where
  "audit_json (JString s) = JsonStr s"
| "audit_json (JStrings xs) = nil_slice JsonStr xs"
| "audit_json (JMap ms) = JsonObj (sort_key fst (map (\<lambda>(k, v). (k, audit_json v)) ms))"

definition audit_marshal :: "audit_value \<Rightarrow> string result" where
  "audit_marshal v = json_Marshal True (audit_json v)"

lemma audit_json_order:
  assumes "mset ms = mset ms'" "distinct (map fst ms)"
  shows "audit_json (JMap ms) = audit_json (JMap ms')"
proof -
  let ?f = "\<lambda>(k, v). (k, audit_json v)"
  have k: "map (fst \<circ> ?f) ms = map fst ms" by (induction ms) auto
  have "distinct (map fst (map ?f ms))" using assms(2) unfolding map_map k .
  then have "inj_on fst (set (map ?f ms))" by (simp only: distinct_map)
  moreover have "mset (map ?f ms) = mset (sort_key fst (map ?f ms'))" using assms(1) by (simp add: mset_map)
  ultimately show ?thesis by (simp add: sort_key_inj_key_eq)
qed

text \<open>The columns \<^verbatim>\<open>before_json\<close> and \<^verbatim>\<open>after_json\<close> are JSONB and \<^verbatim>\<open>actor\<close> refers to an admin user; the id and the time are defaults.\<close>

definition insert_audit ::
  "(string \<Rightarrow> string) \<Rightarrow> string \<Rightarrow> string \<Rightarrow> string \<Rightarrow> string option \<Rightarrow> string option \<Rightarrow> 'z admin_tables_scheme
     \<Rightarrow> go_error option \<times> 'z admin_tables_scheme" where
  "insert_audit jsonb actor action target before after =
     remote Some db_next (\<lambda>w.
       if actor \<notin> au_user_id ` set (adm_users w) then (Some ErrForeignKey, w)
       else (case draw_uuid w of (u, w1) \<Rightarrow>
         if u \<in> al_audit_id ` set (adm_audit w1) then (Some ErrUniqueViolation, w1)
         else (None, w1\<lparr>adm_audit := adm_audit w1 @ [\<lparr>al_audit_id = u, al_actor = actor, al_action = action, al_target = target,
                  al_before_json = map_option jsonb before, al_after_json = map_option jsonb after, al_ts = env_now w1\<rparr>]\<rparr>)))"

definition CockroachWriter_Write ::
  "(audit_value \<Rightarrow> string result) \<Rightarrow> (string \<Rightarrow> string) \<Rightarrow> audit_Entry \<Rightarrow> 'z admin_tables_scheme
     \<Rightarrow> go_error option \<times> 'z admin_tables_scheme" where
  "CockroachWriter_Write marshal jsonb e w =
     (case marshalNullable marshal (ent_Before e) of
        Inl err \<Rightarrow> (Some err, w)
      | Inr beforeJSON \<Rightarrow>
          (case marshalNullable marshal (ent_After e) of
             Inl err \<Rightarrow> (Some err, w)
           | Inr afterJSON \<Rightarrow> insert_audit jsonb (ent_Actor e) (ent_Action e) (ent_Target e) beforeJSON afterJSON w))"

record audit_Record =
  rec_AuditID :: string
  rec_Actor :: string
  rec_Action :: string
  rec_Target :: string
  rec_BeforeJSON :: "string option"
  rec_AfterJSON :: "string option"
  rec_TS :: string

definition DefaultAuditListLimit :: int where "DefaultAuditListLimit = 50"
definition maxAuditListLimit :: int where "maxAuditListLimit = 500"

definition audit_limit :: "int \<Rightarrow> int" where
  "audit_limit limit =
     (let l = (if limit \<le> 0 then DefaultAuditListLimit else limit)
      in if l > maxAuditListLimit then maxAuditListLimit else l)"

definition CockroachReader_List ::
  "(int \<Rightarrow> string) \<Rightarrow> int \<Rightarrow> string \<Rightarrow> string \<Rightarrow> 'z admin_tables_scheme \<Rightarrow> audit_Record list result \<times> 'z admin_tables_scheme" where
  "CockroachReader_List rfc3339 limit actor action =
     remote Inl db_next (\<lambda>w.
       (Inr (map (\<lambda>r. \<lparr>rec_AuditID = al_audit_id r, rec_Actor = al_actor r, rec_Action = al_action r, rec_Target = al_target r,
               rec_BeforeJSON = al_before_json r, rec_AfterJSON = al_after_json r, rec_TS = rfc3339 (al_ts r)\<rparr>)
          (take (nat (audit_limit limit))
            (sort_key (\<lambda>r. - al_ts r)
              (filter (\<lambda>r. (actor = [] \<or> al_actor r = actor) \<and> (action = [] \<or> al_action r = action)) (adm_audit w))))), w))"

subsection \<open>The test doubles\<close>

record authn_FakeStore =
  fa_rows :: "string \<rightharpoonup> Row"
  fa_Err :: "go_error option"

definition authn_Fake_Seed :: "string \<Rightarrow> Row \<Rightarrow> authn_FakeStore \<Rightarrow> authn_FakeStore" where
  "authn_Fake_Seed hash row f = f\<lparr>fa_rows := (fa_rows f)(hash \<mapsto> row)\<rparr>"

definition authn_Fake_LookupByHash :: "string \<Rightarrow> authn_FakeStore \<Rightarrow> Row option result \<times> authn_FakeStore" where
  "authn_Fake_LookupByHash hash f = (case fa_Err f of Some err \<Rightarrow> (Inl err, f) | None \<Rightarrow> (Inr (fa_rows f hash), f))"

record FakeWriter =
  fw_Entries :: "audit_Entry list"
  fw_Err :: "go_error option"

definition FakeWriter_Write :: "audit_Entry \<Rightarrow> FakeWriter \<Rightarrow> go_error option \<times> FakeWriter" where
  "FakeWriter_Write e f = (case fw_Err f of Some err \<Rightarrow> (Some err, f) | None \<Rightarrow> (None, f\<lparr>fw_Entries := fw_Entries f @ [e]\<rparr>))"

record FakeReader =
  fr_Records :: "audit_Record list"
  fr_Err :: "go_error option"
  fr_Last :: "int \<times> string \<times> string"

definition FakeReader_List :: "int \<Rightarrow> string \<Rightarrow> string \<Rightarrow> FakeReader \<Rightarrow> audit_Record list result \<times> FakeReader" where
  "FakeReader_List limit actor action f =
     (case fr_Err f of
        Some err \<Rightarrow> (Inl err, f\<lparr>fr_Last := (limit, actor, action)\<rparr>)
      | None \<Rightarrow> (Inr (fr_Records f), f\<lparr>fr_Last := (limit, actor, action)\<rparr>))"

section \<open>Facts\<close>

subsection \<open>What a credential store promises\<close>

locale credential_store =
  fixes lookup :: "'w authn_Store" and creds :: "'w \<Rightarrow> string \<rightharpoonup> Row"
  assumes lookup_law: "lookup h w = (r, w') \<Longrightarrow> creds w' = creds w \<and> (\<forall>x. r = Inr x \<longrightarrow> x = creds w h)"
begin

lemma Authenticate_keeps: "keeps creds (Authenticate sha lookup tok)"
  unfolding keeps_def
proof
  fix w
  obtain r w' where "lookup (sha tok) w = (r, w')" by fastforce
  then show "creds (snd (Authenticate sha lookup tok w)) = creds w"
    using lookup_law [of "sha tok" w r w']
    by (auto simp: Authenticate_def HashToken_def split: sum.splits option.splits)
qed

text \<open>Success is exactly the identity of an unrevoked row for the hash of the token.\<close>

lemma Authenticate_Inr:
  assumes "Authenticate sha lookup tok w = (Inr i, w')"
  shows "tok \<noteq> [] \<and> (\<exists>row. creds w (sha tok) = Some row \<and> row_RevokedAt row = None \<and>
    i = \<lparr>id_UserID = row_UserID row, id_OrgID = row_OrgID row, id_Role = row_Role row\<rparr>)"
proof -
  obtain r w1 where l: "lookup (sha tok) w = (r, w1)" by fastforce
  from lookup_law [OF l] have x: "r = Inr x \<Longrightarrow> creds w (sha tok) = x" for x by simp
  from assms l show ?thesis
    by (auto simp: Authenticate_def HashToken_def split: if_splits sum.splits option.splits dest: x)
qed

text \<open>What is logged of a refusal names its true reason and depends on the token only through the row of its hash.\<close>

lemma Authenticate_logged:
  assumes "Authenticate sha lookup tok w = (Inl err, w')" "lookup (sha tok) w = (Inr x, w1)"
  shows "logAuthFailure err =
    (LogWarn, if tok = [] then ''missing_credential'' else if creds w (sha tok) = None then ''invalid_credential'' else ''revoked'', None)"
proof -
  have "x = creds w (sha tok)" using lookup_law [OF assms(2)] by simp
  with assms show ?thesis
    by (auto simp: Authenticate_def HashToken_def logAuthFailure_def ErrMissingCredential_def ErrRevoked_def ErrInvalidCredential_def
      split: if_splits option.splits)
qed

text \<open>The converse, when the store answers.\<close>

lemma Authenticate_accepts:
  assumes "tok \<noteq> []" "creds w (sha tok) = Some row" "row_RevokedAt row = None" "lookup (sha tok) w = (Inr x, w')"
  shows "Authenticate sha lookup tok w = (Inr \<lparr>id_UserID = row_UserID row, id_OrgID = row_OrgID row, id_Role = row_Role row\<rparr>, w')"
proof -
  have "x = Some row" using assms(2) lookup_law [OF assms(4)] by simp
  with assms show ?thesis by (simp add: Authenticate_def HashToken_def)
qed

end

definition credential :: "'z admin_tables_scheme \<Rightarrow> string \<rightharpoonup> Row" where
  "credential w h =
     map_option (\<lambda>u. \<lparr>row_UserID = au_user_id u, row_OrgID = au_org_id u, row_Role = au_role u, row_RevokedAt = au_revoked_at u\<rparr>)
       (find (\<lambda>u. au_credential_hash u = h) (adm_users w))"

lemma db_next_admin:
  "db_next w = (f, w') \<Longrightarrow> adm_users w' = adm_users w \<and> adm_tenants w' = adm_tenants w \<and> adm_audit w' = adm_audit w \<and>
     adm_keys w' = adm_keys w \<and> rpc_faults w' = rpc_faults w \<and> rand_reads w' = rand_reads w \<and> env_uuids w' = env_uuids w \<and> env_now w' = env_now w"
  by (auto simp: db_next_def split: list.splits)

interpretation cockroach_creds: credential_store Cockroach_LookupByHash credential
proof unfold_locales
  fix h and w :: "'z admin_tables_scheme" and r w'
  assume a: "Cockroach_LookupByHash h w = (r, w')"
  obtain f u where n: "db_next w = (f, u)" by fastforce
  from db_next_admin [OF n] have "adm_users u = adm_users w" by simp
  with a n show "credential w' = credential w \<and> (\<forall>x. r = Inr x \<longrightarrow> x = credential w h)"
    by (cases f) (auto simp: Cockroach_LookupByHash_def remote_def credential_def)
qed

interpretation fake_creds: credential_store authn_Fake_LookupByHash fa_rows
  by unfold_locales (auto simp: authn_Fake_LookupByHash_def split: option.splits)

subsection \<open>What an audit log promises\<close>

text \<open>
  \<open>trail\<close> is what has been recorded, \<open>view\<close> what an entry records. A write that reports success has appended its entry and
  nothing else; one that reports an error may have done so or not.
\<close>

locale audit_log =
  fixes Write :: "'w audit_Writer" and trail :: "'w \<Rightarrow> 'v list" and view :: "audit_Entry \<Rightarrow> 'v"
  assumes Write_None: "Write e w = (None, w') \<Longrightarrow> trail w' = trail w @ [view e]"
    and Write_Some: "Write e w = (Some err, w') \<Longrightarrow> trail w' = trail w \<or> trail w' = trail w @ [view e]"
begin

lemma Write_cases: "trail (snd (Write e w)) = trail w \<or> trail (snd (Write e w)) = trail w @ [view e]"
  by (cases "Write e w"; cases "fst (Write e w)") (auto dest: Write_None Write_Some)

text \<open>A caller without the right is refused, whatever happens to the log, which records at most the attempt.\<close>

lemma authz_denies:
  assumes "IdentityFromContext ctx = Some i" "\<not> Allowed (id_Role i) m"
    and "run (authz_UnaryInterceptor Write m handler ctx req) w = (r, w')"
  shows "r = Returned (Inl (StatusError PermissionDenied ''insufficient privileges for this action'')) \<and>
    (trail w' = trail w \<or> trail w' = trail w @ [view \<lparr>ent_Actor = id_UserID i, ent_Action = m @ ''_denied'', ent_Target = m,
       ent_Before = None, ent_After = None\<rparr>])"
proof -
  let ?e = "\<lparr>ent_Actor = id_UserID i, ent_Action = m @ ''_denied'', ent_Target = m, ent_Before = None, ent_After = None\<rparr>"
  have "r = Returned (Inl (StatusError PermissionDenied ''insufficient privileges for this action'')) \<and> w' = snd (Write ?e w)"
    using assms by (auto simp: authz_UnaryInterceptor_def split: prod.splits)
  with Write_cases [of ?e w] show ?thesis by simp
qed

end

type_synonym audit_row_view = "string \<times> string \<times> string \<times> string option \<times> string option"

definition audit_trail :: "'z admin_tables_scheme \<Rightarrow> audit_row_view list" where
  "audit_trail w = map (\<lambda>r. (al_actor r, al_action r, al_target r, al_before_json r, al_after_json r)) (adm_audit w)"

definition stored_json :: "(audit_value \<Rightarrow> string result) \<Rightarrow> (string \<Rightarrow> string) \<Rightarrow> audit_value option \<Rightarrow> string option" where
  "stored_json marshal jsonb v = (case marshalNullable marshal v of Inl _ \<Rightarrow> None | Inr b \<Rightarrow> map_option jsonb b)"

definition audit_view :: "(audit_value \<Rightarrow> string result) \<Rightarrow> (string \<Rightarrow> string) \<Rightarrow> audit_Entry \<Rightarrow> audit_row_view" where
  "audit_view marshal jsonb e =
     (ent_Actor e, ent_Action e, ent_Target e, stored_json marshal jsonb (ent_Before e), stored_json marshal jsonb (ent_After e))"

lemma draw_uuid_admin:
  "draw_uuid w = (u, w') \<Longrightarrow> adm_users w' = adm_users w \<and> adm_tenants w' = adm_tenants w \<and> adm_audit w' = adm_audit w \<and>
     adm_keys w' = adm_keys w \<and> env_now w' = env_now w"
  by (auto simp: draw_uuid_def split: list.splits)

definition audit_outside where
  "audit_outside w = (adm_users w, adm_tenants w, adm_keys w, t_manifest w, t_active w, t_rollout w, es_kv w)"

lemma insert_audit_cases:
  assumes "insert_audit jsonb a actn t b c w = (r, w')"
  shows "audit_outside w' = audit_outside w \<and>
    (adm_audit w' = adm_audit w \<and> r \<noteq> None \<or>
     (\<exists>u now. u \<notin> al_audit_id ` set (adm_audit w) \<and> a \<in> au_user_id ` set (adm_users w) \<and>
        adm_audit w' = adm_audit w @ [\<lparr>al_audit_id = u, al_actor = a, al_action = actn, al_target = t,
          al_before_json = map_option jsonb b, al_after_json = map_option jsonb c, al_ts = now\<rparr>]))"
proof -
  obtain f u where n: "db_next w = (f, u)" by fastforce
  have o: "audit_outside u = audit_outside w" "adm_audit u = adm_audit w" "adm_users u = adm_users w"
    using n by (auto simp: db_next_def audit_outside_def split: list.splits)
  obtain x v where d: "draw_uuid u = (x, v)" by fastforce
  have p: "audit_outside v = audit_outside u" "adm_audit v = adm_audit u"
    using d by (auto simp: draw_uuid_def audit_outside_def split: list.splits)
  have q: "audit_outside (v\<lparr>adm_audit := l\<rparr>) = audit_outside v" for l by (simp add: audit_outside_def)
  show ?thesis
  proof (cases f)
    case Done
    with assms n d o p q show ?thesis by (auto simp: insert_audit_def remote_def split: if_splits)
  next
    case (Refused err)
    with assms n o show ?thesis by (auto simp: insert_audit_def remote_def)
  next
    case (ReplyLost err)
    with assms n d o p q show ?thesis by (auto simp: insert_audit_def remote_def split: if_splits)
  qed
qed

lemma CockroachWriter_Write_cases:
  assumes "CockroachWriter_Write marshal jsonb e w = (r, w')"
  shows "audit_outside w' = audit_outside w \<and>
    (adm_audit w' = adm_audit w \<and> r \<noteq> None \<or>
     (\<exists>u now. u \<notin> al_audit_id ` set (adm_audit w) \<and> ent_Actor e \<in> au_user_id ` set (adm_users w) \<and>
        adm_audit w' = adm_audit w @ [\<lparr>al_audit_id = u, al_actor = ent_Actor e, al_action = ent_Action e, al_target = ent_Target e,
          al_before_json = stored_json marshal jsonb (ent_Before e), al_after_json = stored_json marshal jsonb (ent_After e), al_ts = now\<rparr>]))"
proof (cases "marshalNullable marshal (ent_Before e)")
  case (Inr b)
  show ?thesis
  proof (cases "marshalNullable marshal (ent_After e)")
    case (Inr c)
    with \<open>marshalNullable marshal (ent_Before e) = Inr b\<close> assms
    have "insert_audit jsonb (ent_Actor e) (ent_Action e) (ent_Target e) b c w = (r, w')"
      by (simp add: CockroachWriter_Write_def)
    from insert_audit_cases [OF this] show ?thesis
      by (simp add: stored_json_def Inr \<open>marshalNullable marshal (ent_Before e) = Inr b\<close>)
  next
    case (Inl err)
    with Inr assms show ?thesis by (auto simp: CockroachWriter_Write_def)
  qed
next
  case (Inl err)
  with assms show ?thesis by (auto simp: CockroachWriter_Write_def)
qed

interpretation cockroach_audit: audit_log "CockroachWriter_Write marshal jsonb" audit_trail "audit_view marshal jsonb"
proof unfold_locales
  fix e and w w' :: "'z admin_tables_scheme"
  assume "CockroachWriter_Write marshal jsonb e w = (None, w')"
  from CockroachWriter_Write_cases [OF this] show "audit_trail w' = audit_trail w @ [audit_view marshal jsonb e]"
    by (auto simp: audit_trail_def audit_view_def)
next
  fix e err and w w' :: "'z admin_tables_scheme"
  assume "CockroachWriter_Write marshal jsonb e w = (Some err, w')"
  from CockroachWriter_Write_cases [OF this]
  show "audit_trail w' = audit_trail w \<or> audit_trail w' = audit_trail w @ [audit_view marshal jsonb e]"
    by (auto simp: audit_trail_def audit_view_def)
qed

interpretation fake_audit: audit_log FakeWriter_Write fw_Entries id
  by unfold_locales (auto simp: FakeWriter_Write_def split: option.splits)

subsection \<open>The table of permissions\<close>

lemma Allowed_iff:
  "Allowed role m \<longleftrightarrow> role = ''admin'' \<and> m \<in> {methodPublishModelVersion, methodStartRollout, methodPromoteRollout,
     methodAbortRollout, methodCreateApiKey, methodRevokeApiKey}"
  by (simp add: Allowed_def allowedRPCs_def roleAdmin_def roleViewer_def split: option.splits)

end
