(* ===== verification/Admin_Server.thy ===== *)
theory Admin_Server
  imports Admin_Auth
begin

text \<open>
  The commands of admin-api: its key store (\<^verbatim>\<open>services/admin-api/internal/apikeys\<close>), the handlers of \<^verbatim>\<open>server.go\<close>, the audit
  interceptor of \<^verbatim>\<open>audit_interceptor.go\<close>, and the chain of interceptors that \<^verbatim>\<open>main.go\<close> puts around them. The client of
  control-plane is an interface of programs; \<open>cp_publisher\<close> is that client with the handlers of \<open>Control_Server\<close> at the
  other end, so that a command is followed from its credential to the rows it leaves in control-plane's tables.

  The generated message types are constructors with the fields of \<^verbatim>\<open>admin.proto\<close>.
\<close>

section \<open>Model\<close>

subsection \<open>API keys\<close>

definition hex_encode :: "nat list \<Rightarrow> string" where
  "hex_encode bs = concat (map (\<lambda>b. [hex_digit (b div 16), hex_digit (b mod 16)]) bs)"

text \<open>\<^verbatim>\<open>rand.Read\<close> into a buffer of 32 bytes is an argument.\<close>

definition GenerateRawKey :: "('w \<Rightarrow> nat list result \<times> 'w) \<Rightarrow> 'w \<Rightarrow> string result \<times> 'w" where
  "GenerateRawKey rand_Read w =
     (case rand_Read w of
        (Inl err, w1) \<Rightarrow> (Inl (Wrap ''generating random key material: '' err []), w1)
      | (Inr buf, w1) \<Rightarrow> (Inr (''oz_'' @ hex_encode buf), w1))"

definition HashRawKey :: "(string \<Rightarrow> string) \<Rightarrow> string \<Rightarrow> string" where
  "HashRawKey sha256_hex raw = sha256_hex raw"

record key_Summary =
  ks_KeyID :: string
  ks_OrgID :: string
  ks_Scopes :: "string list"
  ks_CreatedAt :: string
  ks_RevokedAt :: "string option"

record 'w apikeys_Store =
  keys_Create :: "string \<Rightarrow> string \<Rightarrow> string list \<Rightarrow> 'w \<Rightarrow> string result \<times> 'w"
  keys_Revoke :: "string \<Rightarrow> 'w \<Rightarrow> bool result \<times> 'w"
  keys_List :: "'w \<Rightarrow> key_Summary list result \<times> 'w"

text \<open>The foreign key asks for an existing tenant; the primary key and the hash are unique.\<close>

definition keys_Cockroach_Create ::
  "string \<Rightarrow> string \<Rightarrow> string list \<Rightarrow> 'z admin_tables_scheme \<Rightarrow> string result \<times> 'z admin_tables_scheme" where
  "keys_Cockroach_Create orgID hash scopes =
     remote Inl db_next (\<lambda>w.
       if orgID \<notin> set (adm_tenants w) then (Inl ErrForeignKey, w)
       else (case draw_uuid w of (u, w1) \<Rightarrow>
         if u \<in> ak_key_id ` set (adm_keys w1) \<or> hash \<in> ak_hash ` set (adm_keys w1) then (Inl ErrUniqueViolation, w1)
         else (Inr u, w1\<lparr>adm_keys := adm_keys w1 @ [\<lparr>ak_key_id = u, ak_org_id = orgID, ak_hash = hash, ak_scopes = scopes,
                 ak_created_at = env_now w1, ak_revoked_at = None\<rparr>]\<rparr>)))"

definition keys_Cockroach_Revoke :: "string \<Rightarrow> 'z admin_tables_scheme \<Rightarrow> bool result \<times> 'z admin_tables_scheme" where
  "keys_Cockroach_Revoke keyID =
     remote Inl db_next (\<lambda>w.
       let n = length (filter (\<lambda>r. ak_key_id r = keyID \<and> ak_revoked_at r = None) (adm_keys w))
       in (Inr (n > 0), w\<lparr>adm_keys := map (\<lambda>r. if ak_key_id r = keyID \<and> ak_revoked_at r = None
              then r\<lparr>ak_revoked_at := Some (env_now w)\<rparr> else r) (adm_keys w)\<rparr>))"

definition keys_Cockroach_List ::
  "(int \<Rightarrow> string) \<Rightarrow> 'z admin_tables_scheme \<Rightarrow> key_Summary list result \<times> 'z admin_tables_scheme" where
  "keys_Cockroach_List rfc3339 =
     remote Inl db_next (\<lambda>w.
       (Inr (map (\<lambda>r. \<lparr>ks_KeyID = ak_key_id r, ks_OrgID = ak_org_id r, ks_Scopes = ak_scopes r,
                    ks_CreatedAt = rfc3339 (ak_created_at r), ks_RevokedAt = map_option rfc3339 (ak_revoked_at r)\<rparr>)
          (sort_key (\<lambda>r. - ak_created_at r) (adm_keys w))), w))"

definition keys_CockroachStore :: "(int \<Rightarrow> string) \<Rightarrow> 'z admin_tables_scheme apikeys_Store" where
  "keys_CockroachStore rfc3339 =
     \<lparr>keys_Create = keys_Cockroach_Create, keys_Revoke = keys_Cockroach_Revoke, keys_List = keys_Cockroach_List rfc3339\<rparr>"

text \<open>
  The test store. Its records are a Go map, which is iterated in no particular order; the list is in the order of creation
  here. \<open>fk_now\<close> is the rendering of the clock.
\<close>

record keys_FakeStore =
  fk_records :: "(string \<times> key_Summary) list"
  fk_next :: nat
  fk_CreateErr :: "go_error option"
  fk_RevokeErr :: "go_error option"
  fk_ListErr :: "go_error option"
  fk_ValidOrgIDs :: "(string \<Rightarrow> bool) option"
  fk_CreateCalls :: "(string \<times> string \<times> string list) list"
  fk_RevokeCalls :: "string list"
  fk_now :: string

definition keys_Fake_Create :: "string \<Rightarrow> string \<Rightarrow> string list \<Rightarrow> keys_FakeStore \<Rightarrow> string result \<times> keys_FakeStore" where
  "keys_Fake_Create orgID hash scopes f0 =
     (let f = f0\<lparr>fk_CreateCalls := fk_CreateCalls f0 @ [(orgID, hash, scopes)]\<rparr>
      in case fk_CreateErr f of
           Some err \<Rightarrow> (Inl err, f)
         | None \<Rightarrow>
             if (case fk_ValidOrgIDs f of None \<Rightarrow> False | Some valid \<Rightarrow> \<not> valid orgID)
             then (Inl (ErrorString (''insert on table api_keys violates foreign key constraint: org_id '' @ quoted orgID @ '' not found'')), f)
             else
               (let nx = Suc (fk_next f); keyID = ''key-'' @ show_nat nx
                in (Inr keyID, f\<lparr>fk_next := nx, fk_records := AList.update keyID
                     \<lparr>ks_KeyID = keyID, ks_OrgID = orgID, ks_Scopes = scopes, ks_CreatedAt = fk_now f, ks_RevokedAt = None\<rparr>
                     (fk_records f)\<rparr>)))"

definition keys_Fake_Revoke :: "string \<Rightarrow> keys_FakeStore \<Rightarrow> bool result \<times> keys_FakeStore" where
  "keys_Fake_Revoke keyID f0 =
     (let f = f0\<lparr>fk_RevokeCalls := fk_RevokeCalls f0 @ [keyID]\<rparr>
      in case fk_RevokeErr f of
           Some err \<Rightarrow> (Inl err, f)
         | None \<Rightarrow>
             (case map_of (fk_records f) keyID of
                None \<Rightarrow> (Inr False, f)
              | Some rec \<Rightarrow>
                  (case ks_RevokedAt rec of
                     Some _ \<Rightarrow> (Inr False, f)
                   | None \<Rightarrow> (Inr True, f\<lparr>fk_records := AList.update keyID (rec\<lparr>ks_RevokedAt := Some (fk_now f)\<rparr>) (fk_records f)\<rparr>))))"

definition keys_Fake_List :: "keys_FakeStore \<Rightarrow> key_Summary list result \<times> keys_FakeStore" where
  "keys_Fake_List f = (case fk_ListErr f of Some err \<Rightarrow> (Inl err, f) | None \<Rightarrow> (Inr (map snd (fk_records f)), f))"

definition keys_FakeStore_ops :: "keys_FakeStore apikeys_Store" where
  "keys_FakeStore_ops = \<lparr>keys_Create = keys_Fake_Create, keys_Revoke = keys_Fake_Revoke, keys_List = keys_Fake_List\<rparr>"

subsection \<open>The handlers\<close>

datatype admin_req =
    PublishModelVersionRequest string string
  | StartRolloutRequest string string string
  | PromoteRolloutRequest string
  | AbortRolloutRequest string
  | CreateApiKeyRequest string "string list"
  | RevokeApiKeyRequest string

datatype admin_resp =
    PublishModelVersionResponse string
  | StartRolloutResponse string
  | PromoteRolloutResponse string
  | AbortRolloutResponse
  | CreateApiKeyResponse string string
  | RevokeApiKeyResponse

record 'w controlPublisher =
  ctl_RegisterModelManifest :: "string \<Rightarrow> string \<Rightarrow> string \<Rightarrow> ('w, string result) prog"
  ctl_CreateRollout :: "string \<Rightarrow> string \<Rightarrow> string \<Rightarrow> ('w, string result) prog"
  ctl_PromoteRollout :: "string \<Rightarrow> ('w, string result) prog"
  ctl_AbortRollout :: "string \<Rightarrow> ('w, unit result) prog"

record 'w admin_server =
  ad_control :: "'w controlPublisher"
  ad_keys :: "'w apikeys_Store"
  ad_rand_Read :: "'w \<Rightarrow> nat list result \<times> 'w"
  ad_sha256_hex :: "string \<Rightarrow> string"

text \<open>Every handler starts by reading the identity and ends in a response or in a status.\<close>

abbreviation status_Internal :: "string \<Rightarrow> ('w, admin_resp result call) prog" where
  "status_Internal msg \<equiv> Ret (Returned (Inl (StatusError Internal msg)))"

abbreviation respond :: "admin_resp \<Rightarrow> ('w, admin_resp result call) prog" where
  "respond resp \<equiv> Ret (Returned (Inr resp))"

definition admin_PublishModelVersion ::
  "'w admin_server \<Rightarrow> rpc_ctx \<Rightarrow> string \<Rightarrow> string \<Rightarrow> ('w, admin_resp result call) prog" where
  "admin_PublishModelVersion s ctx modelRef specJson =
     (case IdentityFromContext ctx of
        None \<Rightarrow> status_Internal ''no verified identity''
      | Some i \<Rightarrow>
          bindE (ctl_RegisterModelManifest (ad_control s) modelRef specJson (id_UserID i))
            (\<lambda>err. status_Internal ''failed to publish model version'')
            (\<lambda>versionID. respond (PublishModelVersionResponse versionID)))"

definition admin_StartRollout ::
  "'w admin_server \<Rightarrow> rpc_ctx \<Rightarrow> string \<Rightarrow> string \<Rightarrow> string \<Rightarrow> ('w, admin_resp result call) prog" where
  "admin_StartRollout s ctx modelRef versionId strategyJson =
     (case IdentityFromContext ctx of
        None \<Rightarrow> status_Internal ''no verified identity''
      | Some i \<Rightarrow>
          bindE (ctl_CreateRollout (ad_control s) modelRef versionId strategyJson)
            (\<lambda>err. status_Internal ''failed to start rollout'')
            (\<lambda>rolloutID. respond (StartRolloutResponse rolloutID)))"

definition admin_PromoteRollout :: "'w admin_server \<Rightarrow> rpc_ctx \<Rightarrow> string \<Rightarrow> ('w, admin_resp result call) prog" where
  "admin_PromoteRollout s ctx rolloutId =
     (case IdentityFromContext ctx of
        None \<Rightarrow> status_Internal ''no verified identity''
      | Some i \<Rightarrow>
          bindE (ctl_PromoteRollout (ad_control s) rolloutId)
            (\<lambda>err. status_Internal ''failed to promote rollout'')
            (\<lambda>newStage. respond (PromoteRolloutResponse newStage)))"

definition admin_AbortRollout :: "'w admin_server \<Rightarrow> rpc_ctx \<Rightarrow> string \<Rightarrow> ('w, admin_resp result call) prog" where
  "admin_AbortRollout s ctx rolloutId =
     (case IdentityFromContext ctx of
        None \<Rightarrow> status_Internal ''no verified identity''
      | Some i \<Rightarrow>
          bindE (ctl_AbortRollout (ad_control s) rolloutId)
            (\<lambda>err. status_Internal ''failed to abort rollout'')
            (\<lambda>_. respond AbortRolloutResponse))"

definition admin_CreateApiKey :: "'w admin_server \<Rightarrow> rpc_ctx \<Rightarrow> string \<Rightarrow> string list \<Rightarrow> ('w, admin_resp result call) prog" where
  "admin_CreateApiKey s ctx orgId scopes =
     (case IdentityFromContext ctx of
        None \<Rightarrow> status_Internal ''no verified identity''
      | Some i \<Rightarrow>
          bindE (act (GenerateRawKey (ad_rand_Read s)))
            (\<lambda>err. status_Internal ''failed to create api key'')
            (\<lambda>rawKey. bindE (act (keys_Create (ad_keys s) orgId (HashRawKey (ad_sha256_hex s) rawKey) scopes))
               (\<lambda>err. status_Internal ''failed to create api key'')
               (\<lambda>keyID. respond (CreateApiKeyResponse keyID rawKey))))"

definition admin_RevokeApiKey :: "'w admin_server \<Rightarrow> rpc_ctx \<Rightarrow> string \<Rightarrow> ('w, admin_resp result call) prog" where
  "admin_RevokeApiKey s ctx keyId =
     (case IdentityFromContext ctx of
        None \<Rightarrow> status_Internal ''no verified identity''
      | Some i \<Rightarrow>
          bindE (act (keys_Revoke (ad_keys s) keyId))
            (\<lambda>err. status_Internal ''failed to revoke api key'')
            (\<lambda>found. if \<not> found then status_Internal ''failed to revoke api key'' else respond RevokeApiKeyResponse))"

subsection \<open>The audit interceptor\<close>

text \<open>The target and the value after are read through unchecked type assertions, which panic on another message.\<close>

record auditSpec =
  as_action :: string
  as_target :: "admin_req \<Rightarrow> string call"
  as_after :: "(admin_req \<Rightarrow> admin_resp \<Rightarrow> audit_value call) option"

abbreviation conversion_panic :: "'a call" where
  "conversion_panic \<equiv> Panic ''interface conversion''"

definition publish_spec :: auditSpec where
  "publish_spec =
     \<lparr>as_action = ''publish_model_version'',
      as_target = (\<lambda>r. case r of PublishModelVersionRequest m j \<Rightarrow> Returned m | _ \<Rightarrow> conversion_panic),
      as_after = Some (\<lambda>r s. case (r, s) of
        (PublishModelVersionRequest m j, PublishModelVersionResponse v) \<Rightarrow>
          Returned (JMap [(''version_id'', JString v), (''model_ref'', JString m), (''spec_json'', JString j)])
        | _ \<Rightarrow> conversion_panic)\<rparr>"

definition start_spec :: auditSpec where
  "start_spec =
     \<lparr>as_action = ''start_rollout'',
      as_target = (\<lambda>r. case r of StartRolloutRequest m v j \<Rightarrow> Returned m | _ \<Rightarrow> conversion_panic),
      as_after = Some (\<lambda>r s. case (r, s) of
        (StartRolloutRequest m v j, StartRolloutResponse i) \<Rightarrow>
          Returned (JMap [(''rollout_id'', JString i), (''model_ref'', JString m), (''version_id'', JString v), (''strategy_json'', JString j)])
        | _ \<Rightarrow> conversion_panic)\<rparr>"

definition promote_spec :: auditSpec where
  "promote_spec =
     \<lparr>as_action = ''promote_rollout'',
      as_target = (\<lambda>r. case r of PromoteRolloutRequest i \<Rightarrow> Returned i | _ \<Rightarrow> conversion_panic),
      as_after = Some (\<lambda>_ s. case s of
        PromoteRolloutResponse stage \<Rightarrow> Returned (JMap [(''new_stage'', JString stage)]) | _ \<Rightarrow> conversion_panic)\<rparr>"

definition abort_spec :: auditSpec where
  "abort_spec =
     \<lparr>as_action = ''abort_rollout'',
      as_target = (\<lambda>r. case r of AbortRolloutRequest i \<Rightarrow> Returned i | _ \<Rightarrow> conversion_panic),
      as_after = Some (\<lambda>_ _. Returned (JMap [(''status'', JString ''aborted'')]))\<rparr>"

definition create_key_spec :: auditSpec where
  "create_key_spec =
     \<lparr>as_action = ''create_api_key'',
      as_target = (\<lambda>r. case r of CreateApiKeyRequest org scopes \<Rightarrow> Returned org | _ \<Rightarrow> conversion_panic),
      as_after = Some (\<lambda>r s. case (r, s) of
        (CreateApiKeyRequest org scopes, CreateApiKeyResponse k raw) \<Rightarrow>
          Returned (JMap [(''key_id'', JString k), (''org_id'', JString org), (''scopes'', JStrings scopes)])
        | _ \<Rightarrow> conversion_panic)\<rparr>"

definition revoke_key_spec :: auditSpec where
  "revoke_key_spec =
     \<lparr>as_action = ''revoke_api_key'',
      as_target = (\<lambda>r. case r of RevokeApiKeyRequest k \<Rightarrow> Returned k | _ \<Rightarrow> conversion_panic),
      as_after = Some (\<lambda>_ _. Returned (JMap [(''status'', JString ''revoked'')]))\<rparr>"

definition mutatingMethods :: "string \<rightharpoonup> auditSpec" where
  "mutatingMethods =
     [''/admin.v1.AdminService/PublishModelVersion'' \<mapsto> publish_spec,
      ''/admin.v1.AdminService/StartRollout'' \<mapsto> start_spec,
      ''/admin.v1.AdminService/PromoteRollout'' \<mapsto> promote_spec,
      ''/admin.v1.AdminService/AbortRollout'' \<mapsto> abort_spec,
      ''/admin.v1.AdminService/CreateApiKey'' \<mapsto> create_key_spec,
      ''/admin.v1.AdminService/RevokeApiKey'' \<mapsto> revoke_key_spec]"

text \<open>No RPC is declared to be a read. The methods are read off the generated descriptor of the service.\<close>

definition nonMutatingMethods :: "string \<rightharpoonup> unit" where
  "nonMutatingMethods = Map.empty"

record ServiceDesc =
  sd_ServiceName :: string
  sd_Methods :: "string list"

definition adminServiceMethods :: "ServiceDesc \<Rightarrow> string list" where
  "adminServiceMethods desc = map (\<lambda>m. ''/'' @ sd_ServiceName desc @ ''/'' @ m) (sd_Methods desc)"

definition AdminService_ServiceDesc :: ServiceDesc where
  "AdminService_ServiceDesc =
     \<lparr>sd_ServiceName = ''admin.v1.AdminService'',
      sd_Methods = [''PublishModelVersion'', ''StartRollout'', ''PromoteRollout'', ''AbortRollout'', ''CreateApiKey'', ''RevokeApiKey'']\<rparr>"

definition audit_failure ::
  "'w audit_Writer \<Rightarrow> auditSpec \<Rightarrow> Identity \<Rightarrow> admin_req \<Rightarrow> go_error \<Rightarrow> ('w, admin_resp result call) prog" where
  "audit_failure Write spec i req err =
     (case as_target spec req of
        Panic t \<Rightarrow> Ret (Panic t)
      | Returned target \<Rightarrow>
          bindP (act (Write \<lparr>ent_Actor = id_UserID i, ent_Action = as_action spec @ ''_failed'', ent_Target = target,
                             ent_Before = None, ent_After = None\<rparr>))
            (\<lambda>_. Ret (Returned (Inl err))))"

definition audit_success ::
  "'w audit_Writer \<Rightarrow> auditSpec \<Rightarrow> Identity \<Rightarrow> admin_req \<Rightarrow> admin_resp \<Rightarrow> ('w, admin_resp result call) prog" where
  "audit_success Write spec i req resp =
     (case as_target spec req of
        Panic t \<Rightarrow> Ret (Panic t)
      | Returned target \<Rightarrow>
          (case (case as_after spec of
                   None \<Rightarrow> Returned None
                 | Some after \<Rightarrow> (case after req resp of Panic t \<Rightarrow> Panic t | Returned v \<Rightarrow> Returned (Some v))) of
             Panic t \<Rightarrow> Ret (Panic t)
           | Returned after \<Rightarrow>
               bindO (act (Write \<lparr>ent_Actor = id_UserID i, ent_Action = as_action spec, ent_Target = target,
                                  ent_Before = None, ent_After = after\<rparr>))
                 (\<lambda>auditErr. status_Internal
                    ''the action may have succeeded but could not be recorded; treat as failed and verify with an operator'')
                 (respond resp)))"

definition AuditUnaryInterceptor ::
  "'w audit_Writer \<Rightarrow> string \<Rightarrow> ('w, admin_req, admin_resp) handler \<Rightarrow> ('w, admin_req, admin_resp) handler" where
  "AuditUnaryInterceptor Write fullMethod handler ctx req =
     (case mutatingMethods fullMethod of
        None \<Rightarrow> handler ctx req
      | Some spec \<Rightarrow>
          (case IdentityFromContext ctx of
             None \<Rightarrow> status_Internal ''no verified identity''
           | Some i \<Rightarrow>
               bindP (handler ctx req) (\<lambda>r.
                 case r of
                   Panic t \<Rightarrow> Ret (Panic t)
                 | Returned (Inl err) \<Rightarrow> audit_failure Write spec i req err
                 | Returned (Inr resp) \<Rightarrow> audit_success Write spec i req resp)))"

subsection \<open>The server\<close>

text \<open>The generated dispatcher hands every method the message of its own type.\<close>

fun FullMethod :: "admin_req \<Rightarrow> string" where
  "FullMethod (PublishModelVersionRequest _ _) = ''/admin.v1.AdminService/PublishModelVersion''"
| "FullMethod (StartRolloutRequest _ _ _) = ''/admin.v1.AdminService/StartRollout''"
| "FullMethod (PromoteRolloutRequest _) = ''/admin.v1.AdminService/PromoteRollout''"
| "FullMethod (AbortRolloutRequest _) = ''/admin.v1.AdminService/AbortRollout''"
| "FullMethod (CreateApiKeyRequest _ _) = ''/admin.v1.AdminService/CreateApiKey''"
| "FullMethod (RevokeApiKeyRequest _) = ''/admin.v1.AdminService/RevokeApiKey''"

fun admin_handler :: "'w admin_server \<Rightarrow> rpc_ctx \<Rightarrow> admin_req \<Rightarrow> ('w, admin_resp result call) prog" where
  "admin_handler s ctx (PublishModelVersionRequest m j) = admin_PublishModelVersion s ctx m j"
| "admin_handler s ctx (StartRolloutRequest m v j) = admin_StartRollout s ctx m v j"
| "admin_handler s ctx (PromoteRolloutRequest i) = admin_PromoteRollout s ctx i"
| "admin_handler s ctx (AbortRolloutRequest i) = admin_AbortRollout s ctx i"
| "admin_handler s ctx (CreateApiKeyRequest org scopes) = admin_CreateApiKey s ctx org scopes"
| "admin_handler s ctx (RevokeApiKeyRequest k) = admin_RevokeApiKey s ctx k"

definition admin_grpc ::
  "'w authn_Store \<Rightarrow> 'w audit_Writer \<Rightarrow> 'w admin_server \<Rightarrow> rpc_ctx \<Rightarrow> admin_req \<Rightarrow> ('w, admin_resp result call) prog" where
  "admin_grpc store Write s ctx req =
     authn_UnaryInterceptor (ad_sha256_hex s) store
       (authz_UnaryInterceptor Write (FullMethod req)
         (AuditUnaryInterceptor Write (FullMethod req) (admin_handler s))) ctx req"

text \<open>The connection to control-plane, and the service as \<^verbatim>\<open>main.go\<close> wires it.\<close>

definition rpc_next :: "'z admin_tables_scheme \<Rightarrow> fault \<times> 'z admin_tables_scheme" where
  "rpc_next w = (case rpc_faults w of [] \<Rightarrow> (Done, w) | f # fs \<Rightarrow> (f, w\<lparr>rpc_faults := fs\<rparr>))"

definition rpc_call :: "('z admin_tables_scheme, 'a result) prog \<Rightarrow> ('z admin_tables_scheme, 'a result) prog" where
  "rpc_call p =
     bindP (act rpc_next) (\<lambda>f.
       case f of
         Done \<Rightarrow> p
       | Refused err \<Rightarrow> Ret (Inl err)
       | ReplyLost err \<Rightarrow> bindP p (\<lambda>_. Ret (Inl err)))"

definition cp_publisher :: "'z admin_tables_scheme cp_server \<Rightarrow> 'z admin_tables_scheme controlPublisher" where
  "cp_publisher s =
     \<lparr>ctl_RegisterModelManifest = (\<lambda>m j c. rpc_call (server_RegisterModelManifest s m j c)),
      ctl_CreateRollout = (\<lambda>m v j. rpc_call (server_CreateRollout s m v j)),
      ctl_PromoteRollout = (\<lambda>i. rpc_call (server_PromoteRollout s i)),
      ctl_AbortRollout = (\<lambda>i. rpc_call (server_AbortRollout s i))\<rparr>"

definition rand_Read :: "'z admin_tables_scheme \<Rightarrow> nat list result \<times> 'z admin_tables_scheme" where
  "rand_Read w =
     (case rand_reads w of
        [] \<Rightarrow> (Inl (ErrorString ''no entropy''), w)
      | b # bs \<Rightarrow> (b, w\<lparr>rand_reads := bs\<rparr>))"

definition admin_api ::
  "(string \<Rightarrow> string) \<Rightarrow> (int \<Rightarrow> string) \<Rightarrow> 'z admin_tables_scheme cp_server \<Rightarrow> 'z admin_tables_scheme admin_server" where
  "admin_api sha256_hex rfc3339 cp =
     \<lparr>ad_control = cp_publisher cp, ad_keys = keys_CockroachStore rfc3339, ad_rand_Read = rand_Read, ad_sha256_hex = sha256_hex\<rparr>"

text \<open>The probes of \<^verbatim>\<open>main.go\<close>.\<close>

definition admin_healthz :: "int \<times> string" where
  "admin_healthz = (200, ''ok'')"

definition admin_readyz :: "('w \<Rightarrow> go_error option \<times> 'w) \<Rightarrow> ('w, int \<times> string) prog" where
  "admin_readyz ping = bindO (act ping) (\<lambda>err. Ret (503, ''not ready'')) (Ret (200, ''ready''))"

section \<open>Facts\<close>

subsection \<open>What a key store promises\<close>

text \<open>
  \<open>keys w k\<close> says whether the key \<open>k\<close> exists and is active. An operation that reports an error may have taken
  effect, as its reply can be lost.
\<close>

datatype key_op = KeyCreate string string "string list" | KeyRevoke string | KeyList

definition revokes :: "string \<Rightarrow> key_op \<times> bool \<Rightarrow> bool" where
  "revokes k = (\<lambda>(op, ok). op = KeyRevoke k \<and> ok)"

fun key_step :: "'w apikeys_Store \<Rightarrow> key_op \<Rightarrow> 'w \<Rightarrow> bool \<times> 'w" where
  "key_step st (KeyCreate org h scopes) w = (case keys_Create st org h scopes w of (r, w') \<Rightarrow> (\<not> isl r, w'))"
| "key_step st (KeyRevoke k) w = (case keys_Revoke st k w of (r, w') \<Rightarrow> (r = Inr True, w'))"
| "key_step st KeyList w = (case keys_List st w of (r, w') \<Rightarrow> (\<not> isl r, w'))"

fun key_run :: "'w apikeys_Store \<Rightarrow> key_op list \<Rightarrow> 'w \<Rightarrow> (key_op \<times> bool) list \<times> 'w" where
  "key_run st [] w = ([], w)"
| "key_run st (op # ops) w =
     (case key_step st op w of (ok, w1) \<Rightarrow> (case key_run st ops w1 of (tr, w2) \<Rightarrow> ((op, ok) # tr, w2)))"

locale key_store =
  fixes st :: "'w apikeys_Store" and inv :: "'w \<Rightarrow> bool" and keys :: "'w \<Rightarrow> string \<rightharpoonup> bool"
  assumes Create_law: "inv w \<Longrightarrow> keys_Create st org h scopes w = (rc, w') \<Longrightarrow> inv w' \<and>
      (keys w' = keys w \<and> isl rc \<or> (\<exists>k. keys w k = None \<and> keys w' = (keys w)(k \<mapsto> True) \<and> (\<forall>k'. rc = Inr k' \<longrightarrow> k' = k)))"
    and Revoke_law: "inv w \<Longrightarrow> keys_Revoke st k w = (rr, w') \<Longrightarrow> inv w' \<and>
      (keys w' = keys w \<and> rr \<noteq> Inr True \<and> (rr = Inr False \<longrightarrow> keys w k \<noteq> Some True) \<or>
       keys w k = Some True \<and> keys w' = (keys w)(k \<mapsto> False) \<and> rr \<noteq> Inr False)"
    and List_law: "inv w \<Longrightarrow> keys_List st w = (rl, w') \<Longrightarrow> inv w' \<and> keys w' = keys w \<and>
      (\<forall>l. rl = Inr l \<longrightarrow> (\<forall>k b. keys w k = Some b \<longleftrightarrow> (\<exists>s \<in> set l. ks_KeyID s = k \<and> (ks_RevokedAt s = None) = b)))"
begin

lemma step_inv: "inv w \<Longrightarrow> inv (snd (key_step st op w))"
  by (cases op) (auto split: prod.splits dest: Create_law Revoke_law List_law)

lemma step_keeps_revoked: "inv w \<Longrightarrow> keys w k = Some False \<Longrightarrow> key_step st op w = (ok, w') \<Longrightarrow>
    keys w' k = Some False \<and> \<not> revokes k (op, ok)"
proof (cases op)
  case (KeyCreate org h scopes)
  assume a: "inv w" "keys w k = Some False" "key_step st op w = (ok, w')"
  with KeyCreate obtain r where "keys_Create st org h scopes w = (r, w')" by (auto split: prod.splits)
  from Create_law [OF a(1) this] a(2) KeyCreate show ?thesis by (auto simp: revokes_def)
next
  case (KeyRevoke k')
  assume a: "inv w" "keys w k = Some False" "key_step st op w = (ok, w')"
  with KeyRevoke obtain r where r: "keys_Revoke st k' w = (r, w')" "ok = (r = Inr True)" by (auto split: prod.splits)
  from Revoke_law [OF a(1) r(1)] a(2) r(2) KeyRevoke show ?thesis by (auto simp: revokes_def split: if_splits)
next
  case KeyList
  assume a: "inv w" "keys w k = Some False" "key_step st op w = (ok, w')"
  with KeyList obtain r where "keys_List st w = (r, w')" by (auto split: prod.splits)
  from List_law [OF a(1) this] a(2) KeyList show ?thesis by (auto simp: revokes_def)
qed

lemma step_revokes: "inv w \<Longrightarrow> key_step st op w = (ok, w') \<Longrightarrow> revokes k (op, ok) \<Longrightarrow> keys w k = Some True \<and> keys w' k = Some False"
proof -
  assume a: "inv w" "key_step st op w = (ok, w')" "revokes k (op, ok)"
  then have op: "op = KeyRevoke k" "ok" by (auto simp: revokes_def)
  with a(2) have "keys_Revoke st k w = (Inr True, w')" by (auto split: prod.splits)
  from Revoke_law [OF a(1) this] show ?thesis by auto
qed

text \<open>A revoked key stays revoked, and no later revocation of it succeeds.\<close>

lemma run_keeps_revoked: "inv w \<Longrightarrow> keys w k = Some False \<Longrightarrow> key_run st ops w = (tr, w') \<Longrightarrow>
    inv w' \<and> keys w' k = Some False \<and> filter (revokes k) tr = []"
proof (induction ops arbitrary: w tr)
  case (Cons op ops)
  obtain ok w1 where s: "key_step st op w = (ok, w1)" by fastforce
  obtain tr1 w2 where r: "key_run st ops w1 = (tr1, w2)" by fastforce
  from Cons.prems s r have t: "tr = (op, ok) # tr1" "w' = w2" by simp_all
  have "inv w1" using step_inv [OF Cons.prems(1), of op] s by simp
  with step_keeps_revoked [OF Cons.prems(1,2) s] Cons.IH [of w1 tr1] r t show ?case by simp
qed simp

lemma run_revokes_once: "inv w \<Longrightarrow> key_run st ops w = (tr, w') \<Longrightarrow>
    length (filter (revokes k) tr) \<le> 1 \<and> (filter (revokes k) tr \<noteq> [] \<longrightarrow> keys w' k = Some False)"
proof (induction ops arbitrary: w tr)
  case (Cons op ops)
  obtain ok w1 where s: "key_step st op w = (ok, w1)" by fastforce
  obtain tr1 w2 where r: "key_run st ops w1 = (tr1, w2)" by fastforce
  from Cons.prems s r have t: "tr = (op, ok) # tr1" "w' = w2" by simp_all
  have i: "inv w1" using step_inv [OF Cons.prems(1), of op] s by simp
  show ?case
  proof (cases "revokes k (op, ok)")
    case True
    with step_revokes [OF Cons.prems(1) s] have "keys w1 k = Some False" by simp
    from run_keeps_revoked [OF i this r] True t show ?thesis by simp
  next
    case False
    with Cons.IH [of w1 tr1] i r t show ?thesis by simp
  qed
qed simp

lemma run_inv: "inv w \<Longrightarrow> key_run st ops w = (tr, w') \<Longrightarrow> inv w'"
proof (induction ops arbitrary: w tr)
  case (Cons op ops)
  obtain ok w1 where s: "key_step st op w = (ok, w1)" by fastforce
  obtain tr1 w2 where r: "key_run st ops w1 = (tr1, w2)" by fastforce
  have "inv w1" using step_inv [OF Cons.prems(1), of op] s by simp
  with Cons.IH [of w1 tr1] Cons.prems(2) s r show ?case by simp
qed simp

text \<open>The list shows every key with its state.\<close>

lemma List_shows:
  "inv w \<Longrightarrow> keys_List st w = (Inr l, w') \<Longrightarrow> keys w k = Some b \<longleftrightarrow> (\<exists>s \<in> set l. ks_KeyID s = k \<and> (ks_RevokedAt s = None) = b)"
  using List_law [of w "Inr l" w'] by blast

end

subsection \<open>The two stores keep the promise\<close>

definition api_keys :: "'z admin_tables_scheme \<Rightarrow> string \<rightharpoonup> bool" where
  "api_keys w k = map_option (\<lambda>r. ak_revoked_at r = None) (find (\<lambda>r. ak_key_id r = k) (adm_keys w))"

definition api_keys_ok :: "'z admin_tables_scheme \<Rightarrow> bool" where
  "api_keys_ok w \<longleftrightarrow> distinct (map ak_key_id (adm_keys w))"

lemma find_key_None: "find (\<lambda>r. ak_key_id r = k) rs = None \<longleftrightarrow> k \<notin> ak_key_id ` set rs"
  by (auto simp: find_None_iff)

lemma find_key_append:
  "find (\<lambda>r. ak_key_id r = k) (rs @ [x]) =
     (case find (\<lambda>r. ak_key_id r = k) rs of None \<Rightarrow> (if ak_key_id x = k then Some x else None) | Some y \<Rightarrow> Some y)"
  by (induction rs) auto

lemma find_key_map:
  assumes "\<And>r. ak_key_id (g r) = ak_key_id r"
  shows "find (\<lambda>r. ak_key_id r = k) (map g rs) = map_option g (find (\<lambda>r. ak_key_id r = k) rs)"
  by (induction rs) (auto simp: assms)

lemma find_key_distinct: "distinct (map ak_key_id rs) \<Longrightarrow> find (\<lambda>r. ak_key_id r = k) rs = Some x \<longleftrightarrow> x \<in> set rs \<and> ak_key_id x = k"
  by (induction rs) (auto split: if_splits simp: image_iff)

lemma db_next_keys: "db_next w = (f, u) \<Longrightarrow> api_keys u = api_keys w \<and> api_keys_ok u = api_keys_ok w"
  using db_next_admin [of w f u] by (simp add: api_keys_def api_keys_ok_def fun_eq_iff)

lemma Cockroach_Create_cases:
  assumes "keys_Cockroach_Create org h scopes w = (r, w')"
  shows "adm_audit w' = adm_audit w \<and> adm_users w' = adm_users w \<and> adm_tenants w' = adm_tenants w \<and>
    (adm_keys w' = adm_keys w \<and> isl r \<or>
     (\<exists>u. u \<notin> ak_key_id ` set (adm_keys w) \<and> h \<notin> ak_hash ` set (adm_keys w) \<and> org \<in> set (adm_tenants w) \<and>
        (\<forall>k. r = Inr k \<longrightarrow> k = u) \<and> adm_keys w' = adm_keys w @ [\<lparr>ak_key_id = u, ak_org_id = org, ak_hash = h, ak_scopes = scopes,
          ak_created_at = env_now w, ak_revoked_at = None\<rparr>]))"
proof -
  obtain f u where n: "db_next w = (f, u)" by fastforce
  note o = db_next_admin [OF n]
  obtain x v where d: "draw_uuid u = (x, v)" by fastforce
  note p = draw_uuid_admin [OF d]
  show ?thesis
    using assms n d o p by (cases f) (auto simp: keys_Cockroach_Create_def remote_def split: if_splits)
qed

lemma Cockroach_Revoke_cases:
  assumes "keys_Cockroach_Revoke k w = (r, w')"
  shows "adm_audit w' = adm_audit w \<and> adm_users w' = adm_users w \<and> adm_tenants w' = adm_tenants w \<and>
    (adm_keys w' = adm_keys w \<and> isl r \<or>
     adm_keys w' = map (\<lambda>x. if ak_key_id x = k \<and> ak_revoked_at x = None then x\<lparr>ak_revoked_at := Some (env_now w)\<rparr> else x) (adm_keys w) \<and>
     (\<forall>b. r = Inr b \<longrightarrow> b = (\<exists>x \<in> set (adm_keys w). ak_key_id x = k \<and> ak_revoked_at x = None)))"
proof -
  obtain f u where n: "db_next w = (f, u)" by fastforce
  note o = db_next_admin [OF n]
  show ?thesis
    using assms n o by (cases f) (auto simp: keys_Cockroach_Revoke_def remote_def Let_def filter_empty_conv)
qed

interpretation cockroach_keys: key_store "keys_CockroachStore rfc" api_keys_ok api_keys
proof unfold_locales
  fix org h scopes r and w w' :: "'z admin_tables_scheme"
  assume i: "api_keys_ok w" and c: "keys_Create (keys_CockroachStore rfc) org h scopes w = (r, w')"
  from c have "keys_Cockroach_Create org h scopes w = (r, w')" by (simp add: keys_CockroachStore_def)
  from Cockroach_Create_cases [OF this]
  consider "adm_keys w' = adm_keys w" "isl r"
    | u x where "u \<notin> ak_key_id ` set (adm_keys w)" "\<forall>k. r = Inr k \<longrightarrow> k = u" "adm_keys w' = adm_keys w @ [x]" "ak_key_id x = u"
        "ak_revoked_at x = None"
    by fastforce
  then show "api_keys_ok w' \<and> (api_keys w' = api_keys w \<and> isl r \<or>
     (\<exists>k. api_keys w k = None \<and> api_keys w' = (api_keys w)(k \<mapsto> True) \<and> (\<forall>k'. r = Inr k' \<longrightarrow> k' = k)))"
  proof cases
    case 1
    with i show ?thesis by (auto simp: api_keys_ok_def api_keys_def fun_eq_iff)
  next
    case 2
    then have "api_keys w u = None" by (simp add: api_keys_def find_key_None)
    moreover from this 2 have "api_keys w' = (api_keys w)(u \<mapsto> True)"
      by (auto simp: api_keys_def fun_eq_iff find_key_append split: option.splits)
    moreover have "api_keys_ok w'" using i 2 by (auto simp: api_keys_ok_def)
    ultimately show ?thesis using 2(2) by blast
  qed
next
  fix k r and w w' :: "'z admin_tables_scheme"
  assume i: "api_keys_ok w" and c: "keys_Revoke (keys_CockroachStore rfc) k w = (r, w')"
  from c have c': "keys_Cockroach_Revoke k w = (r, w')" by (simp add: keys_CockroachStore_def)
  let ?g = "\<lambda>x. if ak_key_id x = k \<and> ak_revoked_at x = None then x\<lparr>ak_revoked_at := Some (env_now w)\<rparr> else x"
  have f: "find (\<lambda>r. ak_key_id r = k') (map ?g rs) = map_option ?g (find (\<lambda>r. ak_key_id r = k') rs)" for k' rs
    by (rule find_key_map) simp
  have m: "map ak_key_id (map ?g rs) = map ak_key_id rs" for rs by simp
  have q: "(\<exists>x \<in> set (adm_keys w). ak_key_id x = k \<and> ak_revoked_at x = None) \<longleftrightarrow> api_keys w k = Some True"
    using i by (auto simp: api_keys_ok_def api_keys_def find_key_distinct)
  have g: "map_option (\<lambda>r. ak_revoked_at r = None) (map_option ?g (find (\<lambda>r. ak_key_id r = k') (adm_keys w))) =
      (if api_keys w k = Some True then ((api_keys w)(k \<mapsto> False)) k' else api_keys w k')" for k'
  proof (cases "find (\<lambda>r. ak_key_id r = k') (adm_keys w)")
    case (Some x)
    then have "ak_key_id x = k'" using i by (simp add: api_keys_ok_def find_key_distinct)
    with Some show ?thesis by (auto simp: api_keys_def)
  qed (auto simp: api_keys_def)
  from Cockroach_Revoke_cases [OF c']
  consider "adm_keys w' = adm_keys w" "isl r"
    | "adm_keys w' = map ?g (adm_keys w)" "\<forall>b. r = Inr b \<longrightarrow> b = (api_keys w k = Some True)"
    unfolding q by blast
  then show "api_keys_ok w' \<and> (api_keys w' = api_keys w \<and> r \<noteq> Inr True \<and> (r = Inr False \<longrightarrow> api_keys w k \<noteq> Some True) \<or>
     api_keys w k = Some True \<and> api_keys w' = (api_keys w)(k \<mapsto> False) \<and> r \<noteq> Inr False)"
  proof cases
    case 1
    with i show ?thesis by (auto simp: api_keys_ok_def api_keys_def fun_eq_iff)
  next
    case 2
    then have "api_keys w' = (if api_keys w k = Some True then (api_keys w)(k \<mapsto> False) else api_keys w)"
      using g by (auto simp: fun_eq_iff api_keys_def [of w'] f)
    moreover have "api_keys_ok w'" using i unfolding api_keys_ok_def 2(1) m .
    ultimately show ?thesis using 2(2) by auto
  qed
next
  fix r and w w' :: "'z admin_tables_scheme"
  assume i: "api_keys_ok w" and c: "keys_List (keys_CockroachStore rfc) w = (r, w')"
  obtain f u where n: "db_next w = (f, u)" by fastforce
  have k: "adm_keys u = adm_keys w" using db_next_admin [OF n] by simp
  have q: "api_keys w k = Some b \<longleftrightarrow> (\<exists>x \<in> set (adm_keys w). ak_key_id x = k \<and> (ak_revoked_at x = None) = b)" for k b
    using i by (auto simp: api_keys_ok_def api_keys_def find_key_distinct)
  from c n k show "api_keys_ok w' \<and> api_keys w' = api_keys w \<and>
      (\<forall>l. r = Inr l \<longrightarrow> (\<forall>k b. (api_keys w k = Some b) = (\<exists>s \<in> set l. ks_KeyID s = k \<and> (ks_RevokedAt s = None) = b)))"
    using db_next_keys [OF n] i
    by (cases f) (auto simp: keys_CockroachStore_def keys_Cockroach_List_def remote_def q, blast)
qed

text \<open>The test store: its keys are numbered, so that the next one is new.\<close>

definition fake_keys :: "keys_FakeStore \<Rightarrow> string \<rightharpoonup> bool" where
  "fake_keys f k = map_option (\<lambda>s. ks_RevokedAt s = None) (map_of (fk_records f) k)"

definition fake_keys_ok :: "keys_FakeStore \<Rightarrow> bool" where
  "fake_keys_ok f \<longleftrightarrow> distinct (map fst (fk_records f)) \<and>
     (\<forall>k s. map_of (fk_records f) k = Some s \<longrightarrow> ks_KeyID s = k \<and> (\<exists>n \<le> fk_next f. k = ''key-'' @ show_nat n))"

lemma fake_key_new:
  assumes "fake_keys_ok f"
  shows "map_of (fk_records f) (''key-'' @ show_nat (Suc (fk_next f))) = None"
proof (rule ccontr)
  assume "map_of (fk_records f) (''key-'' @ show_nat (Suc (fk_next f))) \<noteq> None"
  with assms obtain n where "n \<le> fk_next f" "''key-'' @ show_nat (Suc (fk_next f)) = ''key-'' @ show_nat n"
    unfolding fake_keys_ok_def by blast
  then show False using show_nat_inj [of "Suc (fk_next f)" n] by simp
qed

lemma fake_keys_ok_update:
  assumes "fake_keys_ok f" "fk_records f' = AList.update k x (fk_records f)" "fk_next f \<le> fk_next f'"
    and "ks_KeyID x = k" "n \<le> fk_next f'" "k = ''key-'' @ show_nat n"
  shows "fake_keys_ok f'"
  using assms(1) assms(3-) unfolding fake_keys_ok_def assms(2) update_conv
  by (auto simp: distinct_update) (meson order_trans)

interpretation fake_key_store: key_store keys_FakeStore_ops fake_keys_ok fake_keys
proof unfold_locales
  fix org h scopes r w w'
  assume i: "fake_keys_ok w" and c: "keys_Create keys_FakeStore_ops org h scopes w = (r, w')"
  let ?k = "''key-'' @ show_nat (Suc (fk_next w))"
  note new = fake_key_new [OF i]
  from c consider "isl r" "fk_records w' = fk_records w" "fk_next w' = fk_next w"
    | x where "r = Inr ?k" "fk_records w' = AList.update ?k x (fk_records w)" "fk_next w' = Suc (fk_next w)"
        "ks_KeyID x = ?k" "ks_RevokedAt x = None"
    by (auto simp: keys_FakeStore_ops_def keys_Fake_Create_def Let_def split: option.splits if_splits)
  then show "fake_keys_ok w' \<and> (fake_keys w' = fake_keys w \<and> isl r \<or>
     (\<exists>k. fake_keys w k = None \<and> fake_keys w' = (fake_keys w)(k \<mapsto> True) \<and> (\<forall>k'. r = Inr k' \<longrightarrow> k' = k)))"
  proof cases
    case 1
    with i show ?thesis by (auto simp: fake_keys_ok_def fake_keys_def fun_eq_iff)
  next
    case 2
    have "fake_keys_ok w'"
      using 2 by (intro fake_keys_ok_update [OF i 2(2), where n = "Suc (fk_next w)"]) simp_all
    moreover have "fake_keys w' = (fake_keys w)(?k \<mapsto> True)" using 2 by (auto simp: fake_keys_def fun_eq_iff update_conv)
    moreover have "fake_keys w ?k = None" using new by (simp add: fake_keys_def)
    ultimately show ?thesis using 2(1) by blast
  qed
next
  fix k r w w'
  assume i: "fake_keys_ok w" and c: "keys_Revoke keys_FakeStore_ops k w = (r, w')"
  from c consider "r \<noteq> Inr True" "fk_records w' = fk_records w" "fk_next w' = fk_next w" "r = Inr False \<longrightarrow> fake_keys w k \<noteq> Some True"
    | x v where "r = Inr True" "map_of (fk_records w) k = Some x" "ks_RevokedAt x = None"
        "fk_records w' = AList.update k (x\<lparr>ks_RevokedAt := Some v\<rparr>) (fk_records w)" "fk_next w' = fk_next w"
    by (auto simp: keys_FakeStore_ops_def keys_Fake_Revoke_def Let_def fake_keys_def split: option.splits)
  then show "fake_keys_ok w' \<and> (fake_keys w' = fake_keys w \<and> r \<noteq> Inr True \<and> (r = Inr False \<longrightarrow> fake_keys w k \<noteq> Some True) \<or>
     fake_keys w k = Some True \<and> fake_keys w' = (fake_keys w)(k \<mapsto> False) \<and> r \<noteq> Inr False)"
  proof cases
    case 1
    with i show ?thesis by (auto simp: fake_keys_ok_def fake_keys_def fun_eq_iff)
  next
    case 2
    from i 2(2) obtain n where "n \<le> fk_next w" "k = ''key-'' @ show_nat n" "ks_KeyID x = k"
      unfolding fake_keys_ok_def by blast
    with 2(5) have "fake_keys_ok w'" by (intro fake_keys_ok_update [OF i 2(4), where n = n]) simp_all
    moreover have "fake_keys w' = (fake_keys w)(k \<mapsto> False)" using 2 by (auto simp: fake_keys_def fun_eq_iff update_conv)
    ultimately show ?thesis using 2 by (simp add: fake_keys_def)
  qed
next
  fix r w w'
  assume i: "fake_keys_ok w" and c: "keys_List keys_FakeStore_ops w = (r, w')"
  have q: "fake_keys w k = Some b \<longleftrightarrow> (\<exists>s \<in> snd ` set (fk_records w). ks_KeyID s = k \<and> (ks_RevokedAt s = None) = b)" for k b
  proof -
    have m: "map_of (fk_records w) k = Some s \<longleftrightarrow> s \<in> snd ` set (fk_records w) \<and> ks_KeyID s = k" for s
      using i map_of_eq_Some_iff [of "fk_records w"] unfolding fake_keys_ok_def by force
    show ?thesis by (auto simp: fake_keys_def m)
  qed
  from c i show "fake_keys_ok w' \<and> fake_keys w' = fake_keys w \<and>
      (\<forall>l. r = Inr l \<longrightarrow> (\<forall>k b. (fake_keys w k = Some b) = (\<exists>s \<in> set l. ks_KeyID s = k \<and> (ks_RevokedAt s = None) = b)))"
    by (auto simp: keys_FakeStore_ops_def keys_Fake_List_def q split: option.splits) (metis snd_conv)
qed

end
