(* ===== verification/Admin_Chain.thy ===== *)
theory Admin_Chain
  imports Admin_Server
begin

text \<open>
  What the whole chain of admin-api guarantees for a command, from the credential to the tables of control-plane: who gets
  in, what a refusal leaves behind, that a reported success is in the audit log under the verified caller, and that the
  log and the keys only grow in every interleaving of commands.
\<close>

section \<open>The entries of the log\<close>

text \<open>What the audit log is to say about a command: the specification of the table of \<^verbatim>\<open>audit_interceptor.go\<close>.\<close>

fun command_target :: "admin_req \<Rightarrow> string" where
  "command_target (PublishModelVersionRequest m j) = m"
| "command_target (StartRolloutRequest m v j) = m"
| "command_target (PromoteRolloutRequest i) = i"
| "command_target (AbortRolloutRequest i) = i"
| "command_target (CreateApiKeyRequest org scopes) = org"
| "command_target (RevokeApiKeyRequest k) = k"

fun command_action :: "admin_req \<Rightarrow> string" where
  "command_action (PublishModelVersionRequest m j) = ''publish_model_version''"
| "command_action (StartRolloutRequest m v j) = ''start_rollout''"
| "command_action (PromoteRolloutRequest i) = ''promote_rollout''"
| "command_action (AbortRolloutRequest i) = ''abort_rollout''"
| "command_action (CreateApiKeyRequest org scopes) = ''create_api_key''"
| "command_action (RevokeApiKeyRequest k) = ''revoke_api_key''"

text \<open>The response that belongs to a request, with what its entry records.\<close>

fun command_after :: "admin_req \<Rightarrow> admin_resp \<Rightarrow> audit_value option" where
  "command_after (PublishModelVersionRequest m j) (PublishModelVersionResponse v) =
     Some (JMap [(''version_id'', JString v), (''model_ref'', JString m), (''spec_json'', JString j)])"
| "command_after (StartRolloutRequest m v j) (StartRolloutResponse i) =
     Some (JMap [(''rollout_id'', JString i), (''model_ref'', JString m), (''version_id'', JString v), (''strategy_json'', JString j)])"
| "command_after (PromoteRolloutRequest i) (PromoteRolloutResponse stage) = Some (JMap [(''new_stage'', JString stage)])"
| "command_after (AbortRolloutRequest i) AbortRolloutResponse = Some (JMap [(''status'', JString ''aborted'')])"
| "command_after (CreateApiKeyRequest org scopes) (CreateApiKeyResponse k raw) =
     Some (JMap [(''key_id'', JString k), (''org_id'', JString org), (''scopes'', JStrings scopes)])"
| "command_after (RevokeApiKeyRequest k) RevokeApiKeyResponse = Some (JMap [(''status'', JString ''revoked'')])"
| "command_after _ _ = None"

definition success_entry :: "Identity \<Rightarrow> admin_req \<Rightarrow> admin_resp \<Rightarrow> audit_Entry" where
  "success_entry i req resp = \<lparr>ent_Actor = id_UserID i, ent_Action = command_action req, ent_Target = command_target req,
     ent_Before = None, ent_After = command_after req resp\<rparr>"

definition failure_entry :: "Identity \<Rightarrow> admin_req \<Rightarrow> audit_Entry" where
  "failure_entry i req = \<lparr>ent_Actor = id_UserID i, ent_Action = command_action req @ ''_failed'', ent_Target = command_target req,
     ent_Before = None, ent_After = None\<rparr>"

lemmas audit_specs = publish_spec_def start_spec_def promote_spec_def abort_spec_def create_key_spec_def revoke_key_spec_def

lemma mutating_spec:
  "\<exists>spec. mutatingMethods (FullMethod req) = Some spec \<and> as_action spec = command_action req \<and>
     as_target spec req = Returned (command_target req) \<and>
     (\<forall>resp. command_after req resp \<noteq> None \<longrightarrow>
        (\<exists>after. as_after spec = Some after \<and> after req resp = Returned (the (command_after req resp))))"
proof (cases req)
  case (PublishModelVersionRequest m j)
  have "command_after req resp \<noteq> None \<Longrightarrow> \<exists>v. resp = PublishModelVersionResponse v" for resp
    using PublishModelVersionRequest by (cases resp) simp_all
  with PublishModelVersionRequest show ?thesis by (fastforce simp: mutatingMethods_def audit_specs)
next
  case (StartRolloutRequest m v j)
  have "command_after req resp \<noteq> None \<Longrightarrow> \<exists>i. resp = StartRolloutResponse i" for resp
    using StartRolloutRequest by (cases resp) simp_all
  with StartRolloutRequest show ?thesis by (fastforce simp: mutatingMethods_def audit_specs)
next
  case (PromoteRolloutRequest i)
  have "command_after req resp \<noteq> None \<Longrightarrow> \<exists>st. resp = PromoteRolloutResponse st" for resp
    using PromoteRolloutRequest by (cases resp) simp_all
  with PromoteRolloutRequest show ?thesis by (fastforce simp: mutatingMethods_def audit_specs)
next
  case (AbortRolloutRequest i)
  have "command_after req resp \<noteq> None \<Longrightarrow> resp = AbortRolloutResponse" for resp
    using AbortRolloutRequest by (cases resp) simp_all
  with AbortRolloutRequest show ?thesis by (fastforce simp: mutatingMethods_def audit_specs)
next
  case (CreateApiKeyRequest org scopes)
  have "command_after req resp \<noteq> None \<Longrightarrow> \<exists>k raw. resp = CreateApiKeyResponse k raw" for resp
    using CreateApiKeyRequest by (cases resp) simp_all
  with CreateApiKeyRequest show ?thesis by (fastforce simp: mutatingMethods_def audit_specs)
next
  case (RevokeApiKeyRequest k)
  have "command_after req resp \<noteq> None \<Longrightarrow> resp = RevokeApiKeyResponse" for resp
    using RevokeApiKeyRequest by (cases resp) simp_all
  with RevokeApiKeyRequest show ?thesis by (fastforce simp: mutatingMethods_def audit_specs)
qed

text \<open>
  Every RPC of the service is classified, once: the audit table, the list of reads and the table of permissions together
  have exactly the methods of the descriptor, so that no RPC is unaudited or out of everybody's reach by omission.
\<close>

lemma methods_classified:
  "set (adminServiceMethods AdminService_ServiceDesc) = dom mutatingMethods \<union> dom nonMutatingMethods"
  "dom mutatingMethods \<inter> dom nonMutatingMethods = {}"
  "set (adminServiceMethods AdminService_ServiceDesc) = {m. Allowed roleAdmin m}"
  "set (adminServiceMethods AdminService_ServiceDesc) = range FullMethod"
proof -
  let ?ms = "{''/admin.v1.AdminService/PublishModelVersion'', ''/admin.v1.AdminService/StartRollout'', ''/admin.v1.AdminService/PromoteRollout'',
    ''/admin.v1.AdminService/AbortRollout'', ''/admin.v1.AdminService/CreateApiKey'', ''/admin.v1.AdminService/RevokeApiKey''}"
  have d: "set (adminServiceMethods AdminService_ServiceDesc) = ?ms" by (simp add: adminServiceMethods_def AdminService_ServiceDesc_def)
  have m: "dom mutatingMethods = ?ms" "dom nonMutatingMethods = {}" by (auto simp: mutatingMethods_def nonMutatingMethods_def)
  show "set (adminServiceMethods AdminService_ServiceDesc) = dom mutatingMethods \<union> dom nonMutatingMethods"
    "dom mutatingMethods \<inter> dom nonMutatingMethods = {}" by (simp_all only: d m Un_empty_right Int_empty_right)
  show "set (adminServiceMethods AdminService_ServiceDesc) = {m. Allowed roleAdmin m}"
    unfolding d by (auto simp: Allowed_def allowedRPCs_def roleAdmin_def roleViewer_def methodPublishModelVersion_def methodStartRollout_def
      methodPromoteRollout_def methodAbortRollout_def methodCreateApiKey_def methodRevokeApiKey_def split: if_splits)
  have "?ms \<subseteq> range FullMethod"
    by (auto intro: image_eqI [of _ _ "PublishModelVersionRequest [] []"] image_eqI [of _ _ "StartRolloutRequest [] [] []"]
      image_eqI [of _ _ "PromoteRolloutRequest []"] image_eqI [of _ _ "AbortRolloutRequest []"] image_eqI [of _ _ "CreateApiKeyRequest [] []"]
      image_eqI [of _ _ "RevokeApiKeyRequest []"])
  moreover have "FullMethod req \<in> ?ms" for req by (cases req) simp_all
  ultimately show "set (adminServiceMethods AdminService_ServiceDesc) = range FullMethod" unfolding d by blast
qed

text \<open>Every handler ends in a status or in the response of its own type.\<close>

lemmas admin_handlers =
  admin_PublishModelVersion_def admin_StartRollout_def admin_PromoteRollout_def admin_AbortRollout_def
  admin_CreateApiKey_def admin_RevokeApiKey_def

lemma handler_result:
  assumes "run (admin_handler s ctx req) w = (r, w')"
  shows "(\<exists>err. r = Returned (Inl err)) \<or> (\<exists>resp. r = Returned (Inr resp) \<and> command_after req resp \<noteq> None)"
  using assms by (cases req) (auto simp: admin_handlers split: option.splits prod.splits sum.splits if_splits)

section \<open>The chain, for any store and any log\<close>

context audit_log
begin

lemma audit_interceptor_cases:
  assumes i: "IdentityFromContext ctx = Some i"
    and h: "run (admin_handler s ctx req) w = (r1, w1)"
    and a: "run (AuditUnaryInterceptor Write (FullMethod req) (admin_handler s) ctx req) w = (r, w')"
  shows "case r1 of
      Returned (Inl err) \<Rightarrow> r = Returned (Inl err) \<and> w' = snd (Write (failure_entry i req) w1)
    | Returned (Inr resp) \<Rightarrow> w' = snd (Write (success_entry i req resp) w1) \<and>
        r = (case fst (Write (success_entry i req resp) w1) of
               None \<Rightarrow> Returned (Inr resp)
             | Some _ \<Rightarrow> Returned (Inl (StatusError Internal
                 ''the action may have succeeded but could not be recorded; treat as failed and verify with an operator'')))
    | Panic _ \<Rightarrow> False"
proof -
  obtain spec where spec: "mutatingMethods (FullMethod req) = Some spec" "as_action spec = command_action req"
      "as_target spec req = Returned (command_target req)"
    and after: "\<And>resp. command_after req resp \<noteq> None \<Longrightarrow>
        \<exists>f. as_after spec = Some f \<and> f req resp = Returned (the (command_after req resp))"
    using mutating_spec [of req] by blast
  from handler_result [OF h] consider err where "r1 = Returned (Inl err)"
    | resp where "r1 = Returned (Inr resp)" "command_after req resp \<noteq> None" by blast
  then show ?thesis
  proof cases
    case 1
    with a i h spec show ?thesis
      by (auto simp: AuditUnaryInterceptor_def audit_failure_def failure_entry_def split: prod.splits)
  next
    case 2
    from after [OF 2(2)] obtain f where f: "as_after spec = Some f" "f req resp = Returned (the (command_after req resp))"
      by blast
    obtain o1 w2 where o: "Write (success_entry i req resp) w1 = (o1, w2)" by fastforce
    from a i h spec f 2 o show ?thesis
      by (cases o1) (auto simp: AuditUnaryInterceptor_def audit_success_def success_entry_def)
  qed
qed

text \<open>A success that reaches the caller is the last entry of the log.\<close>

lemma audited_success:
  assumes "IdentityFromContext ctx = Some i"
    and "run (AuditUnaryInterceptor Write (FullMethod req) (admin_handler s) ctx req) w = (Returned (Inr resp), w')"
  shows "\<exists>w1. run (admin_handler s ctx req) w = (Returned (Inr resp), w1) \<and> Write (success_entry i req resp) w1 = (None, w') \<and>
    trail w' = trail w1 @ [view (success_entry i req resp)]"
proof -
  obtain r1 w1 where h: "run (admin_handler s ctx req) w = (r1, w1)" by fastforce
  from audit_interceptor_cases [OF assms(1) h assms(2)] handler_result [OF h]
  have r: "r1 = Returned (Inr resp)" "w' = snd (Write (success_entry i req resp) w1)" "fst (Write (success_entry i req resp) w1) = None"
    by (auto split: option.splits)
  then have "Write (success_entry i req resp) w1 = (None, w')" by (metis prod.collapse)
  with h r Write_None show ?thesis by blast
qed

end

section \<open>What control-plane leaves alone\<close>

definition admin_part where
  "admin_part w = (adm_users w, adm_tenants w, adm_audit w, adm_keys w)"

lemma admin_part_updates:
  "admin_part (w\<lparr>t_faults := a\<rparr>) = admin_part w" "admin_part (w\<lparr>es_faults := a\<rparr>) = admin_part w"
  "admin_part (w\<lparr>es_kv := b\<rparr>) = admin_part w" "admin_part (w\<lparr>t_manifest := c\<rparr>) = admin_part w"
  "admin_part (w\<lparr>t_active := d\<rparr>) = admin_part w" "admin_part (w\<lparr>t_rollout := e\<rparr>) = admin_part w"
  "admin_part (w\<lparr>env_uuids := f\<rparr>) = admin_part w" "admin_part (w\<lparr>rpc_faults := a\<rparr>) = admin_part w"
  "admin_part (w\<lparr>rand_reads := g\<rparr>) = admin_part w"
  by (simp_all add: admin_part_def)

lemma kv_keeps_admin: "keeps admin_part (kv_Put k v)"
  by (rule kv_Put_keeps) (simp_all add: admin_part_updates)

lemma PublishManifest_keeps_admin:
  "keeps (admin_part :: 'z admin_tables_scheme \<Rightarrow> _) (etcd_PublishManifest (kv_client mj aj) v m j sg cb t st)"
  unfolding keeps_def
proof
  fix w :: "'z admin_tables_scheme"
  let ?e = "mj \<lparr>me_VersionID = v, me_ModelRef = m, me_SpecJSON = j, me_Signature = sg, me_CreatedBy = cb, me_CreatedAt = t, me_Status = st\<rparr>"
  obtain r w' where p: "kv_Put (manifest_key m v) ?e w = (r, w')" by fastforce
  from keepsD [OF kv_keeps_admin p] p show "admin_part (snd (etcd_PublishManifest (kv_client mj aj) v m j sg cb t st w)) = admin_part w"
    by (cases r) (simp_all add: etcd_PublishManifest_def kv_client_def)
qed

lemma cp_store_keeps_admin:
  "keeps admin_part (Cockroach_InsertManifest v m j sg cb t)" "keeps admin_part (Cockroach_SetActive m v)"
  "keeps admin_part (Cockroach_GetManifestByVersion v)" "keeps admin_part (Cockroach_GetActiveManifest m)"
  "keeps admin_part (Cockroach_HasActiveVersion m)" "keeps admin_part (Cockroach_InsertRollout x)"
  "keeps admin_part (Cockroach_GetRollout i)" "keeps admin_part (Cockroach_GetRunningRolloutByModelRef m)"
  "keeps admin_part (Cockroach_UpdateRollout i frm to st e)"
  unfolding Cockroach_InsertManifest_def Cockroach_SetActive_def Cockroach_GetManifestByVersion_def
    Cockroach_GetActiveManifest_def Cockroach_HasActiveVersion_def Cockroach_InsertRollout_def Cockroach_GetRollout_def
    Cockroach_GetRunningRolloutByModelRef_def Cockroach_UpdateRollout_def
  by (rule remote_db_keeps; simp add: admin_part_updates split: option.splits)+

lemma cp_rest_keeps_admin:
  "keeps admin_part (etcd_PublishActive (kv_client mj aj) m v)"
  "keeps admin_part (etcd_PublishCanaryState (kv_client mj aj) m sv cv pc)"
  "keeps admin_part draw_uuid" "keeps admin_part read_clock" "keeps admin_part rpc_next"
  unfolding etcd_PublishActive_def etcd_PublishCanaryState_def
  by (intro kv_publish_keeps kv_keeps_admin
     | simp add: keeps_def draw_uuid_def read_clock_def rpc_next_def admin_part_updates split: list.splits)+

lemmas cp_keeps_admin = cp_store_keeps_admin cp_rest_keeps_admin PublishManifest_keeps_admin FakeSigner_keeps

lemmas cp_eval = cp_registry_def registry_CockroachStore_def FakeSigner_def etcd_registry_Publisher_def cp_rollout_def
  rollout_CockroachStore_def

lemma ActivateVersion_admin: "guar (\<lambda>w w'. admin_part w' = admin_part w) (ActivateVersion (cp_registry hm mj aj valid rfc) m v)"
  unfolding ActivateVersion_def
  by (intro guar_bindO guar_Ret) (auto simp: cp_eval intro!: guar_keeps cp_keeps_admin)

lemma GetModelManifest_admin: "guar (\<lambda>w w'. admin_part w' = admin_part w) (GetModelManifest (cp_registry hm mj aj valid rfc) m v)"
  unfolding GetModelManifest_def
  by (intro guar_bindE) (auto simp: cp_eval intro!: guar_keeps cp_keeps_admin)

lemma RegisterModelManifest_admin:
  "guar (\<lambda>w w'. admin_part w' = admin_part w) (RegisterModelManifest (cp_registry hm mj aj valid rfc) m j cb)"
  unfolding RegisterModelManifest_def
  by (auto simp: cp_eval intro!: guar_bindP guar_bindE guar_bindO guar_keeps cp_keeps_admin
      ActivateVersion_admin [unfolded cp_eval])

lemma advanceStage_admin:
  "guar (\<lambda>w w'. admin_part w' = admin_part w) (advanceStage (cp_rollout hm mj aj valid rfc) i st)"
  unfolding advanceStage_def
  by (auto simp: cp_rollout_def rollout_CockroachStore_def split: option.splits
      intro!: guar_bindP guar_bindE guar_bindO guar_keeps cp_keeps_admin ActivateVersion_admin)

lemma revertCanary_admin:
  "guar (\<lambda>w w'. admin_part w' = admin_part w) (revertCanary (cp_rollout hm mj aj valid rfc) i res st)"
  unfolding revertCanary_def
  by (auto simp: cp_rollout_def rollout_CockroachStore_def split: option.splits
      intro!: guar_bindP guar_bindE guar_bindO guar_keeps cp_keeps_admin)

lemma CreateRollout_admin:
  "guar (\<lambda>w w'. admin_part w' = admin_part w) (CreateRollout (cp_rollout hm mj aj valid rfc) m v j)"
  unfolding CreateRollout_def
  by (auto simp: cp_rollout_def rollout_CockroachStore_def split: option.splits
      intro!: guar_bindP guar_bindE guar_bindO guar_keeps cp_keeps_admin GetModelManifest_admin
        advanceStage_admin [unfolded cp_rollout_def rollout_CockroachStore_def])

section \<open>The log and the keys only grow\<close>

text \<open>A row of \<^verbatim>\<open>api_keys\<close> changes at most once, from active to revoked.\<close>

definition key_le :: "api_key_row \<Rightarrow> api_key_row \<Rightarrow> bool" where
  "key_le r r' \<longleftrightarrow> r'\<lparr>ak_revoked_at := None\<rparr> = r\<lparr>ak_revoked_at := None\<rparr> \<and> (ak_revoked_at r \<noteq> None \<longrightarrow> ak_revoked_at r' = ak_revoked_at r)"

definition keys_grow :: "api_key_row list \<Rightarrow> api_key_row list \<Rightarrow> bool" where
  "keys_grow ks ks' \<longleftrightarrow> length ks \<le> length ks' \<and> (\<forall>i < length ks. key_le (ks ! i) (ks' ! i))"

definition audit_grows :: "string set \<Rightarrow> audit_row list \<Rightarrow> audit_row list \<Rightarrow> bool" where
  "audit_grows users log log' \<longleftrightarrow> (\<exists>rows. log' = log @ rows \<and> al_actor ` set rows \<subseteq> users)"

definition user_ids :: "'z admin_tables_scheme \<Rightarrow> string set" where
  "user_ids w = au_user_id ` set (adm_users w)"

definition admin_grows :: "'z admin_tables_scheme \<Rightarrow> 'z admin_tables_scheme \<Rightarrow> bool" where
  "admin_grows w w' \<longleftrightarrow> adm_users w' = adm_users w \<and> adm_tenants w' = adm_tenants w \<and>
     audit_grows (user_ids w) (adm_audit w) (adm_audit w') \<and> keys_grow (adm_keys w) (adm_keys w')"

text \<open>A handler leaves the log to the interceptors.\<close>

definition handler_rel :: "'z admin_tables_scheme \<Rightarrow> 'z admin_tables_scheme \<Rightarrow> bool" where
  "handler_rel w w' \<longleftrightarrow> adm_users w' = adm_users w \<and> adm_tenants w' = adm_tenants w \<and> adm_audit w' = adm_audit w \<and>
     keys_grow (adm_keys w) (adm_keys w')"

lemma key_le_trans: "key_le a b \<Longrightarrow> key_le b c \<Longrightarrow> key_le a c"
  unfolding key_le_def by auto

lemma keys_grow_refl [simp]: "keys_grow ks ks"
  by (simp add: keys_grow_def key_le_def)

lemma keys_grow_trans: "keys_grow a b \<Longrightarrow> keys_grow b c \<Longrightarrow> keys_grow a c"
  unfolding keys_grow_def by (meson key_le_trans order_less_le_trans order_trans)

lemma keys_grow_append: "keys_grow ks (ks @ new)"
  by (simp add: keys_grow_def nth_append key_le_def)

lemma keys_grow_revoke:
  "keys_grow ks (map (\<lambda>x. if ak_key_id x = k \<and> ak_revoked_at x = None then x\<lparr>ak_revoked_at := Some t\<rparr> else x) ks)"
  by (simp add: keys_grow_def key_le_def)

lemma audit_grows_refl [simp]: "audit_grows U log log"
  by (simp add: audit_grows_def)

lemma audit_grows_trans: "audit_grows U a b \<Longrightarrow> audit_grows U b c \<Longrightarrow> audit_grows U a c"
  unfolding audit_grows_def by (metis append.assoc image_Un set_append Un_least)

lemma admin_part_grows: "admin_part w' = admin_part w \<Longrightarrow> handler_rel w w'"
  by (simp add: admin_part_def handler_rel_def)

lemma handler_rel_grows: "handler_rel w w' \<Longrightarrow> admin_grows w w'"
  by (simp add: handler_rel_def admin_grows_def)

lemma handler_rel_rtranclp: "handler_rel\<^sup>*\<^sup>* w w' \<Longrightarrow> handler_rel w w'"
  by (induction rule: rtranclp_induct) (auto simp: handler_rel_def intro: keys_grow_trans)

lemma admin_grows_rtranclp: "admin_grows\<^sup>*\<^sup>* w w' \<Longrightarrow> admin_grows w w'"
  by (induction rule: rtranclp_induct)
    (auto simp: admin_grows_def user_ids_def intro: keys_grow_trans audit_grows_trans)

lemma Create_rel: "guar handler_rel (act (keys_Cockroach_Create org h scopes))"
proof (rule guar_act)
  show "handler_rel w (snd (keys_Cockroach_Create org h scopes w))" for w :: "'z admin_tables_scheme"
  using Cockroach_Create_cases [of org h scopes w "fst (keys_Cockroach_Create org h scopes w)" "snd (keys_Cockroach_Create org h scopes w)"]
  by (auto simp: handler_rel_def keys_grow_append)
qed

lemma Revoke_rel: "guar handler_rel (act (keys_Cockroach_Revoke k))"
proof (rule guar_act)
  show "handler_rel w (snd (keys_Cockroach_Revoke k w))" for w :: "'z admin_tables_scheme"
  using Cockroach_Revoke_cases [of k w "fst (keys_Cockroach_Revoke k w)" "snd (keys_Cockroach_Revoke k w)"]
  by (auto simp: handler_rel_def keys_grow_revoke)
qed

lemma Write_grows: "admin_grows w (snd (CockroachWriter_Write marshal jsonb e w))"
  using CockroachWriter_Write_cases [of marshal jsonb e w "fst (CockroachWriter_Write marshal jsonb e w)" "snd (CockroachWriter_Write marshal jsonb e w)"]
  by (auto simp: admin_grows_def audit_grows_def user_ids_def audit_outside_def)

lemma rand_keeps_admin: "keeps admin_part (GenerateRawKey rand_Read)"
  by (auto simp: keeps_def GenerateRawKey_def rand_Read_def admin_part_updates split: prod.splits sum.splits list.splits)

lemma guar_keeps_rel: "keeps admin_part f \<Longrightarrow> guar handler_rel (act f)"
  by (rule guar_act) (simp add: keeps_def admin_part_grows)

lemma guar_rpc_call: "guar (\<lambda>w w'. admin_part w' = admin_part w) p \<Longrightarrow> guar handler_rel (rpc_call p)"
  unfolding rpc_call_def
  by (rule guar_bindP [OF guar_keeps_rel [OF cp_rest_keeps_admin(5)]])
    (auto split: fault.splits intro: guar_mono [OF _ admin_part_grows])

subsection \<open>control-plane behind the connection\<close>

text \<open>
  The services of control-plane on their SQL stores and on etcd. The signer is the keyed hash of \<^verbatim>\<open>registry/fake.go\<close>;
  Vault behind the same interface is the subject of \<open>Vault\<close>.
\<close>

definition cp_services ::
  "(string \<Rightarrow> string \<Rightarrow> string) \<Rightarrow> (ManifestEnvelope \<Rightarrow> string) \<Rightarrow> (ActiveEnvelope \<Rightarrow> string) \<Rightarrow> (string \<Rightarrow> bool) \<Rightarrow> (int \<Rightarrow> string)
     \<Rightarrow> 'z rollout_tables_scheme providertoken_Service \<Rightarrow> 'z rollout_tables_scheme cp_server" where
  "cp_services hm mj aj valid rfc pt =
     \<lparr>sv_registry = cp_registry hm mj aj valid rfc, sv_providerToken = pt, sv_rollout = cp_rollout hm mj aj valid rfc,
      sv_ping = (\<lambda>w. (None, w))\<rparr>"

lemma cp_publisher_rel:
  "guar handler_rel (ctl_RegisterModelManifest (cp_publisher (cp_services hm mj aj valid rfc pt)) m j cb)"
  "guar handler_rel (ctl_CreateRollout (cp_publisher (cp_services hm mj aj valid rfc pt)) m v j)"
  "guar handler_rel (ctl_PromoteRollout (cp_publisher (cp_services hm mj aj valid rfc pt)) i)"
  "guar handler_rel (ctl_AbortRollout (cp_publisher (cp_services hm mj aj valid rfc pt)) i)"
  by (auto simp: cp_publisher_def server_RegisterModelManifest_def server_CreateRollout_def server_PromoteRollout_def
      server_AbortRollout_def PromoteRollout_def AbortRollout_def cp_services_def
      intro!: guar_rpc_call guar_bindE guar_bindO RegisterModelManifest_admin CreateRollout_admin advanceStage_admin revertCanary_admin)

lemma admin_api_sel:
  "ad_control (admin_api sha rfc3 cp) = cp_publisher cp" "ad_keys (admin_api sha rfc3 cp) = keys_CockroachStore rfc3"
  "ad_rand_Read (admin_api sha rfc3 cp) = rand_Read" "ad_sha256_hex (admin_api sha rfc3 cp) = sha"
  by (simp_all add: admin_api_def)

lemma handler_guar: "guar handler_rel (admin_handler (admin_api sha rfc3 (cp_services hm mj aj valid rfc pt)) ctx req)"
proof (cases "IdentityFromContext ctx")
  case None
  then show ?thesis by (cases req) (simp_all add: admin_handlers)
next
  case (Some i)
  then show ?thesis
    by (cases req)
      (auto simp: admin_handlers admin_api_sel keys_CockroachStore_def
        intro!: guar_bindE cp_publisher_rel Create_rel Revoke_rel guar_keeps_rel [OF rand_keeps_admin])
qed

lemma handler_run:
  assumes "run (admin_handler (admin_api sha rfc3 (cp_services hm mj aj valid rfc pt)) ctx req) w = (r, w')"
  shows "handler_rel w w'"
  using run_guar [OF handler_guar, of w sha rfc3 hm mj aj valid rfc pt ctx req] assms handler_rel_rtranclp by fastforce

section \<open>From the credential to the handler\<close>

text \<open>The identity that a token stands for, according to the table \<^verbatim>\<open>admin_user\<close>.\<close>

definition verified :: "(string \<Rightarrow> string) \<Rightarrow> 'z admin_tables_scheme \<Rightarrow> string \<Rightarrow> Identity option" where
  "verified sha w tok =
     (if tok = [] then None
      else (case credential w (sha tok) of
         None \<Rightarrow> None
       | Some row \<Rightarrow>
           if row_RevokedAt row = None
           then Some \<lparr>id_UserID = row_UserID row, id_OrgID = row_OrgID row, id_Role = row_Role row\<rparr> else None))"

lemma Authenticate_verified: "Authenticate sha Cockroach_LookupByHash tok w = (Inr i, w') \<Longrightarrow> verified sha w tok = Some i"
  by (drule cockroach_creds.Authenticate_Inr) (auto simp: verified_def)

lemma Lookup_keeps:
  fixes obs :: "'z admin_tables_scheme \<Rightarrow> 'x"
  assumes "\<And>w fs. obs (w\<lparr>t_faults := fs\<rparr>) = obs w"
  shows "keeps obs (Authenticate sha Cockroach_LookupByHash tok)"
  unfolding keeps_def
proof
  fix w :: "'z admin_tables_scheme"
  have "keeps obs (Cockroach_LookupByHash (sha tok))"
    unfolding Cockroach_LookupByHash_def using assms by (rule remote_db_keeps) simp
  moreover obtain r w' where l: "Cockroach_LookupByHash (sha tok) w = (r, w')" by fastforce
  ultimately have "obs w' = obs w" by (rule keepsD)
  with l show "obs (snd (Authenticate sha Cockroach_LookupByHash tok w)) = obs w"
    by (auto simp: Authenticate_def HashToken_def split: sum.splits option.splits)
qed

lemma Authenticate_outside: "keeps (\<lambda>w. (audit_outside w, adm_audit w)) (Authenticate sha Cockroach_LookupByHash tok)"
  by (rule Lookup_keeps) (simp add: audit_outside_def)

text \<open>The three ways through the first two interceptors.\<close>

lemma admin_grpc_cases:
  assumes "run (admin_grpc store Write s ctx req) w = (r, w')"
  obtains (unauthenticated) err where "Authenticate (ad_sha256_hex s) store (bearerToken ctx) w = (Inl err, w')"
      "r = Returned (Inl (StatusError Unauthenticated ''invalid or missing admin credential''))"
  | (denied) i w1 where "Authenticate (ad_sha256_hex s) store (bearerToken ctx) w = (Inr i, w1)" "id_Role i \<noteq> ''admin''"
      "r = Returned (Inl (StatusError PermissionDenied ''insufficient privileges for this action''))"
      "w' = snd (Write \<lparr>ent_Actor = id_UserID i, ent_Action = FullMethod req @ ''_denied'', ent_Target = FullMethod req,
              ent_Before = None, ent_After = None\<rparr> w1)"
  | (allowed) i w1 where "Authenticate (ad_sha256_hex s) store (bearerToken ctx) w = (Inr i, w1)" "id_Role i = ''admin''"
      "run (AuditUnaryInterceptor Write (FullMethod req) (admin_handler s) (WithIdentity ctx i) req) w1 = (r, w')"
proof -
  obtain a w1 where a: "Authenticate (ad_sha256_hex s) store (bearerToken ctx) w = (a, w1)" by fastforce
  have m: "Allowed role (FullMethod req) \<longleftrightarrow> role = ''admin''" for role
    by (cases req) (simp_all add: Allowed_iff methodPublishModelVersion_def methodStartRollout_def methodPromoteRollout_def
        methodAbortRollout_def methodCreateApiKey_def methodRevokeApiKey_def)
  note eval = admin_grpc_def authn_UnaryInterceptor_def authz_UnaryInterceptor_def m WithIdentity_def IdentityFromContext_def
  show thesis
  proof (cases a)
    case (Inl err)
    with assms a show thesis by (intro unauthenticated [of err]) (simp_all add: eval)
  next
    case (Inr i)
    show thesis
    proof (cases "id_Role i = ''admin''")
      case True
      with assms a Inr show thesis by (intro allowed [of i w1]) (simp_all add: eval)
    next
      case False
      with assms a Inr show thesis by (intro denied [of i w1]) (auto simp: eval split: prod.splits)
    qed
  qed
qed



text \<open>Every step of the chain respects the growth.\<close>

lemma Write_guar: "guar admin_grows (act (CockroachWriter_Write marshal jsonb e))"
  by (rule guar_act) (rule Write_grows)

lemma audit_interceptor_guar:
  assumes "\<And>ctx req. guar admin_grows (handler ctx req)"
  shows "guar admin_grows (AuditUnaryInterceptor (CockroachWriter_Write marshal jsonb) m handler ctx req)"
  unfolding AuditUnaryInterceptor_def audit_failure_def audit_success_def
  by (auto simp: assms split: option.splits call.splits sum.splits intro!: guar_bindP guar_bindO Write_guar)

lemma admin_grpc_guar:
  "guar admin_grows (admin_grpc Cockroach_LookupByHash (CockroachWriter_Write marshal jsonb)
     (admin_api sha rfc3 (cp_services hm mj aj valid rfc pt)) ctx req)"
proof -
  have h: "guar admin_grows (admin_handler (admin_api sha rfc3 (cp_services hm mj aj valid rfc pt)) ctx req)" for ctx req
    by (rule guar_mono [OF handler_guar handler_rel_grows])
  have a: "guar admin_grows (act (Authenticate sha Cockroach_LookupByHash tok))" for tok
  proof -
    have "keeps admin_part (Authenticate sha Cockroach_LookupByHash tok)" by (rule Lookup_keeps) (simp add: admin_part_updates)
    from guar_mono [OF guar_keeps_rel [OF this] handler_rel_grows] show ?thesis .
  qed
  show ?thesis
    unfolding admin_grpc_def authn_UnaryInterceptor_def authz_UnaryInterceptor_def admin_api_sel
    by (rule guar_bindE [OF a]) (auto split: option.splits intro!: guar_bindP Write_guar audit_interceptor_guar h)
qed

section \<open>Properties\<close>

text \<open>A small world for the witnesses: two users, one tenant, control-plane with the test signer.\<close>

definition demo_users :: "admin_user_row list" where
  "demo_users =
     [\<lparr>au_user_id = ''alice'', au_org_id = ''org'', au_role = ''admin'', au_credential_hash = ''secret-a'', au_revoked_at = None\<rparr>,
      \<lparr>au_user_id = ''bob'', au_org_id = ''org'', au_role = ''viewer'', au_credential_hash = ''secret-b'', au_revoked_at = None\<rparr>]"

definition demo_admin :: admin_tables where
  "demo_admin = \<lparr>es_kv = (\<lambda>_. None), es_faults = [], env_now = 9, env_uuids = [''v1'', ''a1''], t_manifest = [], t_active = [],
     t_faults = [], t_rollout = [], adm_users = demo_users, adm_tenants = [''org''], adm_audit = [], adm_keys = [],
     rpc_faults = [], rand_reads = [Inr [1, 171]]\<rparr>"

definition demo_ctx :: "string \<Rightarrow> rpc_ctx" where
  "demo_ctx v = \<lparr>ctx_metadata = Some (\<lambda>k. if k = ''authorization'' then [v] else []), ctx_identity = None\<rparr>"

definition demo_pt :: "admin_tables providertoken_Service" where
  "demo_pt = \<lparr>pt_reader = FakeSecretReader (\<lambda>_. None), pt_ttl = 0\<rparr>"

definition demo_admin_api :: "admin_tables admin_server" where
  "demo_admin_api = admin_api (\<lambda>t. t) (\<lambda>t. [])
     (cp_services (\<lambda>k p. k @ p) (\<lambda>e. me_VersionID e) (\<lambda>e. ae_Stable e) (\<lambda>j. j \<noteq> []) (\<lambda>t. []) demo_pt)"

definition demo_call :: "string \<Rightarrow> admin_req \<Rightarrow> (admin_tables, admin_resp result call) prog" where
  "demo_call v req = admin_grpc Cockroach_LookupByHash (CockroachWriter_Write (\<lambda>v. Inr ''{}'') (\<lambda>j. j)) demo_admin_api (demo_ctx v) req"

lemma bearer_eval:
  "bearerToken (demo_ctx ''Bearer secret-a'') = ''secret-a''" "bearerToken (demo_ctx ''bearer secret-b'') = ''secret-b''"
  by code_simp+

lemma verified_eval:
  "verified (\<lambda>t. t) demo_admin ''secret-a'' = Some \<lparr>id_UserID = ''alice'', id_OrgID = ''org'', id_Role = ''admin''\<rparr>"
  "verified (\<lambda>t. t) demo_admin ''secret-b'' = Some \<lparr>id_UserID = ''bob'', id_OrgID = ''org'', id_Role = ''viewer''\<rparr>"
  by (simp_all add: verified_def credential_def demo_admin_def demo_users_def)

lemma demo_sha: "ad_sha256_hex demo_admin_api = (\<lambda>t. t)"
  by (simp add: demo_admin_api_def admin_api_sel)

text \<open>
  C2. The gate. A command whose credential does not verify as an unrevoked user with the role admin is refused with one of
  two fixed statuses; nothing of the keys, the manifests, the active versions, the rollouts or etcd changes, whatever the
  handler and whatever calls fail; and the audit log gains at most one row, the denied attempt of a verified caller.
\<close>

theorem admin_gate:
  assumes "\<forall>i. verified (ad_sha256_hex s) w (bearerToken ctx) = Some i \<longrightarrow> id_Role i \<noteq> ''admin''"
    and "run (admin_grpc Cockroach_LookupByHash (CockroachWriter_Write marshal jsonb) s ctx req) w = (r, w')"
  shows "(r = Returned (Inl (StatusError Unauthenticated ''invalid or missing admin credential'')) \<or>
      r = Returned (Inl (StatusError PermissionDenied ''insufficient privileges for this action''))) \<and>
    audit_outside w' = audit_outside w \<and>
    (audit_trail w' = audit_trail w \<or>
     (\<exists>i. verified (ad_sha256_hex s) w (bearerToken ctx) = Some i \<and>
        audit_trail w' = audit_trail w @ [(id_UserID i, FullMethod req @ ''_denied'', FullMethod req, None, None)]))"
  using assms(2)
proof (cases rule: admin_grpc_cases)
  case (unauthenticated err)
  with keepsD [OF Authenticate_outside unauthenticated(1)] show ?thesis by (simp add: audit_trail_def)
next
  case (denied i w1)
  let ?e = "\<lparr>ent_Actor = id_UserID i, ent_Action = FullMethod req @ ''_denied'', ent_Target = FullMethod req,
    ent_Before = None, ent_After = None\<rparr>"
  have o: "audit_outside w1 = audit_outside w" "audit_trail w1 = audit_trail w"
    using keepsD [OF Authenticate_outside denied(1)] by (simp_all add: audit_trail_def)
  have v: "audit_view marshal jsonb ?e = (id_UserID i, FullMethod req @ ''_denied'', FullMethod req, None, None)"
    by (simp add: audit_view_def stored_json_def marshalNullable_def)
  have "audit_outside w' = audit_outside w1"
    using CockroachWriter_Write_cases [of marshal jsonb ?e w1 "fst (CockroachWriter_Write marshal jsonb ?e w1)" w'] denied(4) by simp
  with o v denied cockroach_audit.Write_cases [of marshal jsonb ?e w1] Authenticate_verified [OF denied(1)]
  show ?thesis by auto
next
  case (allowed i w1)
  with assms(1) Authenticate_verified [OF allowed(1)] show ?thesis by blast
qed

theorem admin_gate_witness:
  "audit_outside (snd (run (demo_call ''bearer secret-b'' (RevokeApiKeyRequest ''k1'')) demo_admin)) = audit_outside demo_admin"
proof -
  let ?p = "demo_call ''bearer secret-b'' (RevokeApiKeyRequest ''k1'')"
  obtain r w' where r: "run ?p demo_admin = (r, w')" by fastforce
  have v: "\<forall>i. verified (ad_sha256_hex demo_admin_api) demo_admin (bearerToken (demo_ctx ''bearer secret-b'')) = Some i \<longrightarrow> id_Role i \<noteq> ''admin''"
    by (simp add: demo_sha bearer_eval verified_eval)
  from admin_gate [OF v r [unfolded demo_call_def]] r show ?thesis by simp
qed

text \<open>
  C6. No unaudited success. When a command reports success, its credential verified as an unrevoked admin, and the audit
  log has gained exactly one row: the action, its target and its result under the verified caller. For a new API key the
  row holds its id, its tenant and its scopes, and nothing that depends on the raw key.
\<close>

theorem admin_success_audited:
  assumes "run (admin_grpc Cockroach_LookupByHash (CockroachWriter_Write marshal jsonb)
      (admin_api sha rfc3 (cp_services hm mj aj valid rfc pt)) ctx req) w = (Returned (Inr resp), w')"
  shows "\<exists>i. verified sha w (bearerToken ctx) = Some i \<and> id_Role i = ''admin'' \<and>
    audit_trail w' = audit_trail w @ [audit_view marshal jsonb (success_entry i req resp)]"
  using assms
proof (cases rule: admin_grpc_cases)
  case (allowed i w1)
  have c: "IdentityFromContext (WithIdentity ctx i) = Some i" by (simp add: IdentityFromContext_def WithIdentity_def)
  from cockroach_audit.audited_success [OF c allowed(3)] obtain w2 where
    h: "run (admin_handler (admin_api sha rfc3 (cp_services hm mj aj valid rfc pt)) (WithIdentity ctx i) req) w1 = (Returned (Inr resp), w2)"
    and t: "audit_trail w' = audit_trail w2 @ [audit_view marshal jsonb (success_entry i req resp)]" by blast
  have "audit_trail w2 = audit_trail w1" using handler_run [OF h] by (simp add: handler_rel_def audit_trail_def)
  moreover have "audit_trail w1 = audit_trail w" using keepsD [OF Authenticate_outside allowed(1)] by (simp add: audit_trail_def)
  ultimately show ?thesis using t allowed Authenticate_verified [OF allowed(1)] by (auto simp: admin_api_sel)
qed simp_all

lemmas demo_run =
  demo_call_def admin_grpc_def authn_UnaryInterceptor_def authz_UnaryInterceptor_def AuditUnaryInterceptor_def demo_sha bearer_eval
  Authenticate_def HashToken_def Cockroach_LookupByHash_def remote_def db_next_def WithIdentity_def IdentityFromContext_def
  Allowed_iff methodPublishModelVersion_def methodStartRollout_def methodPromoteRollout_def methodAbortRollout_def
  methodCreateApiKey_def methodRevokeApiKey_def mutatingMethods_def audit_specs audit_success_def audit_failure_def
  CockroachWriter_Write_def marshalNullable_def insert_audit_def draw_uuid_def admin_handlers

lemma demo_create_run:
  "run (demo_call ''Bearer secret-a'' (CreateApiKeyRequest ''org'' [''chat''])) demo_admin =
     (Returned (Inr (CreateApiKeyResponse ''v1'' ''oz_01ab'')),
      demo_admin\<lparr>env_uuids := [], rand_reads := [], adm_keys := [\<lparr>ak_key_id = ''v1'', ak_org_id = ''org'', ak_hash = ''oz_01ab'',
        ak_scopes = [''chat''], ak_created_at = 9, ak_revoked_at = None\<rparr>],
       adm_audit := [\<lparr>al_audit_id = ''a1'', al_actor = ''alice'', al_action = ''create_api_key'', al_target = ''org'',
         al_before_json = None, al_after_json = Some ''{}'', al_ts = 9\<rparr>]\<rparr>)"
proof -
  have x: "hex_encode [Suc 0, 171] = ''01ab''" by code_simp
  show ?thesis
    by (simp add: demo_run demo_admin_api_def admin_api_sel keys_CockroachStore_def keys_Cockroach_Create_def
        GenerateRawKey_def rand_Read_def HashRawKey_def x demo_admin_def demo_users_def)
qed

theorem admin_success_audited_witness:
  "\<exists>i. verified (\<lambda>t. t) demo_admin ''secret-a'' = Some i \<and> id_UserID i = ''alice'' \<and>
     audit_trail (snd (run (demo_call ''Bearer secret-a'' (CreateApiKeyRequest ''org'' [''chat''])) demo_admin)) =
       [(''alice'', ''create_api_key'', ''org'', None, Some ''{}'')]"
  using admin_success_audited [OF demo_create_run [unfolded demo_call_def demo_admin_api_def]]
  by (simp add: bearer_eval verified_eval demo_create_run) (simp add: audit_trail_def audit_view_def success_entry_def
      stored_json_def marshalNullable_def demo_admin_def)




text \<open>
  C34. In every interleaving of any number of commands by any callers, whatever calls fail or lose their replies, the audit
  log only grows at its end, every new row is attributed to a user of \<^verbatim>\<open>admin_user\<close>, the users stay as they are, no API
  key disappears or changes its hash, tenant or scopes, and a revoked key stays revoked.
\<close>

theorem admin_log_append_only:
  assumes "conc_reaches (map (\<lambda>(ctx, req). admin_grpc Cockroach_LookupByHash (CockroachWriter_Write marshal jsonb)
      (admin_api sha rfc3 (cp_services hm mj aj valid rfc pt)) ctx req) calls, w) (ps, w')"
  shows "(\<exists>rows. adm_audit w' = adm_audit w @ rows \<and> al_actor ` set rows \<subseteq> au_user_id ` set (adm_users w)) \<and>
    adm_users w' = adm_users w \<and> keys_grow (adm_keys w) (adm_keys w')"
proof -
  let ?p = "\<lambda>(ctx, req). admin_grpc Cockroach_LookupByHash (CockroachWriter_Write marshal jsonb)
      (admin_api sha rfc3 (cp_services hm mj aj valid rfc pt)) ctx req"
  have "\<forall>p \<in> set (map ?p calls). guar admin_grows p" by (simp add: admin_grpc_guar split: prod.splits)
  from conc_guar [OF assms this] have "admin_grows\<^sup>*\<^sup>* w w'" ..
  then have "admin_grows w w'" by (rule admin_grows_rtranclp)
  then show ?thesis by (simp add: admin_grows_def audit_grows_def user_ids_def)
qed

theorem admin_log_append_only_witness:
  "adm_users (snd (conc_run [0, 1, 0, 0, 1, 0, 1]
     (map (\<lambda>(ctx, req). admin_grpc Cockroach_LookupByHash (CockroachWriter_Write (\<lambda>v. Inr ''{}'') (\<lambda>j. j)) demo_admin_api ctx req)
       [(demo_ctx ''Bearer secret-a'', CreateApiKeyRequest ''org'' []), (demo_ctx ''bearer secret-b'', RevokeApiKeyRequest ''v1'')], demo_admin))) =
     demo_users"
proof -
  let ?c = "(map (\<lambda>(ctx, req). admin_grpc Cockroach_LookupByHash (CockroachWriter_Write (\<lambda>v. Inr ''{}'') (\<lambda>j. j)) demo_admin_api ctx req)
       [(demo_ctx ''Bearer secret-a'', CreateApiKeyRequest ''org'' []), (demo_ctx ''bearer secret-b'', RevokeApiKeyRequest ''v1'')], demo_admin)"
  let ?d = "conc_run [0, 1, 0, 0, 1, 0, 1] ?c"
  have "conc_reaches ?c (fst ?d, snd ?d)" unfolding prod.collapse by (rule conc_run_reaches)
  from admin_log_append_only [OF this [unfolded demo_admin_api_def]] show ?thesis
    unfolding demo_admin_api_def by (simp add: demo_admin_def)
qed

text \<open>
  In every sequence of operations on the keys, by any callers and with any failures and lost replies, at most one
  revocation of a key reports success, and after one has, every list that is read shows the key as revoked.
\<close>

theorem admin_key_revoked_once:
  assumes "distinct (map ak_key_id (adm_keys w))"
    and "key_run (keys_CockroachStore rfc) ops w = (tr, w')"
  shows "length (filter (revokes k) tr) \<le> 1 \<and>
    (\<forall>l w''. filter (revokes k) tr \<noteq> [] \<and> keys_Cockroach_List rfc w' = (Inr l, w'') \<longrightarrow>
       (\<exists>s \<in> set l. ks_KeyID s = k \<and> ks_RevokedAt s \<noteq> None))"
proof -
  have i: "api_keys_ok w" using assms(1) by (simp add: api_keys_ok_def)
  note once = cockroach_keys.run_revokes_once [OF i assms(2), of k]
  have "\<exists>s \<in> set l. ks_KeyID s = k \<and> ks_RevokedAt s \<noteq> None"
    if "filter (revokes k) tr \<noteq> []" "keys_Cockroach_List rfc w' = (Inr l, w'')" for l w''
  proof -
    have "api_keys w' k = Some False" using once that(1) by blast
    moreover have "keys_List (keys_CockroachStore rfc) w' = (Inr l, w'')" using that(2) by (simp add: keys_CockroachStore_def)
    moreover have "api_keys_ok w'" using cockroach_keys.run_inv [OF i assms(2)] .
    ultimately show ?thesis using cockroach_keys.List_shows [of w' rfc l w'' k False] by auto
  qed
  with once show ?thesis by blast
qed

definition demo_keys :: admin_tables where
  "demo_keys = demo_admin\<lparr>adm_keys := [\<lparr>ak_key_id = ''k1'', ak_org_id = ''org'', ak_hash = ''h'', ak_scopes = [], ak_created_at = 1,
     ak_revoked_at = None\<rparr>]\<rparr>"

theorem admin_key_revoked_once_witness:
  "length (filter (revokes ''k1'') (fst (key_run (keys_CockroachStore (\<lambda>t. [])) [KeyRevoke ''k1'', KeyList, KeyRevoke ''k1''] demo_keys))) \<le> 1"
proof -
  have d: "distinct (map ak_key_id (adm_keys demo_keys))" by (simp add: demo_keys_def)
  obtain tr w' where r: "key_run (keys_CockroachStore (\<lambda>t. [])) [KeyRevoke ''k1'', KeyList, KeyRevoke ''k1''] demo_keys = (tr, w')"
    by fastforce
  from admin_key_revoked_once [OF d r] r show ?thesis by simp
qed

end
