(* ===== verification/Prometheus.thy ===== *)
theory Prometheus
  imports Json_Codec
begin

text \<open>
  The Prometheus client of admin-api (\<^verbatim>\<open>services/admin-api/internal/promclient\<close>): an instant query whose answer has at most one sample.
  The escaping of the query in the URL and the decoding of the answer are defined; the HTTP client and float64 are arguments, a float64
  being a value of a type \<open>'f\<close> given with its parser, its zero and its tests for NaN and infinity.
\<close>

section \<open>Model\<close>

record promclient = pc_addr :: string

definition strings_TrimSuffix :: "string \<Rightarrow> string \<Rightarrow> string" where
  "strings_TrimSuffix s suffix =
     (if length suffix \<le> length s \<and> drop (length s - length suffix) s = suffix then take (length s - length suffix) s else s)"

definition promclient_New :: "string \<Rightarrow> promclient" where
  "promclient_New addr = \<lparr>pc_addr = strings_TrimSuffix addr ''/''\<rparr>"

subsection \<open>The query in the URL\<close>

text \<open>\<^verbatim>\<open>url.QueryEscape\<close>: letters, digits and four marks stay, a space becomes a plus, and every other byte becomes three characters.\<close>

definition url_unreserved :: "char \<Rightarrow> bool" where
  "url_unreserved c \<longleftrightarrow>
     48 \<le> byte c \<and> byte c \<le> 57 \<or> 65 \<le> byte c \<and> byte c \<le> 90 \<or> 97 \<le> byte c \<and> byte c \<le> 122 \<or> c \<in> {CHR ''-'', CHR ''_'', CHR ''.'', CHR ''~''}"

definition upper_hex :: "nat \<Rightarrow> char" where
  "upper_hex k = ''0123456789ABCDEF'' ! k"

fun url_QueryEscape :: "string \<Rightarrow> string" where
  "url_QueryEscape [] = []"
| "url_QueryEscape (c # s) =
     (if url_unreserved c then [c] else if c = CHR '' '' then ''+'' else [CHR ''%'', upper_hex (byte c div 16), upper_hex (byte c mod 16)]) @
     url_QueryEscape s"

subsection \<open>The answer\<close>

text \<open>A sample is the raw message in its second place, which is absent when the array is shorter.\<close>

record instantQueryResponse =
  iq_Status :: string
  iq_ResultType :: string
  iq_Result :: "json option list"
  iq_ErrorType :: string
  iq_Error :: string

definition dec_value :: "json option json_dec" where
  "dec_value v x =
     (case v of
        JsonNull \<Rightarrow> Inr x
      | JsonArr vs \<Rightarrow> Inr (case vs of _ # y # _ \<Rightarrow> Some y | _ \<Rightarrow> None)
      | _ \<Rightarrow> Inl (type_error ''[2]json.RawMessage'' (json_kind v)))"

definition prom_data_fields :: "(string \<times> json option list) json_field list" where
  "prom_data_fields =
     [in_field ''resultType'' (dec_string ''string'') fst (\<lambda>t d. (t, snd d)),
      in_field ''result'' (dec_slice ''[]struct'' (dec_only ''struct'' ''value'' dec_value) None) snd (\<lambda>r d. (fst d, r))]"

definition prom_fields :: "instantQueryResponse json_field list" where
  "prom_fields =
     [in_field ''status'' (dec_string ''string'') iq_Status (\<lambda>s r. r\<lparr>iq_Status := s\<rparr>),
      in_field ''data'' (dec_struct ''struct'' prom_data_fields) (\<lambda>r. (iq_ResultType r, iq_Result r))
        (\<lambda>d r. r\<lparr>iq_ResultType := fst d, iq_Result := snd d\<rparr>),
      in_field ''errorType'' (dec_string ''string'') iq_ErrorType (\<lambda>s r. r\<lparr>iq_ErrorType := s\<rparr>),
      in_field ''error'' (dec_string ''string'') iq_Error (\<lambda>s r. r\<lparr>iq_Error := s\<rparr>)]"

definition prom_zero :: instantQueryResponse where
  "prom_zero = \<lparr>iq_Status = [], iq_ResultType = [], iq_Result = [], iq_ErrorType = [], iq_Error = []\<rparr>"

text \<open>A response is its status, its body and how the body ends. \<open>pe_bad\<close> is the decoder's error on a broken text.\<close>

record ('w, 'f) prom_env =
  pe_NewRequest :: "string \<Rightarrow> go_error option"
  pe_Do :: "string \<Rightarrow> 'w \<Rightarrow> (int \<times> string \<times> go_error option) result \<times> 'w"
  pe_bad :: decode_errors
  pe_ParseFloat :: "string \<Rightarrow> 'f result"
  pe_IsNaN :: "'f \<Rightarrow> bool"
  pe_IsInf :: "'f \<Rightarrow> bool"
  pe_zero :: 'f

definition prom_sample :: "json option \<Rightarrow> string result" where
  "prom_sample v = (case v of None \<Rightarrow> Inl (Sentinel ''json'' ''syntax error'') | Some j \<Rightarrow> dec_string ''string'' j [])"

definition prom_value :: "('w, 'f) prom_env \<Rightarrow> instantQueryResponse \<Rightarrow> 'f result" where
  "prom_value env out =
     (if iq_Status out \<noteq> ''success''
      then Inl (ErrorString (''prometheus query failed: '' @ iq_ErrorType out @ '': '' @ iq_Error out))
      else (case iq_Result out of
         [] \<Rightarrow> Inr (pe_zero env)
       | sample # _ \<Rightarrow>
           (case prom_sample sample of
              Inl err \<Rightarrow> Inl (Wrap ''decoding prometheus sample: '' err [])
            | Inr raw \<Rightarrow>
                (case pe_ParseFloat env raw of
                   Inl err \<Rightarrow> Inl (Wrap (''parsing prometheus sample '' @ quoted raw @ '': '') err [])
                 | Inr v \<Rightarrow> Inr (if pe_IsNaN env v \<or> pe_IsInf env v then pe_zero env else v)))))"

definition QueryScalar :: "('w, 'f) prom_env \<Rightarrow> promclient \<Rightarrow> string \<Rightarrow> 'w \<Rightarrow> 'f result \<times> 'w" where
  "QueryScalar env c promQL w =
     (let endpoint = pc_addr c @ ''/api/v1/query?query='' @ url_QueryEscape promQL
      in case pe_NewRequest env endpoint of
           Some err \<Rightarrow> (Inl (Wrap ''building prometheus request: '' err []), w)
         | None \<Rightarrow>
             (case pe_Do env endpoint w of
                (Inl err, w1) \<Rightarrow> (Inl (Wrap ''querying prometheus: '' err []), w1)
              | (Inr (status, body, bodyErr), w1) \<Rightarrow>
                  if status \<noteq> 200 then (Inl (ErrorString (''prometheus returned HTTP '' @ show_int status)), w1)
                  else (case json_Decode (pe_bad env) (dec_struct ''promclient.instantQueryResponse'' prom_fields) prom_zero body bodyErr of
                     Inl err \<Rightarrow> (Inl (Wrap ''decoding prometheus response: '' err []), w1)
                   | Inr (out, _) \<Rightarrow> (prom_value env out, w1))))"

record 'f FakeQuerier =
  fq_Results :: "string \<rightharpoonup> 'f"
  fq_Err :: "go_error option"
  fq_Queries :: "string list"
  fq_Fallback :: 'f

definition FakeQuerier_QueryScalar :: "string \<Rightarrow> 'f FakeQuerier \<Rightarrow> 'f result \<times> 'f FakeQuerier" where
  "FakeQuerier_QueryScalar promQL f0 =
     (let f = f0\<lparr>fq_Queries := fq_Queries f0 @ [promQL]\<rparr>
      in case fq_Err f of
           Some err \<Rightarrow> (Inl err, f)
         | None \<Rightarrow> (Inr (case fq_Results f promQL of Some v \<Rightarrow> v | None \<Rightarrow> fq_Fallback f), f))"

section \<open>Facts\<close>

text \<open>The reference for what the escaped text means, as the server reads it.\<close>

definition unhex_upper :: "char \<Rightarrow> nat option" where
  "unhex_upper c = (let k = length (takeWhile (\<lambda>d. d \<noteq> c) ''0123456789ABCDEF'') in if k < 16 then Some k else None)"

fun url_unescape :: "string \<Rightarrow> string option" where
  "url_unescape [] = Some []"
| "url_unescape (c # s) =
     (if c = CHR ''%'' then
        (case s of
           h # l # r \<Rightarrow>
             (case (unhex_upper h, unhex_upper l, url_unescape r) of
                (Some i, Some j, Some t) \<Rightarrow> Some (char_of (16 * i + j) # t)
              | _ \<Rightarrow> None)
         | _ \<Rightarrow> None)
      else map_option (\<lambda>t. (if c = CHR ''+'' then CHR '' '' else c) # t) (url_unescape s))"

lemma upper_hex_value: "k < 16 \<Longrightarrow> unhex_upper (upper_hex k) = Some k"
proof -
  have "\<forall>k \<in> {0..<16}. unhex_upper (upper_hex k) = Some k" by code_simp
  then show "k < 16 \<Longrightarrow> unhex_upper (upper_hex k) = Some k" by simp
qed

lemma url_unescape_escape: "url_unescape (url_QueryEscape s) = Some s"
proof (induction s)
  case (Cons c s)
  have "byte c < 256" by simp
  then have "byte c div 16 < 16" "byte c mod 16 < 16" by (simp_all add: less_mult_imp_div_less)
  then have hex: "unhex_upper (upper_hex (byte c div 16)) = Some (byte c div 16)" "unhex_upper (upper_hex (byte c mod 16)) = Some (byte c mod 16)"
    by (simp_all add: upper_hex_value)
  have whole: "char_of (16 * (byte c div 16) + byte c mod 16) = c" by simp
  consider "url_unreserved c" | "c = CHR '' ''" | "\<not> url_unreserved c" "c \<noteq> CHR '' ''" by blast
  then show ?case
  proof cases
    case 1
    then have "c \<noteq> CHR ''%''" "c \<noteq> CHR ''+''" by (auto simp: url_unreserved_def)
    with 1 Cons show ?thesis by simp
  next
    case 2
    then have "\<not> url_unreserved c" by (simp add: url_unreserved_def)
    with 2 Cons show ?thesis by simp
  next
    case 3
    then have "url_QueryEscape (c # s) = CHR ''%'' # upper_hex (byte c div 16) # upper_hex (byte c mod 16) # url_QueryEscape s" by simp
    then show ?thesis by (simp only: url_unescape.simps list.case hex whole Cons option.case prod.case refl if_True)
  qed
qed simp

text \<open>What Prometheus answers to an instant query: a vector of samples, each with its labels.\<close>

definition sample_json :: "json \<times> string \<Rightarrow> json" where
  "sample_json s = JsonObj [(''metric'', JsonObj []), (''value'', JsonArr [fst s, JsonStr (snd s)])]"

definition vector_json :: "(json \<times> string) list \<Rightarrow> json" where
  "vector_json samples =
     JsonObj [(''status'', JsonStr ''success''),
              (''data'', JsonObj [(''resultType'', JsonStr ''vector''), (''result'', JsonArr (map sample_json samples))])]"

lemma prom_names:
  "foldName ''status'' = ''STATUS''" "foldName ''data'' = ''DATA''" "foldName ''errorType'' = ''ERRORTYPE''" "foldName ''error'' = ''ERROR''"
  "foldName ''resultType'' = ''RESULTTYPE''" "foldName ''result'' = ''RESULT''" "foldName ''value'' = ''VALUE''" "foldName ''metric'' = ''METRIC''"
  by (simp_all add: fold_eval)

lemma vector_json_wf:
  assumes "\<forall>s \<in> set samples. wf_json (fst s) \<and> json_depth (fst s) = 0 \<and> utf8_valid (snd s)"
  shows "wf_json (vector_json samples)" "json_depth (vector_json samples) \<le> maxNestingDepth"
proof -
  have "utf8_valid ''status''" "utf8_valid ''data''" "utf8_valid ''resultType''" "utf8_valid ''result''" "utf8_valid ''value''"
    "utf8_valid ''metric''" "utf8_valid ''success''" "utf8_valid ''vector''"
    by (simp_all add: utf8_valid_ascii)
  then show "wf_json (vector_json samples)" "json_depth (vector_json samples) \<le> maxNestingDepth"
    using assms by (auto simp: vector_json_def sample_json_def maxNestingDepth_def foldr_max_le)
qed

lemma dec_vector:
  "dec_struct t prom_fields (vector_json samples) prom_zero =
     Inr \<lparr>iq_Status = ''success'', iq_ResultType = ''vector'', iq_Result = map (\<lambda>s. Some (JsonStr (snd s))) samples, iq_ErrorType = [], iq_Error = []\<rparr>"
proof -
  have "dec_elems (dec_only u ''value'' dec_value) None (map sample_json samples) [] = Inr (map (\<lambda>s. Some (JsonStr (snd s))) samples)" for u
    by (induction samples) (simp_all add: sample_json_def dec_value_def prom_names)
  then show ?thesis by (simp add: vector_json_def prom_fields_def prom_data_fields_def prom_zero_def prom_names)
qed

section \<open>Properties\<close>

text \<open>
  C40. An instant query over the wire. The server is asked exactly the query, as it reads the URL, and the result is the number of the first sample of its
  answer; it is zero when there is no sample, and when the sample is a NaN or an infinity, which JSON cannot have as numbers but
  Prometheus writes as text.
\<close>

theorem prometheus_scalar:
  assumes "\<forall>s \<in> set samples. wf_json (fst s) \<and> json_depth (fst s) = 0 \<and> utf8_valid (snd s)"
    and "\<forall>s \<in> set samples. pe_ParseFloat env (snd s) = Inr (val s)"
    and "\<And>url. pe_NewRequest env url = None"
    and "\<And>url. pe_Do env url w = (if url_unescape (drop (length (pc_addr c @ ''/api/v1/query?query='')) url) = Some promQL
           then Inr (200, json_print (vector_json samples) @ [newline], None) else Inr (400, [], None), w')"
  shows "QueryScalar env c promQL w =
    (Inr (case samples of [] \<Rightarrow> pe_zero env
          | s # _ \<Rightarrow> if pe_IsNaN env (val s) \<or> pe_IsInf env (val s) then pe_zero env else val s), w')"
proof -
  have "ends [newline]" by (simp add: num_char_def is_digit_def)
  note d = json_Decode_print [OF vector_json_wf [OF assms(1)] vector_json_def this]
  have "json_Decode (pe_bad env) (dec_struct t prom_fields) prom_zero (json_print (vector_json samples) @ [newline]) None =
      Inr (\<lparr>iq_Status = ''success'', iq_ResultType = ''vector'', iq_Result = map (\<lambda>s. Some (JsonStr (snd s))) samples, iq_ErrorType = [],
        iq_Error = []\<rparr>, [newline])" for t
    unfolding d dec_vector by simp
  with assms(2) show ?thesis
    by (cases samples) (simp_all add: QueryScalar_def assms(3,4) url_unescape_escape prom_value_def prom_sample_def)
qed

text \<open>A server that knows one query; numbers are kept as their texts.\<close>

definition demo_prom :: "string \<Rightarrow> (nat, string) prom_env" where
  "demo_prom answer =
     \<lparr>pe_NewRequest = (\<lambda>_. None),
      pe_Do = (\<lambda>url w. (if url_unescape (drop (length (''http://p'' @ ''/api/v1/query?query='')) url) = Some ''sum(rate(x[5m])) + 1''
        then Inr (200, json_print (vector_json [(JsonNum ''1719'', answer)]) @ [newline], None) else Inr (400, [], None), Suc w)),
      pe_bad = (\<lambda>_ _. Sentinel ''io'' ''unexpected EOF''), pe_ParseFloat = Inr, pe_IsNaN = (\<lambda>v. v = ''NaN''), pe_IsInf = (\<lambda>v. v = ''+Inf''),
      pe_zero = ''0''\<rparr>"

theorem prometheus_scalar_witness:
  "QueryScalar (demo_prom ''0.25'') (promclient_New ''http://p/'') ''sum(rate(x[5m])) + 1'' 0 = (Inr ''0.25'', 1) \<and>
   QueryScalar (demo_prom ''NaN'') (promclient_New ''http://p/'') ''sum(rate(x[5m])) + 1'' 0 = (Inr ''0'', 1)"
proof -
  have p: "pc_addr (promclient_New ''http://p/'') = ''http://p''" by code_simp
  have v: "utf8_valid ''0.25''" "utf8_valid ''NaN''" "scan_number ''1719'' = Some (''1719'', [])" by code_simp+
  have q: "QueryScalar (demo_prom a) (promclient_New ''http://p/'') ''sum(rate(x[5m])) + 1'' 0 =
      (Inr (if a = ''NaN'' \<or> a = ''+Inf'' then ''0'' else a), 1)" if "utf8_valid a" for a
    using prometheus_scalar [where samples = "[(JsonNum ''1719'', a)]" and env = "demo_prom a" and val = snd and w = 0 and w' = 1
        and c = "promclient_New ''http://p/''" and promQL = "''sum(rate(x[5m])) + 1''", unfolded p] that v(3)
    by (simp add: demo_prom_def del: url_unescape.simps json_print.simps)
  show ?thesis using q [OF v(1)] q [OF v(2)] by simp
qed

end
