(* ===== verification/Admin_Graph.thy ===== *)
theory Admin_Graph
  imports Gateway Admin_Chain Prometheus
begin

text \<open>
  The queries of admin-api: the resolvers of \<^verbatim>\<open>services/admin-api/internal/graph/resolver.go\<close>. The interface to control-plane has only its reads; \<open>cp_reader\<close> is that interface with the
  handlers of \<open>Control_Server\<close> at the other end. The statuses of providers are the messages of \<open>Gateway\<close>.

  A float64 is a value of a type \<open>'f\<close> given with its zero and its tests for NaN and infinity.
\<close>

section \<open>Model\<close>

subsection \<open>The resolvers\<close>

record 'w controlReader =
  cr_ListModels :: "('w, (string \<times> string) list result) prog"
  cr_GetModelManifest :: "string \<Rightarrow> string \<Rightarrow> ('w, GetModelManifestResponse result) prog"
  cr_GetRolloutStatus :: "string \<Rightarrow> string \<Rightarrow> ('w, GetRolloutStatusResponse result) prog"
  cr_ListRollouts :: "string \<Rightarrow> int \<Rightarrow> ('w, GetRolloutStatusResponse list result) prog"

record ('w, 'f) graph_Resolver =
  rv_Keys :: "'w apikeys_Store"
  rv_Control :: "'w controlReader"
  rv_Providers :: "'w \<Rightarrow> pb_ProviderStatus list result \<times> 'w"
  rv_Audit :: "int \<Rightarrow> string \<Rightarrow> string \<Rightarrow> 'w \<Rightarrow> audit_Record list result \<times> 'w"
  rv_QueryScalar :: "string \<Rightarrow> 'w \<Rightarrow> 'f result \<times> 'w"
  rv_zero :: 'f

record AdminUser =
  gu_ID :: string
  gu_OrgID :: string
  gu_Role :: string

record ModelSummary =
  ms_ModelRef :: string
  ms_ActiveVersionID :: string

record ModelManifest =
  mm_VersionID :: string
  mm_ModelRef :: string
  mm_SpecJSON :: string
  mm_Signature :: string
  mm_CreatedBy :: string
  mm_CreatedAt :: string
  mm_Status :: string

record graph_Rollout =
  gro_RolloutID :: string
  gro_ModelRef :: string
  gro_VersionID :: string
  gro_StrategyJSON :: string
  gro_Stage :: string
  gro_Status :: string
  gro_CanaryPercent :: int
  gro_StartedAt :: string
  gro_EndedAt :: "string option"

record APIKeySummary =
  gk_KeyID :: string
  gk_OrgID :: string
  gk_Scopes :: "string list"
  gk_CreatedAt :: string
  gk_RevokedAt :: "string option"

record AuditEntry =
  ga_AuditID :: string
  ga_Actor :: string
  ga_Action :: string
  ga_Target :: string
  ga_BeforeJSON :: "string option"
  ga_AfterJSON :: "string option"
  ga_Ts :: string

record graph_ProviderHealth =
  gp_Provider :: string
  gp_Healthy :: bool
  gp_QuotaHeadroom :: rat
  gp_BreakerState :: string

record 'f DashboardMetrics =
  dm_RequestsPerSecond :: 'f
  dm_P95LatencyMs :: 'f
  dm_ErrorRate :: 'f
  dm_ActiveModelsCount :: nat
  dm_ActiveRolloutsCount :: nat

definition graph_Me :: "rpc_ctx \<Rightarrow> AdminUser result" where
  "graph_Me ctx =
     (case IdentityFromContext ctx of
        None \<Rightarrow> Inl (ErrorString ''no verified identity'')
      | Some i \<Rightarrow> Inr \<lparr>gu_ID = id_UserID i, gu_OrgID = id_OrgID i, gu_Role = id_Role i\<rparr>)"

definition graph_Models :: "('w, 'f) graph_Resolver \<Rightarrow> ('w, ModelSummary list result) prog" where
  "graph_Models r =
     bindE (cr_ListModels (rv_Control r)) (\<lambda>err. Ret (Inl err))
       (\<lambda>models. Ret (Inr (map (\<lambda>(m, v). \<lparr>ms_ModelRef = m, ms_ActiveVersionID = v\<rparr>) models)))"

definition fetchManifest :: "('w, 'f) graph_Resolver \<Rightarrow> string \<Rightarrow> string \<Rightarrow> ('w, ModelManifest result) prog" where
  "fetchManifest r modelRef versionID =
     bindE (cr_GetModelManifest (rv_Control r) modelRef versionID) (\<lambda>err. Ret (Inl err))
       (\<lambda>p. Ret (Inr \<lparr>mm_VersionID = gm_VersionId p, mm_ModelRef = gm_ModelRef p, mm_SpecJSON = gm_SpecJson p,
          mm_Signature = gm_Signature p, mm_CreatedBy = gm_CreatedBy p, mm_CreatedAt = gm_CreatedAt p, mm_Status = gm_Status p\<rparr>))"

definition graph_ModelDraft :: "('w, 'f) graph_Resolver \<Rightarrow> string \<Rightarrow> ('w, ModelManifest result) prog" where
  "graph_ModelDraft r modelRef = fetchManifest r modelRef []"

definition graph_ModelVersion :: "('w, 'f) graph_Resolver \<Rightarrow> string \<Rightarrow> string option \<Rightarrow> ('w, ModelManifest result) prog" where
  "graph_ModelVersion r modelRef versionID = fetchManifest r modelRef (case versionID of None \<Rightarrow> [] | Some v \<Rightarrow> v)"

definition isNotFound :: "go_error \<Rightarrow> bool" where
  "isNotFound err = (case err of StatusError code _ \<Rightarrow> code = NotFound | _ \<Rightarrow> False)"

definition rolloutFromProto :: "GetRolloutStatusResponse \<Rightarrow> graph_Rollout" where
  "rolloutFromProto p =
     \<lparr>gro_RolloutID = gr_RolloutId p, gro_ModelRef = gr_ModelRef p, gro_VersionID = gr_VersionId p, gro_StrategyJSON = [],
      gro_Stage = gr_Stage p, gro_Status = gr_Status p, gro_CanaryPercent = gr_CanaryPercent p, gro_StartedAt = gr_StartedAt p,
      gro_EndedAt = (if gr_EndedAt p \<noteq> [] then Some (gr_EndedAt p) else None)\<rparr>"

definition fetchRollout :: "('w, 'f) graph_Resolver \<Rightarrow> string \<Rightarrow> string \<Rightarrow> ('w, graph_Rollout option result) prog" where
  "fetchRollout r rolloutId modelRef =
     bindE (cr_GetRolloutStatus (rv_Control r) rolloutId modelRef)
       (\<lambda>err. if isNotFound err then Ret (Inr None) else Ret (Inl err))
       (\<lambda>p. Ret (Inr (Some (rolloutFromProto p))))"

definition resolver_Rollout :: "('w, 'f) graph_Resolver \<Rightarrow> string \<Rightarrow> ('w, graph_Rollout option result) prog" where
  "resolver_Rollout r rolloutID = fetchRollout r rolloutID []"

definition RolloutByModel :: "('w, 'f) graph_Resolver \<Rightarrow> string \<Rightarrow> ('w, graph_Rollout option result) prog" where
  "RolloutByModel r modelRef = fetchRollout r [] modelRef"

definition resolver_Rollouts :: "('w, 'f) graph_Resolver \<Rightarrow> ('w, graph_Rollout list result) prog" where
  "resolver_Rollouts r =
     bindE (cr_ListRollouts (rv_Control r) [] 0) (\<lambda>err. Ret (Inl err)) (\<lambda>ps. Ret (Inr (map rolloutFromProto ps)))"

definition resolver_APIKeys :: "('w, 'f) graph_Resolver \<Rightarrow> ('w, APIKeySummary list result) prog" where
  "resolver_APIKeys r =
     bindE (act (keys_List (rv_Keys r))) (\<lambda>err. Ret (Inl err))
       (\<lambda>summaries. Ret (Inr (map (\<lambda>s. \<lparr>gk_KeyID = ks_KeyID s, gk_OrgID = ks_OrgID s, gk_Scopes = ks_Scopes s,
          gk_CreatedAt = ks_CreatedAt s, gk_RevokedAt = ks_RevokedAt s\<rparr>) summaries)))"

definition QueryRequestsPerSecond :: string where
  "QueryRequestsPerSecond = ''sum(rate(edge_gateway_requests_total[5m]))''"

definition QueryP95LatencyMs :: string where
  "QueryP95LatencyMs = ''histogram_quantile(0.95, sum by (le) (rate(edge_gateway_request_duration_seconds_bucket[5m]))) * 1000''"

definition QueryErrorRate :: string where
  "QueryErrorRate = ''sum(rate(edge_gateway_requests_total{status=~'' @ quoted ''5..'' @ ''}[5m])) / sum(rate(edge_gateway_requests_total[5m]))''"

definition scalarOrZero :: "('w, 'f) graph_Resolver \<Rightarrow> string \<Rightarrow> ('w, 'f) prog" where
  "scalarOrZero r promQL =
     bindE (act (rv_QueryScalar r promQL)) (\<lambda>err. Ret (rv_zero r)) (\<lambda>v. Ret v)"

definition resolver_DashboardMetrics :: "('w, 'f) graph_Resolver \<Rightarrow> ('w, 'f DashboardMetrics result) prog" where
  "resolver_DashboardMetrics r =
     bindP (scalarOrZero r QueryRequestsPerSecond) (\<lambda>rps.
     bindP (scalarOrZero r QueryP95LatencyMs) (\<lambda>p95.
     bindP (scalarOrZero r QueryErrorRate) (\<lambda>errRate.
     bindE (cr_ListModels (rv_Control r)) (\<lambda>err. Ret (Inl err))
       (\<lambda>models.
     bindE (cr_ListRollouts (rv_Control r) [] 0) (\<lambda>err. Ret (Inl err))
       (\<lambda>rollouts. Ret (Inr \<lparr>dm_RequestsPerSecond = rps, dm_P95LatencyMs = p95, dm_ErrorRate = errRate,
          dm_ActiveModelsCount = length models,
          dm_ActiveRolloutsCount = length (filter (\<lambda>ro. gr_Status ro = ''running'') rollouts)\<rparr>))))))"

definition resolver_AuditLog ::
  "('w, 'f) graph_Resolver \<Rightarrow> int option \<Rightarrow> string option \<Rightarrow> string option \<Rightarrow> ('w, AuditEntry list result) prog" where
  "resolver_AuditLog r limit actor action =
     bindE (act (rv_Audit r (case limit of None \<Rightarrow> 0 | Some l \<Rightarrow> l) (case actor of None \<Rightarrow> [] | Some a \<Rightarrow> a)
                 (case action of None \<Rightarrow> [] | Some a \<Rightarrow> a)))
       (\<lambda>err. Ret (Inl err))
       (\<lambda>records. Ret (Inr (map (\<lambda>x. \<lparr>ga_AuditID = rec_AuditID x, ga_Actor = rec_Actor x, ga_Action = rec_Action x,
          ga_Target = rec_Target x, ga_BeforeJSON = rec_BeforeJSON x, ga_AfterJSON = rec_AfterJSON x, ga_Ts = rec_TS x\<rparr>) records)))"

definition breakerStateName :: "pb_BreakerState \<Rightarrow> string" where
  "breakerStateName s =
     (case s of BREAKER_STATE_CLOSED \<Rightarrow> ''closed'' | BREAKER_STATE_OPEN \<Rightarrow> ''open'' | BREAKER_STATE_HALF_OPEN \<Rightarrow> ''half_open''
      | _ \<Rightarrow> ''unspecified'')"

definition resolver_ProviderHealth :: "('w, 'f) graph_Resolver \<Rightarrow> ('w, graph_ProviderHealth list result) prog" where
  "resolver_ProviderHealth r =
     bindE (act (rv_Providers r)) (\<lambda>err. Ret (Inl err))
       (\<lambda>statuses. Ret (Inr (map (\<lambda>s. \<lparr>gp_Provider = ps_Provider s, gp_Healthy = (ps_BreakerState s = BREAKER_STATE_CLOSED),
          gp_QuotaHeadroom = ps_QuotaHeadroom s, gp_BreakerState = breakerStateName (ps_BreakerState s)\<rparr>) statuses)))"

text \<open>The interface to control-plane with its handlers at the other end, and the resolver as \<^verbatim>\<open>main.go\<close> wires it.\<close>

definition cp_reader :: "(int \<Rightarrow> string) \<Rightarrow> 'z admin_tables_scheme cp_server \<Rightarrow> 'z admin_tables_scheme controlReader" where
  "cp_reader rfc s =
     \<lparr>cr_ListModels = rpc_call (server_ListModels s),
      cr_GetModelManifest = (\<lambda>m v. rpc_call (server_GetModelManifest rfc s m v)),
      cr_GetRolloutStatus = (\<lambda>i m. rpc_call (server_GetRolloutStatus rfc s i m)),
      cr_ListRollouts = (\<lambda>m l. rpc_call (server_ListRollouts rfc s m l))\<rparr>"

definition admin_resolver ::
  "(int \<Rightarrow> string) \<Rightarrow> 'z admin_tables_scheme cp_server \<Rightarrow> ('z admin_tables_scheme \<Rightarrow> pb_ProviderStatus list result \<times> 'z admin_tables_scheme)
     \<Rightarrow> (string \<Rightarrow> 'z admin_tables_scheme \<Rightarrow> 'f result \<times> 'z admin_tables_scheme) \<Rightarrow> 'f \<Rightarrow> ('z admin_tables_scheme, 'f) graph_Resolver" where
  "admin_resolver rfc cp providers query zero =
     \<lparr>rv_Keys = keys_CockroachStore rfc, rv_Control = cp_reader rfc cp, rv_Providers = providers,
      rv_Audit = CockroachReader_List rfc, rv_QueryScalar = query, rv_zero = zero\<rparr>"

section \<open>Facts\<close>

text \<open>What a query may touch: the fault lists.\<close>

definition all_tables where
  "all_tables w = (audit_outside w, adm_audit w)"

lemma all_tables_updates:
  "all_tables (w\<lparr>t_faults := a\<rparr>) = all_tables w" "all_tables (w\<lparr>rpc_faults := a\<rparr>) = all_tables w"
  by (simp_all add: all_tables_def audit_outside_def)

lemma db_read_keeps: "keeps all_tables (remote fail db_next (\<lambda>w. (q w, w)))"
  by (rule remote_db_keeps) (simp_all add: all_tables_updates)

lemma reads_keep:
  "keeps all_tables (Cockroach_ListActive)" "keeps all_tables (Cockroach_GetManifestByVersion v)"
  "keeps all_tables (Cockroach_GetActiveManifest m)" "keeps all_tables (Cockroach_GetRollout i)"
  "keeps all_tables (Cockroach_GetMostRecentRolloutByModelRef m)" "keeps all_tables (Cockroach_ListRollouts m l)"
  "keeps all_tables (keys_Cockroach_List rfc)" "keeps all_tables (CockroachReader_List rfc l a b)"
  "keeps all_tables rpc_next"
  unfolding Cockroach_ListActive_def Cockroach_GetManifestByVersion_def Cockroach_GetActiveManifest_def Cockroach_GetRollout_def
    Cockroach_GetMostRecentRolloutByModelRef_def Cockroach_ListRollouts_def keys_Cockroach_List_def CockroachReader_List_def
  by (rule remote_db_keeps; simp add: all_tables_updates)+
    (simp add: keeps_def rpc_next_def all_tables_updates split: list.splits)

abbreviation unchanged :: "'z admin_tables_scheme \<Rightarrow> 'z admin_tables_scheme \<Rightarrow> bool" where
  "unchanged \<equiv> \<lambda>w w'. all_tables w' = all_tables w"

lemma rpc_call_unchanged: "guar unchanged p \<Longrightarrow> guar unchanged (rpc_call p)"
  unfolding rpc_call_def
  by (rule guar_bindP [OF guar_keeps [OF reads_keep(9)]]) (auto split: fault.splits)

lemma cp_reader_unchanged:
  "guar unchanged (cr_ListModels (cp_reader rfc3 (cp_services hm mj aj valid rfc pt)))"
  "guar unchanged (cr_GetModelManifest (cp_reader rfc3 (cp_services hm mj aj valid rfc pt)) m v)"
  "guar unchanged (cr_GetRolloutStatus (cp_reader rfc3 (cp_services hm mj aj valid rfc pt)) i m)"
  "guar unchanged (cr_ListRollouts (cp_reader rfc3 (cp_services hm mj aj valid rfc pt)) m l)"
proof -
  note eval = cp_reader_def cp_services_def cp_registry_def registry_CockroachStore_def FakeSigner_def cp_rollout_def rollout_CockroachStore_def
  show "guar unchanged (cr_ListModels (cp_reader rfc3 (cp_services hm mj aj valid rfc pt)))"
    by (auto simp: eval server_ListModels_def ListModels_def intro!: rpc_call_unchanged guar_bindE guar_keeps reads_keep)
  show "guar unchanged (cr_GetModelManifest (cp_reader rfc3 (cp_services hm mj aj valid rfc pt)) m v)"
    by (auto simp: eval server_GetModelManifest_def GetModelManifest_def
        intro!: rpc_call_unchanged guar_bindE guar_keeps reads_keep FakeSigner_keeps)
  show "guar unchanged (cr_GetRolloutStatus (cp_reader rfc3 (cp_services hm mj aj valid rfc pt)) i m)"
    by (auto simp: eval server_GetRolloutStatus_def GetRolloutStatus_def split: option.splits
        intro!: rpc_call_unchanged guar_bindE guar_keeps reads_keep)
  show "guar unchanged (cr_ListRollouts (cp_reader rfc3 (cp_services hm mj aj valid rfc pt)) m l)"
    by (auto simp: eval server_ListRollouts_def rollout_ListRollouts_def Let_def
        intro!: rpc_call_unchanged guar_bindE guar_keeps reads_keep)
qed

text \<open>The fields of the type \<^verbatim>\<open>Query\<close>.\<close>

datatype graph_query =
    QMe | QModels | QModelDraft string | QModelVersion string "string option" | QRollout string | QRolloutByModel string
  | QRollouts | QAPIKeys | QDashboardMetrics | QAuditLog "int option" "string option" "string option" | QProviderHealth

fun graph_serve :: "('w, 'f) graph_Resolver \<Rightarrow> rpc_ctx \<Rightarrow> graph_query \<Rightarrow> ('w, unit) prog" where
  "graph_serve r ctx QMe = Ret ()"
| "graph_serve r ctx QModels = bindP (graph_Models r) (\<lambda>_. Ret ())"
| "graph_serve r ctx (QModelDraft m) = bindP (graph_ModelDraft r m) (\<lambda>_. Ret ())"
| "graph_serve r ctx (QModelVersion m v) = bindP (graph_ModelVersion r m v) (\<lambda>_. Ret ())"
| "graph_serve r ctx (QRollout i) = bindP (resolver_Rollout r i) (\<lambda>_. Ret ())"
| "graph_serve r ctx (QRolloutByModel m) = bindP (RolloutByModel r m) (\<lambda>_. Ret ())"
| "graph_serve r ctx QRollouts = bindP (resolver_Rollouts r) (\<lambda>_. Ret ())"
| "graph_serve r ctx QAPIKeys = bindP (resolver_APIKeys r) (\<lambda>_. Ret ())"
| "graph_serve r ctx QDashboardMetrics = bindP (resolver_DashboardMetrics r) (\<lambda>_. Ret ())"
| "graph_serve r ctx (QAuditLog l a b) = bindP (resolver_AuditLog r l a b) (\<lambda>_. Ret ())"
| "graph_serve r ctx QProviderHealth = bindP (resolver_ProviderHealth r) (\<lambda>_. Ret ())"

lemmas resolver_defs = graph_Models_def fetchManifest_def graph_ModelDraft_def graph_ModelVersion_def fetchRollout_def
  resolver_Rollout_def RolloutByModel_def resolver_Rollouts_def resolver_APIKeys_def scalarOrZero_def
  resolver_DashboardMetrics_def resolver_AuditLog_def resolver_ProviderHealth_def

lemma admin_resolver_sel:
  "rv_Keys (admin_resolver rfc cp prov query z) = keys_CockroachStore rfc"
  "rv_Control (admin_resolver rfc cp prov query z) = cp_reader rfc cp"
  "rv_Providers (admin_resolver rfc cp prov query z) = prov"
  "rv_Audit (admin_resolver rfc cp prov query z) = CockroachReader_List rfc"
  "rv_QueryScalar (admin_resolver rfc cp prov query z) = query"
  by (simp_all add: admin_resolver_def)

text \<open>What the resolvers need of control-plane to be queries: its reads read.\<close>

locale control_reads =
  fixes c :: "'z admin_tables_scheme controlReader"
  assumes ListModels_reads: "guar unchanged (cr_ListModels c)"
    and GetModelManifest_reads: "guar unchanged (cr_GetModelManifest c m v)"
    and GetRolloutStatus_reads: "guar unchanged (cr_GetRolloutStatus c i m)"
    and ListRollouts_reads: "guar unchanged (cr_ListRollouts c m l)"
begin

lemma graph_serve_unchanged:
  assumes "rv_Control r = c" "rv_Keys r = keys_CockroachStore rfc3" "rv_Audit r = CockroachReader_List rfc3"
    and "keeps all_tables (rv_Providers r)" "\<And>ql. keeps all_tables (rv_QueryScalar r ql)"
  shows "guar unchanged (graph_serve r ctx q)"
proof -
  have k: "guar unchanged (act (keys_List (keys_CockroachStore rfc3)))"
    by (simp add: keys_CockroachStore_def guar_keeps [OF reads_keep(7)])
  show ?thesis
    by (cases q) (auto simp: resolver_defs assms(1-3)
        intro!: guar_bindP guar_bindE ListModels_reads GetModelManifest_reads GetRolloutStatus_reads ListRollouts_reads
          k guar_keeps [OF assms(4)] guar_keeps [OF assms(5)] guar_keeps [OF reads_keep(8)])
qed

end

interpretation cp_reads: control_reads "cp_reader rfc3 (cp_services hm mj aj valid rfc pt)" for rfc3 hm mj aj valid rfc pt
  by unfold_locales (rule cp_reader_unchanged)+

lemma calm_rpc: "rpc_faults w = [] \<Longrightarrow> run (rpc_call p) w = run p w"
  by (simp add: rpc_call_def rpc_next_def)

text \<open>A rollout as the panel shows it.\<close>

definition shown_rollout :: "(int \<Rightarrow> string) \<Rightarrow> Rollout \<Rightarrow> graph_Rollout" where
  "shown_rollout rfc x =
     \<lparr>gro_RolloutID = ro_RolloutID x, gro_ModelRef = ro_ModelRef x, gro_VersionID = ro_VersionID x, gro_StrategyJSON = [],
      gro_Stage = ro_Stage x, gro_Status = ro_Status x, gro_CanaryPercent = StagePercent (ro_Stage x),
      gro_StartedAt = rfc (ro_StartedAt x), gro_EndedAt = map_option rfc (ro_EndedAt x)\<rparr>"

text \<open>The optional end survives the wire, where its absence is the empty text.\<close>

lemma rolloutFromProto_ToProto: "\<forall>t. rfc t \<noteq> [] \<Longrightarrow> rolloutFromProto (rolloutToProto rfc x) = shown_rollout rfc x"
  by (simp add: rolloutFromProto_def rolloutToProto_def shown_rollout_def split: option.splits)

lemma calm_ListRollouts:
  assumes "t_faults w = []" "rpc_faults w = []"
  shows "run (cr_ListRollouts (cp_reader rfc3 (cp_services hm mj aj valid rfc pt)) [] 0) w =
    (Inr (map (rolloutToProto rfc3) (take 50 (newest_first (t_rollout w)))), w)"
  using assms
  by (simp add: cp_reader_def calm_rpc server_ListRollouts_def rollout_ListRollouts_def cp_services_def cp_rollout_def
      rollout_CockroachStore_def Cockroach_ListRollouts_def calm_db)

section \<open>Properties\<close>

text \<open>
  Queries read. In every interleaving of GraphQL queries, whatever fails, the users, the keys, the audit log, the
  manifests, the active versions, the rollouts and etcd stay as they are, provided that asking provider-gateway for its
  health and Prometheus for a number leaves them alone.
\<close>

theorem graph_queries_read_only:
  assumes "keeps all_tables prov" "\<forall>ql. keeps all_tables (query ql)"
    and "conc_reaches (map (\<lambda>(ctx, q). graph_serve (admin_resolver rfc3 (cp_services hm mj aj valid rfc pt) prov query z) ctx q) qs, w)
      (ps, w')"
  shows "audit_outside w' = audit_outside w \<and> adm_audit w' = adm_audit w"
proof -
  let ?p = "\<lambda>(ctx, q). graph_serve (admin_resolver rfc3 (cp_services hm mj aj valid rfc pt) prov query z) ctx q"
  have "\<forall>p \<in> set (map ?p qs). guar unchanged p"
    using assms(1,2) by (auto intro!: cp_reads.graph_serve_unchanged simp: admin_resolver_sel)
  from conc_guar [OF assms(3) this] have "unchanged\<^sup>*\<^sup>* w w'" ..
  then have "unchanged w w'" by (induction rule: rtranclp_induct) simp_all
  then show ?thesis by (simp add: all_tables_def)
qed

definition demo_resolver :: "(admin_tables, int) graph_Resolver" where
  "demo_resolver = admin_resolver (\<lambda>t. ''t'')
     (cp_services (\<lambda>k p. k @ p) (\<lambda>e. me_VersionID e) (\<lambda>e. ae_Stable e) (\<lambda>j. j \<noteq> []) (\<lambda>t. []) demo_pt)
     (\<lambda>w. (Inr [], w)) (\<lambda>ql w. (Inl (ErrorString ''down''), w)) 0"

theorem graph_queries_read_only_witness:
  "adm_audit (snd (conc_run [0, 1, 0, 1, 0, 0, 1, 1]
     (map (\<lambda>(ctx, q). graph_serve demo_resolver ctx q) [(demo_ctx [], QDashboardMetrics), (demo_ctx [], QAPIKeys)], demo_admin))) = []"
proof -
  let ?c = "(map (\<lambda>(ctx, q). graph_serve demo_resolver ctx q) [(demo_ctx [], QDashboardMetrics), (demo_ctx [], QAPIKeys)], demo_admin)"
  let ?d = "conc_run [0, 1, 0, 1, 0, 0, 1, 1] ?c"
  have c: "conc_reaches ?c (fst ?d, snd ?d)" unfolding prod.collapse by (rule conc_run_reaches)
  have k: "keeps all_tables (\<lambda>w. (Inr [] :: pb_ProviderStatus list result, w))"
    "\<forall>ql :: string. keeps all_tables ((\<lambda>ql w. (Inl (ErrorString ''down'') :: int result, w)) ql)"
    by (simp_all add: keeps_def)
  from graph_queries_read_only [OF k c [unfolded demo_resolver_def]] show ?thesis
    unfolding demo_resolver_def by (simp add: demo_admin_def)
qed



text \<open>
  C38. The panel sees at most the newest fifty rollouts: its history and the number of active rollouts on the dashboard
  are computed from them, because both ask control-plane without a limit, for which its default applies. The count is
  right when there are at most fifty rollouts, and a history of more is cut.
\<close>

theorem graph_history_is_cut:
  assumes "t_faults w = []" "rpc_faults w = []" "\<forall>t. rfc3 t \<noteq> []" "\<forall>ql u. \<exists>v. query ql u = (v, u)"
  shows "run (resolver_Rollouts (admin_resolver rfc3 (cp_services hm mj aj valid rfc pt) prov query z)) w =
      (Inr (map (shown_rollout rfc3) (take 50 (newest_first (t_rollout w)))), w) \<and>
    (\<exists>m. run (resolver_DashboardMetrics (admin_resolver rfc3 (cp_services hm mj aj valid rfc pt) prov query z)) w = (Inr m, w) \<and>
      dm_ActiveModelsCount m = length (t_active w) \<and>
      dm_ActiveRolloutsCount m = length (filter (\<lambda>x. ro_Status x = ''running'') (take 50 (newest_first (t_rollout w)))) \<and>
      (length (t_rollout w) \<le> 50 \<longrightarrow> dm_ActiveRolloutsCount m = length (filter (\<lambda>x. ro_Status x = ''running'') (t_rollout w))))"
    (is "?h \<and> ?d")
proof
  let ?r = "admin_resolver rfc3 (cp_services hm mj aj valid rfc pt) prov query z"
  note l = calm_ListRollouts [OF assms(1,2)]
  show ?h using assms(3) by (simp add: resolver_Rollouts_def admin_resolver_sel l rolloutFromProto_ToProto)
  have q: "\<exists>x. run (scalarOrZero ?r ql) w = (x, w)" for ql
    using assms(4) by (auto simp: scalarOrZero_def admin_resolver_sel split: prod.splits sum.splits) (metis prod.inject)+
  obtain a b c where abc: "run (scalarOrZero ?r QueryRequestsPerSecond) w = (a, w)" "run (scalarOrZero ?r QueryP95LatencyMs) w = (b, w)"
    "run (scalarOrZero ?r QueryErrorRate) w = (c, w)" using q by metis
  have m: "run (cr_ListModels (cp_reader rfc3 (cp_services hm mj aj valid rfc pt))) w =
      (Inr (sort_key fst (t_active w)), w)"
    using assms(1,2) by (simp add: cp_reader_def calm_rpc server_ListModels_def ListModels_def cp_services_def cp_registry_def
        registry_CockroachStore_def Cockroach_ListActive_def calm_db case_prod_beta o_def)
  have n: "length (filter P (newest_first rs)) = length (filter P rs)" for P rs
    by (simp add: newest_first_def filter_sort)
  have "length (filter (\<lambda>ro. gr_Status ro = ''running'') (map (rolloutToProto rfc3) rs)) = length (filter (\<lambda>x. ro_Status x = ''running'') rs)" for rs
    by (induction rs) (simp_all add: rolloutToProto_def)
  with abc l m n show ?d
    by (simp add: resolver_DashboardMetrics_def admin_resolver_sel newest_first_def)
qed

theorem graph_history_is_cut_witness:
  "case run (resolver_Rollouts demo_resolver) (demo_admin\<lparr>t_rollout := replicate 51 (demo_row ''canary_10'')\<rparr>) of
     (Inl _, _) \<Rightarrow> False | (Inr l, _) \<Rightarrow> length l = 50"
proof -
  let ?w = "demo_admin\<lparr>t_rollout := replicate 51 (demo_row ''canary_10'')\<rparr>"
  have a: "t_faults ?w = []" "rpc_faults ?w = []" by (simp_all add: demo_admin_def)
  have "length (newest_first (t_rollout ?w)) = 51" by (simp add: newest_first_def)
  with graph_history_is_cut [OF a, of "\<lambda>t. ''t''" "\<lambda>ql w. (Inl (ErrorString ''down'') :: int result, w)"] show ?thesis
    unfolding demo_resolver_def by simp
qed

end
