(* ===== verification/Schema.thy ===== *)
theory Schema
  imports Rely Admin_Graph
begin

text \<open>
  The integrity of the stored data, over both services that write it: the database (manifests, active versions, rollouts,
  API keys, audit log) and the keys of etcd that are distributed to the data plane. \<open>schema_ok\<close> is the schema of
  \<^verbatim>\<open>data/migrations\<close> (primary and unique keys, foreign keys, the two CHECK constraints of \<^verbatim>\<open>rollout\<close>) together with the
  reference from rollouts to manifests, which no foreign key states; \<open>etcd_ok\<close> says that etcd only holds copies of stored
  manifests and pointers to stored versions. Both hold in every interleaving of commands, queries, control-plane RPCs and
  reconcilers.

  The statements of the model check the keys and foreign keys but not the CHECK constraints: that these hold is a property
  of the code.
\<close>

section \<open>Well-formed stores\<close>

definition versions :: "'z reg_tables_scheme \<Rightarrow> string set" where
  "versions w = mf_VersionID ` set (t_manifest w)"

text \<open>
  A rollout names the stored versions it moves between. The request may leave the new version empty, which the registry
  reads as the active one; the empty text is no UUID, so the type of the column refuses it.
\<close>

definition rollout_ok :: "string set \<Rightarrow> Rollout \<Rightarrow> bool" where
  "rollout_ok V r \<longleftrightarrow> row_wf r \<and> ro_VersionID r \<in> V \<union> {[]} \<and> ro_StableVersionID r \<in> V"

definition schema_ok :: "'z admin_tables_scheme \<Rightarrow> bool" where
  "schema_ok w \<longleftrightarrow>
     distinct (map mf_VersionID (t_manifest w)) \<and> (\<forall>m \<in> set (t_manifest w). mf_Status m = manifestStatus) \<and>
     distinct (map fst (t_active w)) \<and> snd ` set (t_active w) \<subseteq> versions w \<and>
     distinct (map ro_RolloutID (t_rollout w)) \<and> (\<forall>r \<in> set (t_rollout w). rollout_ok (versions w) r) \<and>
     distinct (map ak_key_id (adm_keys w)) \<and> distinct (map ak_hash (adm_keys w)) \<and>
     ak_org_id ` set (adm_keys w) \<subseteq> set (adm_tenants w) \<and>
     distinct (map al_audit_id (adm_audit w)) \<and> al_actor ` set (adm_audit w) \<subseteq> au_user_id ` set (adm_users w)"

definition envelope_of :: "(int \<Rightarrow> string) \<Rightarrow> Manifest \<Rightarrow> ManifestEnvelope" where
  "envelope_of rfc m = \<lparr>me_VersionID = mf_VersionID m, me_ModelRef = mf_ModelRef m, me_SpecJSON = mf_SpecJSON m,
     me_Signature = mf_Signature m, me_CreatedBy = mf_CreatedBy m, me_CreatedAt = rfc (mf_CreatedAt m), me_Status = mf_Status m\<rparr>"

definition pointer_ok :: "string set \<Rightarrow> ActiveEnvelope \<Rightarrow> bool" where
  "pointer_ok V e \<longleftrightarrow> ae_Stable e \<in> V \<and> ae_Canary e \<in> V \<union> {[]} \<and> ae_CanaryPercent e \<in> {0, 1, 10, 50}"

definition entry_ok ::
  "(ManifestEnvelope \<Rightarrow> string) \<Rightarrow> (ActiveEnvelope \<Rightarrow> string) \<Rightarrow> (int \<Rightarrow> string) \<Rightarrow> 'z reg_tables_scheme \<Rightarrow> string \<Rightarrow> string \<Rightarrow> bool" where
  "entry_ok mj aj rfc w k x \<longleftrightarrow>
     (\<exists>m \<in> set (t_manifest w). k = manifest_key (mf_ModelRef m) (mf_VersionID m) \<and> x = mj (envelope_of rfc m)) \<or>
     (\<exists>model e. k = active_key model \<and> x = aj e \<and> pointer_ok (versions w) e)"

definition etcd_ok ::
  "(ManifestEnvelope \<Rightarrow> string) \<Rightarrow> (ActiveEnvelope \<Rightarrow> string) \<Rightarrow> (int \<Rightarrow> string) \<Rightarrow> 'z reg_tables_scheme \<Rightarrow> bool" where
  "etcd_ok mj aj rfc w \<longleftrightarrow> (\<forall>k x. es_kv w k = Some x \<longrightarrow> entry_ok mj aj rfc w k x)"

definition store_ok ::
  "(ManifestEnvelope \<Rightarrow> string) \<Rightarrow> (ActiveEnvelope \<Rightarrow> string) \<Rightarrow> (int \<Rightarrow> string) \<Rightarrow> 'z admin_tables_scheme \<Rightarrow> bool" where
  "store_ok mj aj rfc w \<longleftrightarrow> schema_ok w \<and> etcd_ok mj aj rfc w"

text \<open>What the processes may rely on of each other: no manifest disappears.\<close>

definition db_grows :: "'z reg_tables_scheme \<Rightarrow> 'z reg_tables_scheme \<Rightarrow> bool" where
  "db_grows w w' \<longleftrightarrow> set (t_manifest w) \<subseteq> set (t_manifest w')"

interpretation db: rely "store_ok mj aj rfc" db_grows for mj aj rfc
  by unfold_locales (auto simp: db_grows_def)

lemma versions_grow: "db_grows w w' \<Longrightarrow> versions w \<subseteq> versions w'"
  by (auto simp: db_grows_def versions_def)

lemma versions_mem: "v \<in> versions w \<Longrightarrow> db_grows w w' \<Longrightarrow> v \<in> versions w'"
  by (auto dest: versions_grow)

lemma manifest_mem: "m \<in> set (t_manifest w) \<Longrightarrow> db_grows w w' \<Longrightarrow> m \<in> set (t_manifest w')"
  by (auto simp: db_grows_def)

lemma all_tables_eq:
  "all_tables w' = all_tables w \<longleftrightarrow> adm_users w' = adm_users w \<and> adm_tenants w' = adm_tenants w \<and> adm_keys w' = adm_keys w \<and>
     t_manifest w' = t_manifest w \<and> t_active w' = t_active w \<and> t_rollout w' = t_rollout w \<and> es_kv w' = es_kv w \<and> adm_audit w' = adm_audit w"
  by (simp add: all_tables_def audit_outside_def)

lemma store_ok_cong: "all_tables w' = all_tables w \<Longrightarrow> store_ok mj aj rfc w \<Longrightarrow> store_ok mj aj rfc w' \<and> db_grows w w'"
  by (simp add: all_tables_eq store_ok_def schema_ok_def etcd_ok_def entry_ok_def versions_def db_grows_def)

lemma safe_keeps: "keeps all_tables f \<Longrightarrow> safe (store_ok mj aj rfc) db_grows (\<lambda>_ _. True) (act f) w"
  by (rule db.safe_act) (auto dest: keepsD store_ok_cong)

lemma safe_unchanged: "guar unchanged p \<Longrightarrow> safe (store_ok mj aj rfc) db_grows (\<lambda>_ _. True) p w"
  by (erule db.safe_guar) (rule store_ok_cong)

section \<open>The statements\<close>

text \<open>A statement acts on the tables, on the world or not at all, whatever its caller sees.\<close>

lemma remote_db_cases:
  fixes w :: "'z admin_tables_scheme"
  assumes "remote fail db_next call w = (r, w')"
  obtains u where "all_tables u = all_tables w" "w' = u" "\<exists>e. r = fail e"
  | u where "all_tables u = all_tables w" "w' = snd (call u)" "r = fst (call u) \<or> (\<exists>e. r = fail e)"
proof -
  obtain f u where n: "db_next w = (f, u)" by fastforce
  then have "all_tables u = all_tables w" by (auto simp: db_next_def all_tables_updates split: list.splits)
  with assms n that show thesis by (cases f) (auto simp: remote_def)
qed

lemma find_manifest_versions: "find_manifest v ms = None \<longleftrightarrow> v \<notin> mf_VersionID ` set ms"
  by (auto simp: find_manifest_def find_None_iff)

lemma find_manifest_set: "find_manifest v ms = Some m \<Longrightarrow> m \<in> set ms \<and> mf_VersionID m = v"
  by (auto simp: find_manifest_def find_Some_iff)

lemma rollout_ok_mono: "rollout_ok V r \<Longrightarrow> V \<subseteq> V' \<Longrightarrow> rollout_ok V' r"
  by (auto simp: rollout_ok_def)

lemma pointer_ok_mono: "pointer_ok V e \<Longrightarrow> V \<subseteq> V' \<Longrightarrow> pointer_ok V' e"
  by (auto simp: pointer_ok_def)

lemma entry_ok_mono: "entry_ok mj aj rfc u k x \<Longrightarrow> db_grows u w \<Longrightarrow> entry_ok mj aj rfc w k x"
  using pointer_ok_mono [OF _ versions_grow, of u _ w] unfolding entry_ok_def db_grows_def by blast

lemma store_ok_manifest:
  assumes "store_ok mj aj rfc u" "mf_VersionID m \<notin> versions u" "mf_Status m = manifestStatus"
    and "all_tables w = all_tables (u\<lparr>t_manifest := t_manifest u @ [m]\<rparr>)"
  shows "store_ok mj aj rfc w \<and> db_grows u w \<and> m \<in> set (t_manifest w)"
proof -
  have t: "t_manifest w = t_manifest u @ [m]" "t_active w = t_active u" "t_rollout w = t_rollout u" "es_kv w = es_kv u"
      "adm_users w = adm_users u" "adm_tenants w = adm_tenants u" "adm_keys w = adm_keys u" "adm_audit w = adm_audit u"
    using assms(4) by (simp_all add: all_tables_eq)
  have v: "versions w = insert (mf_VersionID m) (versions u)" by (simp add: versions_def t)
  have "schema_ok w"
    using assms(1-3) v by (auto simp: store_ok_def schema_ok_def t versions_def [of u] intro: rollout_ok_mono)
  moreover have "db_grows u w" by (auto simp: db_grows_def t)
  then have "etcd_ok mj aj rfc w" using assms(1) entry_ok_mono [of mj aj rfc u _ _ w] by (simp add: store_ok_def etcd_ok_def t)
  ultimately show ?thesis by (auto simp: store_ok_def db_grows_def t)
qed

lemma safe_remote:
  assumes "\<And>u r w'. store_ok mj aj rfc u \<Longrightarrow> db_grows w u \<Longrightarrow> call u = (r, w') \<Longrightarrow>
      store_ok mj aj rfc w' \<and> db_grows u w' \<and> (\<forall>v. store_ok mj aj rfc v \<and> db_grows w' v \<longrightarrow> Q r v)"
    and "\<And>e v. Q (fail e) v"
  shows "safe (store_ok mj aj rfc) db_grows Q (act (remote fail db_next call)) (w :: 'z admin_tables_scheme)"
proof (rule db.safe_act)
  fix w' w'' :: "'z admin_tables_scheme" and r
  assume i: "store_ok mj aj rfc w'" and g: "db_grows w w'" and c: "remote fail db_next call w' = (r, w'')"
  from c show "store_ok mj aj rfc w'' \<and> db_grows w' w'' \<and> (\<forall>v. store_ok mj aj rfc v \<and> db_grows w'' v \<longrightarrow> Q r v)"
  proof (cases rule: remote_db_cases)
    case (1 u)
    then show ?thesis using store_ok_cong [OF _ i] assms(2) by blast
  next
    case (2 u)
    from store_ok_cong [OF 2(1) i] have u: "store_ok mj aj rfc u" "db_grows w' u" by blast+
    from assms(1) [OF u(1) db.R_trans [OF g u(2)], of "fst (call u)" w''] 2(2)
    have "store_ok mj aj rfc w''" "db_grows u w''" "\<And>v. store_ok mj aj rfc v \<and> db_grows w'' v \<Longrightarrow> Q (fst (call u)) v" by auto
    with 2(3) db.R_trans [OF u(2)] assms(2) show ?thesis by blast
  qed
qed

lemma InsertManifest_safe:
  "safe (store_ok mj aj rfc) db_grows (\<lambda>r v. r = None \<longrightarrow> published v1 m j sg cb t \<in> set (t_manifest v))
     (act (Cockroach_InsertManifest v1 m j sg cb t)) (w :: 'z admin_tables_scheme)"
  unfolding Cockroach_InsertManifest_def
proof (rule safe_remote, goal_cases)
  case (1 u r w')
  let ?x = "published v1 m j sg cb t"
  have x: "mf_VersionID ?x = v1" "mf_Status ?x = manifestStatus" by (simp_all add: published_def)
  from 1 x show ?case
    using store_ok_manifest [of mj aj rfc u ?x "u\<lparr>t_manifest := t_manifest u @ [?x]\<rparr>"]
    by (auto simp: versions_def find_manifest_versions db_grows_def split: if_splits)
qed simp

lemma SetActive_safe:
  "safe (store_ok mj aj rfc) db_grows (\<lambda>r x. r = None \<longrightarrow> v \<in> versions x) (act (Cockroach_SetActive m v)) (w :: 'z admin_tables_scheme)"
  unfolding Cockroach_SetActive_def
proof (rule safe_remote, goal_cases)
  case (1 u r w')
  show ?case
  proof (cases "v \<in> versions u")
    case True
    with 1(3) have w': "w' = u\<lparr>t_active := AList.update m v (t_active u)\<rparr>" by (simp add: versions_def find_manifest_versions split: if_splits)
    have "snd ` set (AList.update m v xs) \<subseteq> insert v (snd ` set xs)" for xs by (induction xs) auto
    note this [of "t_active u"]
    moreover have "snd ` set (t_active u) \<subseteq> versions u" using 1(1) by (simp add: store_ok_def schema_ok_def)
    ultimately have "snd ` set (AList.update m v (t_active u)) \<subseteq> versions u" using True by blast
    moreover have "distinct (map fst (AList.update m v (t_active u)))"
      using 1(1) by (intro distinct_update) (simp add: store_ok_def schema_ok_def)
    ultimately have "schema_ok w'" using 1(1) by (simp add: w' store_ok_def schema_ok_def versions_def)
    moreover have "etcd_ok mj aj rfc w'" using 1(1) by (simp add: w' store_ok_def etcd_ok_def entry_ok_def versions_def)
    moreover have "db_grows u w'" by (simp add: w' db_grows_def)
    moreover have "v \<in> versions w'" using True by (simp add: w' versions_def)
    ultimately show ?thesis by (auto simp: store_ok_def intro: versions_mem)
  next
    case False
    with 1 show ?thesis by (auto simp: versions_def find_manifest_versions db.R_refl)
  qed
qed simp

lemma InsertRollout_safe:
  assumes "ro_Stage x = ''pending''" "ro_Status x = ''running''" "ro_VersionID x \<in> versions w \<union> {[]}" "ro_StableVersionID x \<in> versions w"
  shows "safe (store_ok mj aj rfc) db_grows (\<lambda>_ _. True) (act (Cockroach_InsertRollout x)) (w :: 'z admin_tables_scheme)"
  unfolding Cockroach_InsertRollout_def
proof (rule safe_remote, goal_cases)
  case (1 u r w')
  let ?x = "x\<lparr>ro_EndedAt := None, ro_StageEnteredAt := env_now u\<rparr>"
  have x: "rollout_ok (versions u) ?x"
    using assms versions_grow [OF 1(2)] by (auto simp: rollout_ok_def row_wf_def stageOrder_def)
  show ?case
  proof (cases "find_rollout (ro_RolloutID x) (t_rollout u)")
    case None
    with 1(3) have w': "w' = u\<lparr>t_rollout := t_rollout u @ [?x]\<rparr>" by simp
    have "ro_RolloutID x \<notin> ro_RolloutID ` set (t_rollout u)" using None by (auto simp: find_rollout_def find_None_iff)
    with x 1(1) show ?thesis by (auto simp: w' store_ok_def schema_ok_def etcd_ok_def entry_ok_def versions_def db_grows_def)
  next
    case (Some y)
    with 1 show ?thesis by (auto simp: db.R_refl)
  qed
qed simp

text \<open>A row is only ever replaced by a successor of itself.\<close>

lemma store_ok_rollout:
  assumes "store_ok mj aj rfc u" "find_rollout i (t_rollout u) = Some x" "row_step x y"
    and "all_tables w = all_tables (u\<lparr>t_rollout := put_rollout y (t_rollout u)\<rparr>)"
  shows "store_ok mj aj rfc w \<and> db_grows u w"
proof -
  have t: "t_manifest w = t_manifest u" "t_active w = t_active u" "t_rollout w = put_rollout y (t_rollout u)" "es_kv w = es_kv u"
      "adm_users w = adm_users u" "adm_tenants w = adm_tenants u" "adm_keys w = adm_keys u" "adm_audit w = adm_audit u"
    using assms(4) by (simp_all add: all_tables_eq)
  have x: "x \<in> set (t_rollout u)" "rollout_ok (versions u) x"
    using find_rollout_Some [OF assms(2)] assms(1) by (auto simp: store_ok_def schema_ok_def)
  have y: "ro_RolloutID y = ro_RolloutID x" "ro_VersionID y = ro_VersionID x" "ro_StableVersionID y = ro_StableVersionID x"
    using row_steps_fields [of x y] assms(3) by auto
  have ok: "rollout_ok (versions u) y" using x(2) y row_step_wf [OF assms(3)] by (simp add: rollout_ok_def)
  have "map ro_RolloutID (put_rollout y (t_rollout u)) = map ro_RolloutID (t_rollout u)" by (auto simp: put_rollout_def)
  moreover have "\<forall>r \<in> set (put_rollout y (t_rollout u)). rollout_ok (versions u) r"
    using assms(1) ok by (auto simp: put_rollout_def store_ok_def schema_ok_def)
  ultimately show ?thesis
    using assms(1) by (simp add: store_ok_def schema_ok_def etcd_ok_def entry_ok_def t versions_def db_grows_def)
qed

lemma UpdateRollout_safe:
  assumes "nextStage frm = Some to \<and> (if to = ''stable'' then status = ''promoted'' \<and> e \<noteq> None else status = ''running'' \<and> e = None) \<or>
    to = frm \<and> status \<in> {''aborted'', ''rolled_back''} \<and> e \<noteq> None"
  shows "safe (store_ok mj aj rfc) db_grows (\<lambda>_ _. True) (act (Cockroach_UpdateRollout i frm to status e)) (w :: 'z admin_tables_scheme)"
  unfolding Cockroach_UpdateRollout_def
proof (rule safe_remote, goal_cases)
  case (1 u r w')
  show ?case
  proof (cases "\<exists>x. find_rollout i (t_rollout u) = Some x \<and> ro_Stage x = frm \<and> ro_Status x = ''running''")
    case True
    then obtain x where x: "find_rollout i (t_rollout u) = Some x" "ro_Stage x = frm" "ro_Status x = ''running''" by blast
    then have "row_step x (moved to status e (env_now u) x)" using assms unfolding row_step_def by blast
    from store_ok_rollout [OF 1(1) x(1) this] 1(3) x show ?thesis by auto
  next
    case False
    with 1 show ?thesis by (auto simp: db.R_refl split: option.splits)
  qed
qed simp

lemma GetRollout_safe:
  "safe (store_ok mj aj rfc) db_grows (\<lambda>r v. \<forall>x. r = Inr (Some x) \<longrightarrow> rollout_ok (versions v) x)
     (act (Cockroach_GetRollout i)) (w :: 'z admin_tables_scheme)"
  unfolding Cockroach_GetRollout_def
proof (rule safe_remote, goal_cases)
  case (1 u r w')
  have "rollout_ok (versions v) x" if "find_rollout i (t_rollout u) = Some x" "db_grows u v" for x v
    using find_rollout_Some [OF that(1)] 1(1) rollout_ok_mono [OF _ versions_grow [OF that(2)]]
    by (auto simp: store_ok_def schema_ok_def)
  with 1 show ?case by (auto simp: db.R_refl)
qed simp

lemma GetManifest_safe:
  "safe (store_ok mj aj rfc) db_grows (\<lambda>r x. \<forall>m. r = Inr m \<longrightarrow> m \<in> set (t_manifest x) \<and> mf_VersionID m = v)
     (act (Cockroach_GetManifestByVersion v)) (w :: 'z admin_tables_scheme)"
  "safe (store_ok mj aj rfc) db_grows (\<lambda>r x. \<forall>m. r = Inr m \<longrightarrow> m \<in> set (t_manifest x))
     (act (Cockroach_GetActiveManifest model)) (w :: 'z admin_tables_scheme)"
  unfolding Cockroach_GetManifestByVersion_def Cockroach_GetActiveManifest_def
proof -
  show "safe (store_ok mj aj rfc) db_grows (\<lambda>r x. \<forall>m. r = Inr m \<longrightarrow> m \<in> set (t_manifest x) \<and> mf_VersionID m = v)
     (act (remote Inl db_next (\<lambda>w. (scanManifest (find_manifest v (t_manifest w)), w)))) w"
    by (rule safe_remote) (auto simp: db.R_refl scanManifest_def db_grows_def split: option.splits dest: find_manifest_set)
  show "safe (store_ok mj aj rfc) db_grows (\<lambda>r x. \<forall>m. r = Inr m \<longrightarrow> m \<in> set (t_manifest x))
     (act (remote Inl db_next (\<lambda>w. (scanManifest (Option.bind (map_of (t_active w) model) (\<lambda>v. find_manifest v (t_manifest w))), w)))) w"
    by (rule safe_remote) (auto simp: db.R_refl scanManifest_def db_grows_def split: option.splits bind_splits dest: find_manifest_set)
qed

subsection \<open>etcd\<close>

lemma kv_Put_tables_cases:
  fixes w :: "'z admin_tables_scheme"
  assumes "kv_Put k x w = (r, w')"
  shows "all_tables w' = all_tables w \<or> all_tables w' = all_tables (w\<lparr>es_kv := (es_kv w)(k \<mapsto> x)\<rparr>)"
  using assms by (auto simp: kv_Put_def remote_def es_next_def all_tables_eq split: list.splits fault.splits prod.splits)

lemma store_ok_entry:
  assumes "store_ok mj aj rfc u" "entry_ok mj aj rfc u k x" "all_tables w = all_tables (u\<lparr>es_kv := (es_kv u)(k \<mapsto> x)\<rparr>)"
  shows "store_ok mj aj rfc w \<and> db_grows u w"
proof -
  have t: "t_manifest w = t_manifest u" "t_active w = t_active u" "t_rollout w = t_rollout u" "es_kv w = (es_kv u)(k \<mapsto> x)"
      "adm_users w = adm_users u" "adm_tenants w = adm_tenants u" "adm_keys w = adm_keys u" "adm_audit w = adm_audit u"
    using assms(3) by (simp_all add: all_tables_eq)
  have "schema_ok w" using assms(1) by (simp add: store_ok_def schema_ok_def t versions_def)
  moreover have "etcd_ok mj aj rfc w"
    using assms(1,2) by (simp add: store_ok_def etcd_ok_def entry_ok_def t versions_def)
  ultimately show ?thesis by (simp add: store_ok_def db_grows_def t)
qed

text \<open>A publication is its one write, with the error wrapped.\<close>

lemma safe_publish:
  assumes "entry_ok mj aj rfc w k x" "\<And>u. snd (f u) = snd (kv_Put k x u)"
  shows "safe (store_ok mj aj rfc) db_grows (\<lambda>_ _. True) (act f) (w :: 'z admin_tables_scheme)"
proof (rule db.safe_act)
  fix w' w'' :: "'z admin_tables_scheme" and r
  assume i: "store_ok mj aj rfc w'" and g: "db_grows w w'" and c: "f w' = (r, w'')"
  have "kv_Put k x w' = (fst (kv_Put k x w'), w'')" using assms(2) [of w'] c by (metis prod.collapse snd_conv)
  from kv_Put_tables_cases [OF this] store_ok_cong [OF _ i, of w''] store_ok_entry [OF i entry_ok_mono [OF assms(1) g], of w'']
  show "store_ok mj aj rfc w'' \<and> db_grows w' w'' \<and> (\<forall>v. store_ok mj aj rfc v \<and> db_grows w'' v \<longrightarrow> True)" by blast
qed

lemma PublishManifest_safe:
  assumes "published v m j sg cb t \<in> set (t_manifest w)"
  shows "safe (store_ok mj aj rfc) db_grows (\<lambda>_ _. True)
    (act (etcd_PublishManifest (kv_client mj aj) v m j sg cb (rfc t) manifestStatus)) (w :: 'z admin_tables_scheme)"
proof (rule safe_publish)
  let ?e = "\<lparr>me_VersionID = v, me_ModelRef = m, me_SpecJSON = j, me_Signature = sg, me_CreatedBy = cb, me_CreatedAt = rfc t, me_Status = manifestStatus\<rparr>"
  show "entry_ok mj aj rfc w (manifest_key m v) (mj ?e)"
    unfolding entry_ok_def by (rule disjI1, rule bexI [OF _ assms]) (simp add: published_def envelope_of_def)
  show "snd (etcd_PublishManifest (kv_client mj aj) v m j sg cb (rfc t) manifestStatus u) = snd (kv_Put (manifest_key m v) (mj ?e) u)" for u
    by (simp add: etcd_PublishManifest_def kv_client_def split: prod.splits option.splits)
qed

lemma publishActive_safe:
  assumes "pointer_ok (versions w) e"
  shows "safe (store_ok mj aj rfc) db_grows (\<lambda>_ _. True) (act (publishActiveEnvelope (kv_client mj aj) m e)) (w :: 'z admin_tables_scheme)"
proof (rule safe_publish)
  show "entry_ok mj aj rfc w (active_key m) (aj e)" using assms by (auto simp: entry_ok_def)
  show "snd (publishActiveEnvelope (kv_client mj aj) m e u) = snd (kv_Put (active_key m) (aj e) u)" for u
    by (simp add: publishActiveEnvelope_def kv_client_def split: prod.splits option.splits)
qed

subsection \<open>The tables of admin-api\<close>

lemma Create_safe:
  "safe (store_ok mj aj rfc) db_grows (\<lambda>_ _. True) (act (keys_Cockroach_Create org h scopes)) (w :: 'z admin_tables_scheme)"
  unfolding keys_Cockroach_Create_def
proof (rule safe_remote, goal_cases)
  case (1 u r w')
  obtain x v where d: "draw_uuid u = (x, v)" by fastforce
  have "all_tables v = all_tables u" using d by (auto simp: draw_uuid_def all_tables_eq split: list.splits)
  from store_ok_cong [OF this 1(1)] this have v: "store_ok mj aj rfc v" "db_grows u v" "adm_tenants v = adm_tenants u"
    by (simp_all add: all_tables_eq)
  have "store_ok mj aj rfc (v\<lparr>adm_keys := adm_keys v @ [k]\<rparr>) \<and> db_grows u (v\<lparr>adm_keys := adm_keys v @ [k]\<rparr>)"
    if "ak_key_id k \<notin> ak_key_id ` set (adm_keys v)" "ak_hash k \<notin> ak_hash ` set (adm_keys v)" "ak_org_id k \<in> set (adm_tenants v)" for k
    using v that by (simp add: store_ok_def schema_ok_def etcd_ok_def entry_ok_def versions_def db_grows_def)
  with 1 d v show ?case by (auto simp: db.R_refl split: if_splits)
qed simp

lemma Revoke_safe:
  "safe (store_ok mj aj rfc) db_grows (\<lambda>_ _. True) (act (keys_Cockroach_Revoke k)) (w :: 'z admin_tables_scheme)"
  unfolding keys_Cockroach_Revoke_def
proof (rule safe_remote, goal_cases)
  case (1 u r w')
  define ks where "ks = map (\<lambda>r. if ak_key_id r = k \<and> ak_revoked_at r = None then r\<lparr>ak_revoked_at := Some (env_now u)\<rparr> else r) (adm_keys u)"
  have w': "w' = u\<lparr>adm_keys := ks\<rparr>" using 1(3) by (auto simp: Let_def ks_def)
  have "map ak_key_id ks = map ak_key_id (adm_keys u)" "map ak_hash ks = map ak_hash (adm_keys u)"
    "map ak_org_id ks = map ak_org_id (adm_keys u)" by (auto simp: ks_def)
  moreover from this(3) have "ak_org_id ` set ks = ak_org_id ` set (adm_keys u)" by (metis list.set_map)
  ultimately show ?case
    using 1(1) by (simp add: w' store_ok_def schema_ok_def etcd_ok_def entry_ok_def versions_def db_grows_def)
qed simp

lemma Write_safe:
  "safe (store_ok mj aj rfc) db_grows (\<lambda>_ _. True) (act (CockroachWriter_Write marshal jsonb e)) (w :: 'z admin_tables_scheme)"
proof (rule db.safe_act)
  fix w' w'' :: "'z admin_tables_scheme" and r
  assume i: "store_ok mj aj rfc w'" and c: "CockroachWriter_Write marshal jsonb e w' = (r, w'')"
  from CockroachWriter_Write_cases [OF c] consider "all_tables w'' = all_tables w'"
    | row where "audit_outside w'' = audit_outside w'" "adm_audit w'' = adm_audit w' @ [row]"
        "al_audit_id row \<notin> al_audit_id ` set (adm_audit w')" "al_actor row \<in> au_user_id ` set (adm_users w')"
    by (auto simp: all_tables_def)
  then have "store_ok mj aj rfc w'' \<and> db_grows w' w''"
  proof cases
    case 1
    then show ?thesis using store_ok_cong [OF _ i] by blast
  next
    case 2
    then show ?thesis
      using i by (simp add: store_ok_def schema_ok_def etcd_ok_def entry_ok_def versions_def db_grows_def audit_outside_def)
  qed
  then show "store_ok mj aj rfc w'' \<and> db_grows w' w'' \<and> (\<forall>v. store_ok mj aj rfc v \<and> db_grows w'' v \<longrightarrow> True)" by blast
qed

section \<open>The services\<close>

text \<open>
  A control-plane process as \<^verbatim>\<open>main.go\<close> wires it: the SQL stores, the etcd client for both publishers, and one registry for
  the RPCs and for the rollouts. What is outside (the signer, the secrets, the source of UUIDs, the clock, the ping) leaves the tables and etcd alone.
\<close>

definition wired ::
  "(ManifestEnvelope \<Rightarrow> string) \<Rightarrow> (ActiveEnvelope \<Rightarrow> string) \<Rightarrow> (int \<Rightarrow> string) \<Rightarrow> 'z admin_tables_scheme cp_server \<Rightarrow> bool" where
  "wired mj aj rfc s \<longleftrightarrow>
     rg_store (sv_registry s) = registry_CockroachStore \<and> rg_publisher (sv_registry s) = etcd_registry_Publisher (kv_client mj aj) \<and>
     rg_RFC3339 (sv_registry s) = rfc \<and> rl_store (sv_rollout s) = rollout_CockroachStore \<and>
     rl_PublishCanaryState (sv_rollout s) = etcd_PublishCanaryState (kv_client mj aj) \<and>
     rl_GetModelManifest (sv_rollout s) = GetModelManifest (sv_registry s) \<and>
     rl_ActivateVersion (sv_rollout s) = ActivateVersion (sv_registry s) \<and>
     (\<forall>k p. keeps all_tables (sg_Sign (rg_signer (sv_registry s)) k p)) \<and>
     (\<forall>k p sg. keeps all_tables (sg_Verify (rg_signer (sv_registry s)) k p sg)) \<and>
     keeps all_tables (rg_NewUUID (sv_registry s)) \<and> keeps all_tables (rg_Now (sv_registry s)) \<and>
     keeps all_tables (rl_NewUUID (sv_rollout s)) \<and> keeps all_tables (rl_Now (sv_rollout s)) \<and>
     (\<forall>p. keeps all_tables (pt_reader (sv_providerToken s) p)) \<and> keeps all_tables (sv_ping s)"

lemma GetModelManifest_safe:
  assumes "wired mj aj rfc s" "store_ok mj aj rfc w"
  shows "safe (store_ok mj aj rfc) db_grows (\<lambda>r x. \<forall>m. r = Inr m \<longrightarrow> m \<in> set (t_manifest x) \<and> (v \<noteq> [] \<longrightarrow> mf_VersionID m = v))
    (GetModelManifest (sv_registry s) model v) (w :: 'z admin_tables_scheme)"
proof -
  have k: "keeps all_tables (sg_Verify (rg_signer (sv_registry s)) k p sg)" for k p sg using assms(1) by (simp add: wired_def)
  have g: "safe (store_ok mj aj rfc) db_grows (\<lambda>r x. \<forall>m. r = Inr m \<longrightarrow> m \<in> set (t_manifest x) \<and> (v \<noteq> [] \<longrightarrow> mf_VersionID m = v))
    (act (if v = [] then rs_GetActiveManifest (rg_store (sv_registry s)) model else rs_GetManifestByVersion (rg_store (sv_registry s)) v)) w"
    using assms(1) by (auto simp: wired_def registry_CockroachStore_def intro: db.safe_weaken [OF GetManifest_safe(1)] db.safe_weaken [OF GetManifest_safe(2)])
  show ?thesis
    unfolding GetModelManifest_def
  proof (rule db.safe_bindE [where P = "\<lambda>_ _. True" and Q = "\<lambda>m x. m \<in> set (t_manifest x) \<and> (v \<noteq> [] \<longrightarrow> mf_VersionID m = v)"], goal_cases)
    case 1
    from g show ?case by (rule db.safe_weaken) (auto split: sum.splits)
  next
    case 3
    then show ?case by (auto intro: safe_Ret)
  next
    case (4 m w')
    from 4(1) show ?case
    proof (rule db.safe_seqE [OF safe_keeps [OF k]], goal_cases)
      case 2
      then show ?case using 4 by (auto intro!: safe_Ret dest: manifest_mem)
    qed (auto intro: safe_Ret)
  qed (rule assms(2))
qed

lemma ActivateVersion_safe:
  assumes "wired mj aj rfc s" "store_ok mj aj rfc w"
  shows "safe (store_ok mj aj rfc) db_grows (\<lambda>_ _. True) (ActivateVersion (sv_registry s) m v) (w :: 'z admin_tables_scheme)"
proof -
  have a: "rs_SetActive (rg_store (sv_registry s)) m v = Cockroach_SetActive m v"
    and p: "pb_PublishActive (rg_publisher (sv_registry s)) m v = publishActiveEnvelope (kv_client mj aj) m \<lparr>ae_Stable = v, ae_Canary = [], ae_CanaryPercent = 0\<rparr>"
    using assms(1) by (simp_all add: wired_def registry_CockroachStore_def etcd_registry_Publisher_def etcd_PublishActive_def)
  show ?thesis
    unfolding ActivateVersion_def a p
  proof (rule db.safe_bindO [where P = "\<lambda>_ _. True" and Q = "\<lambda>x. v \<in> versions x"], goal_cases)
    case 1
    from SetActive_safe show ?case by (rule db.safe_weaken) (auto split: option.splits)
  next
    case (4 w')
    then have "pointer_ok (versions w') \<lparr>ae_Stable = v, ae_Canary = [], ae_CanaryPercent = 0\<rparr>" by (simp add: pointer_ok_def)
    from 4(1) show ?case by (rule db.safe_seqO [OF publishActive_safe [OF \<open>pointer_ok _ _\<close>]]) simp_all
  qed (simp_all add: assms(2))
qed

lemma RegisterModelManifest_safe:
  assumes "wired mj aj rfc s" "store_ok mj aj rfc w"
  shows "safe (store_ok mj aj rfc) db_grows (\<lambda>_ _. True) (RegisterModelManifest (sv_registry s) m j cb) (w :: 'z admin_tables_scheme)"
proof -
  have k: "keeps all_tables (rg_NewUUID (sv_registry s))" "keeps all_tables (rg_Now (sv_registry s))"
      "keeps all_tables (sg_Sign (rg_signer (sv_registry s)) kn pl)" for kn pl
    using assms(1) by (simp_all add: wired_def)
  have e: "rs_InsertManifest (rg_store (sv_registry s)) = Cockroach_InsertManifest"
      "pb_PublishManifest (rg_publisher (sv_registry s)) = etcd_PublishManifest (kv_client mj aj)"
      "rg_RFC3339 (sv_registry s) = rfc" "rs_HasActiveVersion (rg_store (sv_registry s)) = Cockroach_HasActiveVersion"
    using assms(1) by (simp_all add: wired_def registry_CockroachStore_def etcd_registry_Publisher_def)
  have h: "keeps all_tables (Cockroach_HasActiveVersion m)"
    unfolding Cockroach_HasActiveVersion_def by (rule db_read_keeps)
  have tail: "safe (store_ok mj aj rfc) db_grows (\<lambda>_ _. True)
      (bindE (act (Cockroach_HasActiveVersion m)) (\<lambda>err. Ret (Inl (Wrap ''checking existing active version: '' err [])))
          (\<lambda>hasActive. if hasActive then Ret (Inr v)
             else bindO (ActivateVersion (sv_registry s) m v) (\<lambda>err. Ret (Inl err)) (Ret (Inr v)))) x"
    if "store_ok mj aj rfc x" for v and x :: "'z admin_tables_scheme"
    by (rule db.safe_seqE [OF safe_keeps [OF h] that]) (auto intro: db.safe_seqO [OF ActivateVersion_safe [OF assms(1)]])
  have insert: "safe (store_ok mj aj rfc) db_grows (\<lambda>_ _. True)
      (bindO (act (Cockroach_InsertManifest v m j sg cb t)) (\<lambda>err. Ret (Inl (Wrap ''inserting manifest: '' err [])))
        (bindO (act (etcd_PublishManifest (kv_client mj aj) v m j sg cb (rfc t) manifestStatus))
          (\<lambda>err. Ret (Inl (Wrap ''publishing manifest to etcd: '' err [])))
          (bindE (act (Cockroach_HasActiveVersion m)) (\<lambda>err. Ret (Inl (Wrap ''checking existing active version: '' err [])))
            (\<lambda>hasActive. if hasActive then Ret (Inr v)
               else bindO (ActivateVersion (sv_registry s) m v) (\<lambda>err. Ret (Inl err)) (Ret (Inr v)))))) x"
    if "store_ok mj aj rfc x" for v sg t and x :: "'z admin_tables_scheme"
  proof (rule db.safe_bindO [where P = "\<lambda>_ _. True" and Q = "\<lambda>x. published v m j sg cb t \<in> set (t_manifest x)"], goal_cases)
    case 1
    from InsertManifest_safe show ?case by (rule db.safe_weaken) (auto split: option.splits)
  next
    case (4 y)
    from 4(1) show ?case by (rule db.safe_seqO [OF PublishManifest_safe [OF 4(3)]]) (simp_all add: tail)
  qed (simp_all add: that)
  show ?thesis
    unfolding RegisterModelManifest_def e
    using assms(2)
    by (auto intro!: db.safe_seqP [OF safe_keeps [OF k(1)]] db.safe_seqP [OF safe_keeps [OF k(2)]] db.safe_seqE [OF safe_keeps [OF k(3)]] insert)
qed

lemma wired_rollout:
  assumes "wired mj aj rfc s"
  shows "rt_GetRollout (rl_store (sv_rollout s)) = Cockroach_GetRollout"
    "rt_UpdateRollout (rl_store (sv_rollout s)) = Cockroach_UpdateRollout"
    "rt_InsertRollout (rl_store (sv_rollout s)) = Cockroach_InsertRollout"
    "rl_PublishCanaryState (sv_rollout s) m sv cv pc = publishActiveEnvelope (kv_client mj aj) m \<lparr>ae_Stable = sv, ae_Canary = cv, ae_CanaryPercent = pc\<rparr>"
    "rl_ActivateVersion (sv_rollout s) = ActivateVersion (sv_registry s)"
    "rl_GetModelManifest (sv_rollout s) = GetModelManifest (sv_registry s)"
    "keeps all_tables (rl_Now (sv_rollout s))" "keeps all_tables (rl_NewUUID (sv_rollout s))"
    "keeps all_tables (rt_GetRunningRolloutByModelRef (rl_store (sv_rollout s)) m)"
  using assms db_read_keeps
  by (simp_all add: wired_def rollout_CockroachStore_def etcd_PublishCanaryState_def Cockroach_GetRunningRolloutByModelRef_def)

lemma canary_percents: "nextStage st = Some nx \<Longrightarrow> nx \<noteq> ''stable'' \<Longrightarrow> stagePercent nx \<in> {0, 1, 10, 50}"
  by (auto simp: nextStage_def stageOrder_def stagePercent_def split: if_splits)

lemma advanceStage_safe:
  assumes "wired mj aj rfc s" "store_ok mj aj rfc w"
  shows "safe (store_ok mj aj rfc) db_grows (\<lambda>_ _. True) (advanceStage (sv_rollout s) i st) (w :: 'z admin_tables_scheme)"
  unfolding advanceStage_def wired_rollout [OF assms(1)]
proof (rule db.safe_bindE [where P = "\<lambda>_ _. True" and Q = "\<lambda>row x. \<forall>r. row = Some r \<longrightarrow> rollout_ok (versions x) r"], goal_cases)
  case 1
  from GetRollout_safe show ?case by (rule db.safe_weaken) (auto split: sum.splits)
next
  case (4 row x)
  note keep = safe_keeps [OF wired_rollout(7) [OF assms(1)]]
  have promote: "safe (store_ok mj aj rfc) db_grows (\<lambda>_ _. True)
      (bindO (ActivateVersion (sv_registry s) (ro_ModelRef r) (ro_VersionID r)) (\<lambda>err. Ret (Inl (Wrap ''activating promoted version: '' err [])))
        (bindP (act (rl_Now (sv_rollout s))) (\<lambda>endedAt.
           bindO (act (Cockroach_UpdateRollout i (ro_Stage r) ''stable'' ''promoted'' (Some endedAt)))
             (\<lambda>err. Ret (Inl (Wrap ''recording promotion: '' err []))) (Ret (Inr ''stable''))))) x"
    if "nextStage (ro_Stage r) = Some ''stable''" for r
    using 4(1) that
    by (auto intro!: db.safe_seqO [OF ActivateVersion_safe [OF assms(1)]] db.safe_seqP [OF keep] db.safe_seqO [OF UpdateRollout_safe])
  have advance: "safe (store_ok mj aj rfc) db_grows (\<lambda>_ _. True)
      (bindO (act (publishActiveEnvelope (kv_client mj aj) (ro_ModelRef r) \<lparr>ae_Stable = ro_StableVersionID r, ae_Canary = ro_VersionID r, ae_CanaryPercent = stagePercent nx\<rparr>))
        (\<lambda>err. Ret (Inl (Wrap ''publishing canary state: '' err [])))
        (bindO (act (Cockroach_UpdateRollout i (ro_Stage r) nx ''running'' None))
           (\<lambda>err. Ret (Inl (Wrap ''recording stage advance: '' err []))) (Ret (Inr nx)))) x"
    if "nextStage (ro_Stage r) = Some nx" "nx \<noteq> ''stable''" "rollout_ok (versions x) r" for r nx
  proof -
    have "pointer_ok (versions x) \<lparr>ae_Stable = ro_StableVersionID r, ae_Canary = ro_VersionID r, ae_CanaryPercent = stagePercent nx\<rparr>"
      using that(3) canary_percents [OF that(1,2)] by (simp add: pointer_ok_def rollout_ok_def)
    with that 4(1) show ?thesis
      by (auto intro!: db.safe_seqO [OF publishActive_safe] db.safe_seqO [OF UpdateRollout_safe])
  qed
  show ?case using 4(3) by (auto split: option.splits intro: promote advance)
qed (simp_all add: assms(2))

lemma revertCanary_safe:
  assumes "wired mj aj rfc s" "store_ok mj aj rfc w" "res \<in> {''aborted'', ''rolled_back''}"
  shows "safe (store_ok mj aj rfc) db_grows (\<lambda>_ _. True) (revertCanary (sv_rollout s) i res st) (w :: 'z admin_tables_scheme)"
  unfolding revertCanary_def wired_rollout [OF assms(1)]
proof (rule db.safe_bindE [where P = "\<lambda>_ _. True" and Q = "\<lambda>row x. \<forall>r. row = Some r \<longrightarrow> rollout_ok (versions x) r"], goal_cases)
  case 1
  from GetRollout_safe show ?case by (rule db.safe_weaken) (auto split: sum.splits)
next
  case (4 row x)
  note keep = safe_keeps [OF wired_rollout(7) [OF assms(1)]]
  have "pointer_ok (versions x) \<lparr>ae_Stable = ro_StableVersionID r, ae_Canary = [], ae_CanaryPercent = 0\<rparr>" if "rollout_ok (versions x) r" for r
    using that by (simp add: pointer_ok_def rollout_ok_def)
  with 4 assms(3) show ?case
    by (auto split: option.splits intro!: db.safe_seqO [OF publishActive_safe] db.safe_seqP [OF keep] db.safe_seqO [OF UpdateRollout_safe])
qed (simp_all add: assms(2))

lemma CreateRollout_safe:
  assumes "wired mj aj rfc s" "store_ok mj aj rfc w"
  shows "safe (store_ok mj aj rfc) db_grows (\<lambda>_ _. True) (CreateRollout (sv_rollout s) m v j) (w :: 'z admin_tables_scheme)"
proof (cases "rl_json_Valid (sv_rollout s) j")
  case True
  note r = wired_rollout [OF assms(1)]
  from True have valid: "\<not> \<not> rl_json_Valid (sv_rollout s) j" by simp
  show ?thesis
    unfolding CreateRollout_def r(1-6) if_not_P [OF valid]
  proof (rule db.safe_bindE [where P = "\<lambda>_ _. True" and Q = "\<lambda>mf u. v \<in> versions u \<union> {[]}"], goal_cases)
    case 1
    from GetModelManifest_safe [OF assms] show ?case by (rule db.safe_weaken) (auto simp: versions_def split: sum.splits)
  next
    case (4 _ x)
    show ?case
    proof (rule db.safe_bindE [where P = "\<lambda>_ _. True" and Q = "\<lambda>mf u. mf \<in> set (t_manifest u)"], goal_cases)
      case 1
      from GetModelManifest_safe [OF assms(1) 4(1)] show ?case by (rule db.safe_weaken) (auto split: sum.splits)
    next
      case (4 active y)
      from 4(1) show ?case
      proof (rule db.safe_seqE [OF safe_keeps [OF r(9)]], goal_cases)
        case (2 running z)
        have ok: "v \<in> versions z \<union> {[]}" "active \<in> set (t_manifest z)"
          using \<open>v \<in> versions x \<union> {[]}\<close> versions_grow [OF 4(2)] versions_grow [OF 2(2)] manifest_mem [OF 4(3) 2(2)] by blast+
        have new: "safe (store_ok mj aj rfc) db_grows (\<lambda>_ _. True)
            (act (Cockroach_InsertRollout \<lparr>ro_RolloutID = i, ro_ModelRef = m, ro_VersionID = v, ro_StrategyJSON = j, ro_Stage = ''pending'',
               ro_Status = ''running'', ro_StableVersionID = mf_VersionID active, ro_StartedAt = t, ro_EndedAt = None, ro_StageEnteredAt = 0\<rparr>)) u"
          if "db_grows z z'" "db_grows z' u" for i t z' u
        proof -
          have g: "db_grows z u" using that db.R_trans by blast
          show ?thesis
            using ok versions_grow [OF g] manifest_mem [OF ok(2) g] by (intro InsertRollout_safe) (auto simp: versions_def)
        qed
        from 2(1) show ?case
          by (auto intro!: db.safe_seqP [OF safe_keeps [OF r(8)]] db.safe_seqP [OF safe_keeps [OF r(7)]] db.safe_seqO [OF new]
              db.safe_seqE [OF advanceStage_safe [OF assms(1)]])
      qed simp
    qed (simp_all add: 4)
  qed (simp_all add: assms(2))
qed (simp add: CreateRollout_def)

subsection \<open>Handlers and commands\<close>

text \<open>Control-plane's RPCs, each as a program that drops its reply.\<close>

datatype control_rpc =
    RpcRegisterModelManifest string string string
  | RpcGetModelManifest string string
  | RpcListModels
  | RpcIssueProviderToken string string
  | RpcCreateRollout string string string
  | RpcPromoteRollout string
  | RpcAbortRollout string
  | RpcGetRolloutStatus string string
  | RpcListRollouts string int
  | HttpReadyz

fun control_serve :: "(int \<Rightarrow> string) \<Rightarrow> 'w cp_server \<Rightarrow> control_rpc \<Rightarrow> ('w, unit) prog" where
  "control_serve rfc s (RpcRegisterModelManifest m j cb) = bindP (server_RegisterModelManifest s m j cb) (\<lambda>_. Ret ())"
| "control_serve rfc s (RpcGetModelManifest m v) = bindP (server_GetModelManifest rfc s m v) (\<lambda>_. Ret ())"
| "control_serve rfc s RpcListModels = bindP (server_ListModels s) (\<lambda>_. Ret ())"
| "control_serve rfc s (RpcIssueProviderToken p sc) = bindP (server_IssueProviderToken s p sc) (\<lambda>_. Ret ())"
| "control_serve rfc s (RpcCreateRollout m v j) = bindP (server_CreateRollout s m v j) (\<lambda>_. Ret ())"
| "control_serve rfc s (RpcPromoteRollout i) = bindP (server_PromoteRollout s i) (\<lambda>_. Ret ())"
| "control_serve rfc s (RpcAbortRollout i) = bindP (server_AbortRollout s i) (\<lambda>_. Ret ())"
| "control_serve rfc s (RpcGetRolloutStatus i m) = bindP (server_GetRolloutStatus rfc s i m) (\<lambda>_. Ret ())"
| "control_serve rfc s (RpcListRollouts m l) = bindP (server_ListRollouts rfc s m l) (\<lambda>_. Ret ())"
| "control_serve rfc s HttpReadyz = bindP (cp_readyz s) (\<lambda>_. Ret ())"

lemma server_writes_safe:
  assumes "wired mj aj rfc s" "store_ok mj aj rfc (w :: 'z admin_tables_scheme)"
  shows "safe (store_ok mj aj rfc) db_grows (\<lambda>_ _. True) (server_RegisterModelManifest s m j cb) w"
    "safe (store_ok mj aj rfc) db_grows (\<lambda>_ _. True) (server_CreateRollout s m v j) w"
    "safe (store_ok mj aj rfc) db_grows (\<lambda>_ _. True) (server_PromoteRollout s i) w"
    "safe (store_ok mj aj rfc) db_grows (\<lambda>_ _. True) (server_AbortRollout s i) w"
  unfolding server_RegisterModelManifest_def server_CreateRollout_def server_PromoteRollout_def server_AbortRollout_def
    PromoteRollout_def AbortRollout_def
  using assms
  by (auto intro!: db.safe_seqE [OF RegisterModelManifest_safe] db.safe_seqE [OF CreateRollout_safe]
      db.safe_seqE [OF advanceStage_safe] db.safe_seqO [OF revertCanary_safe])

lemma server_reads:
  assumes "wired mj aj rfc s"
  shows "guar unchanged (server_ListModels s)" "guar unchanged (server_GetModelManifest rfc3 s m v)"
    "guar unchanged (server_GetRolloutStatus rfc3 s i m)" "guar unchanged (server_ListRollouts rfc3 s m l)"
    "guar unchanged (server_IssueProviderToken s p sc)" "guar unchanged (cp_readyz s)"
proof -
  note w = assms [unfolded wired_def]
  have t: "keeps all_tables (IssueToken (sv_providerToken s) p sc)"
  proof -
    have "keeps all_tables (pt_reader (sv_providerToken s) p)" using w by blast
    then show ?thesis
      by (auto simp: keeps_def IssueToken_def split: prod.splits sum.splits) (metis snd_conv)+
  qed
  show "guar unchanged (server_ListModels s)"
    using w by (auto simp: server_ListModels_def ListModels_def registry_CockroachStore_def intro!: guar_bindE guar_keeps reads_keep)
  show "guar unchanged (server_GetModelManifest rfc3 s m v)"
    using w by (auto simp: server_GetModelManifest_def GetModelManifest_def registry_CockroachStore_def
        intro!: guar_bindE guar_keeps reads_keep)
  show "guar unchanged (server_GetRolloutStatus rfc3 s i m)"
    using w by (auto simp: server_GetRolloutStatus_def GetRolloutStatus_def rollout_CockroachStore_def split: option.splits
        intro!: guar_bindE guar_keeps reads_keep)
  show "guar unchanged (server_ListRollouts rfc3 s m l)"
    using w by (auto simp: server_ListRollouts_def rollout_ListRollouts_def Let_def rollout_CockroachStore_def
        intro!: guar_bindE guar_keeps reads_keep)
  show "guar unchanged (server_IssueProviderToken s p sc)"
    by (auto simp: server_IssueProviderToken_def intro!: guar_bindE guar_keeps t)
  show "guar unchanged (cp_readyz s)"
    using w by (auto simp: cp_readyz_def intro!: guar_bindO guar_keeps)
qed

lemma control_serve_safe:
  assumes "wired mj aj rfc s" "store_ok mj aj rfc (w :: 'z admin_tables_scheme)"
  shows "safe (store_ok mj aj rfc) db_grows (\<lambda>_ _. True) (control_serve rfc3 s c) w"
  using server_writes_safe [OF assms] safe_unchanged [OF server_reads(1) [OF assms(1)]] safe_unchanged [OF server_reads(2) [OF assms(1)]]
    safe_unchanged [OF server_reads(3) [OF assms(1)]] safe_unchanged [OF server_reads(4) [OF assms(1)]]
    safe_unchanged [OF server_reads(5) [OF assms(1)]] safe_unchanged [OF server_reads(6) [OF assms(1)]] assms(2)
  by (cases c) (auto intro!: db.safe_seqP)

lemma wired_control_reads:
  assumes "wired mj aj rfc s"
  shows "control_reads (cp_reader rfc3 s)"
  by unfold_locales (simp_all add: cp_reader_def rpc_call_unchanged server_reads [OF assms])

lemma rpc_call_safe:
  assumes "\<And>u. store_ok mj aj rfc u \<Longrightarrow> safe (store_ok mj aj rfc) db_grows (\<lambda>_ _. True) p u" "store_ok mj aj rfc w"
  shows "safe (store_ok mj aj rfc) db_grows (\<lambda>_ _. True) (rpc_call p) (w :: 'z admin_tables_scheme)"
  unfolding rpc_call_def
  using assms by (auto split: fault.splits intro!: db.safe_seqP [OF safe_keeps [OF reads_keep(9)]] db.safe_seqP [OF assms(1)])

lemma admin_handler_safe:
  assumes "wired mj aj rfc cp" "store_ok mj aj rfc (w :: 'z admin_tables_scheme)"
  shows "safe (store_ok mj aj rfc) db_grows (\<lambda>_ _. True) (admin_handler (admin_api sha rfc3 cp) ctx req) w"
proof -
  have rand: "keeps all_tables (GenerateRawKey rand_Read)"
    by (auto simp: keeps_def GenerateRawKey_def rand_Read_def all_tables_eq split: prod.splits sum.splits list.splits)
  show ?thesis
    using assms(2)
    by (cases req) (auto simp: admin_handlers admin_api_sel cp_publisher_def keys_CockroachStore_def split: option.splits
      intro!: db.safe_seqE [OF rpc_call_safe] server_writes_safe [OF assms(1)] db.safe_seqE [OF safe_keeps [OF rand]]
        db.safe_seqE [OF Create_safe] db.safe_seqE [OF Revoke_safe])
qed

lemma audit_interceptor_safe:
  assumes "\<And>u. store_ok mj aj rfc u \<Longrightarrow> safe (store_ok mj aj rfc) db_grows (\<lambda>_ _. True) (handler ctx req) u"
    and "store_ok mj aj rfc (w :: 'z admin_tables_scheme)"
  shows "safe (store_ok mj aj rfc) db_grows (\<lambda>_ _. True) (AuditUnaryInterceptor (CockroachWriter_Write marshal jsonb) meth handler ctx req) w"
  unfolding AuditUnaryInterceptor_def audit_failure_def audit_success_def
  using assms(2)
  by (auto split: option.splits call.splits sum.splits
      intro!: assms(1) db.safe_seqP [OF assms(1)] db.safe_seqP [OF Write_safe] db.safe_seqO [OF Write_safe])

lemma admin_grpc_safe:
  assumes "wired mj aj rfc cp" "store_ok mj aj rfc (w :: 'z admin_tables_scheme)"
  shows "safe (store_ok mj aj rfc) db_grows (\<lambda>_ _. True)
    (admin_grpc Cockroach_LookupByHash (CockroachWriter_Write marshal jsonb) (admin_api sha rfc3 cp) ctx req) w"
proof -
  have l: "keeps all_tables (Authenticate sha Cockroach_LookupByHash tok)" for tok
    by (rule Lookup_keeps) (simp add: all_tables_updates)
  show ?thesis
    unfolding admin_grpc_def authn_UnaryInterceptor_def authz_UnaryInterceptor_def admin_api_sel
    using assms(2)
    by (auto split: option.splits intro!: db.safe_seqE [OF safe_keeps [OF l]] db.safe_seqP [OF Write_safe]
      audit_interceptor_safe admin_handler_safe [OF assms(1)])
qed

text \<open>The reconciler, with a client for AnalysisRuns and a clock outside the tables.\<close>

lemma reconcileOne_safe:
  assumes "wired mj aj rfc cp" "store_ok mj aj rfc (w :: 'z admin_tables_scheme)"
    and "rc_driver r = rollout_driver (sv_rollout cp)" "\<And>i st. keeps all_tables (ac_FindForStage (rc_runs r) i st)"
    and "\<And>i m st pc. keeps all_tables (ac_CreateForStage (rc_runs r) i m st pc)" "keeps all_tables (rc_Now r)"
  shows "safe (store_ok mj aj rfc) db_grows (\<lambda>_ _. True) (reconcileOne r ro) w"
  unfolding reconcileOne_def assms(3) rollout_driver_def RolloutDriver.simps AutoAdvance_def AutoRollback_def
  using assms(2)
  by (auto split: option.splits intro!: db.safe_seqE [OF safe_keeps [OF assms(4)]] db.safe_seqP [OF safe_keeps [OF assms(6)]]
    db.safe_seqO [OF safe_keeps [OF assms(5)]] db.safe_seqE [OF advanceStage_safe [OF assms(1)]] db.safe_seqO [OF revertCanary_safe [OF assms(1)]])

lemma reconcile_each_safe:
  assumes "\<And>u ro. store_ok mj aj rfc u \<Longrightarrow> safe (store_ok mj aj rfc) db_grows (\<lambda>_ _. True) (reconcileOne r ro) u"
    and "store_ok mj aj rfc (w :: 'z admin_tables_scheme)"
  shows "safe (store_ok mj aj rfc) db_grows (\<lambda>_ _. True) (reconcile_each r ros) w"
  using assms(2)
proof (induction ros arbitrary: w)
  case (Cons ro ros)
  then show ?case by (auto intro!: db.safe_seqP [OF assms(1)] db.safe_seqP [OF Cons.IH])
qed simp

lemma Reconciler_Run_safe:
  assumes "wired mj aj rfc cp" "store_ok mj aj rfc (w :: 'z admin_tables_scheme)"
    and "rc_driver r = rollout_driver (sv_rollout cp)" "\<And>i st. keeps all_tables (ac_FindForStage (rc_runs r) i st)"
    and "\<And>i m st pc. keeps all_tables (ac_CreateForStage (rc_runs r) i m st pc)" "keeps all_tables (rc_Now r)"
  shows "safe (store_ok mj aj rfc) db_grows (\<lambda>_ _. True) (Reconciler_Run r n) w"
proof -
  have l: "keeps all_tables (rt_ListRunningRollouts (rl_store (sv_rollout cp)))"
    using assms(1) db_read_keeps by (simp add: wired_def rollout_CockroachStore_def Cockroach_ListRunningRollouts_def)
  note one = reconcileOne_safe [OF assms(1) _ assms(3-6)]
  have all: "safe (store_ok mj aj rfc) db_grows (\<lambda>_ _. True) (reconcileAll r) u" if "store_ok mj aj rfc u" for u :: "'z admin_tables_scheme"
    using that unfolding reconcileAll_def assms(3) rollout_driver_def RolloutDriver.simps rollout_ListRunningRollouts_def
    by (auto intro!: db.safe_seqE [OF safe_keeps [OF l]] db.safe_seqP [OF reconcile_each_safe [OF one]])
  show ?thesis
    using assms(2) by (induction n arbitrary: w) (auto intro!: db.safe_seqP [OF all])
qed

section \<open>All processes together\<close>

text \<open>
  The processes that write to the stores: replicas of control-plane, numbered, each with its own signer and its own client
  for AnalysisRuns, and admin-api, whose calls reach any of them.
\<close>

record ('z, 'f) cluster =
  ce_cp :: "nat \<Rightarrow> 'z admin_tables_scheme cp_server"
  ce_runs :: "nat \<Rightarrow> 'z admin_tables_scheme analysis_Client"
  ce_mj :: "ManifestEnvelope \<Rightarrow> string"
  ce_aj :: "ActiveEnvelope \<Rightarrow> string"
  ce_rfc :: "int \<Rightarrow> string"
  ce_sha :: "string \<Rightarrow> string"
  ce_marshal :: "audit_value \<Rightarrow> string result"
  ce_jsonb :: "string \<Rightarrow> string"
  ce_prov :: "'z admin_tables_scheme \<Rightarrow> pb_ProviderStatus list result \<times> 'z admin_tables_scheme"
  ce_query :: "string \<Rightarrow> 'z admin_tables_scheme \<Rightarrow> 'f result \<times> 'z admin_tables_scheme"
  ce_zero :: 'f

datatype cluster_call =
    Command nat rpc_ctx admin_req
  | Query nat rpc_ctx graph_query
  | Rpc nat control_rpc
  | Reconcile nat nat

fun cluster_serve :: "('z, 'f) cluster \<Rightarrow> cluster_call \<Rightarrow> ('z admin_tables_scheme, unit) prog" where
  "cluster_serve e (Command n ctx req) =
     bindP (admin_grpc Cockroach_LookupByHash (CockroachWriter_Write (ce_marshal e) (ce_jsonb e))
              (admin_api (ce_sha e) (ce_rfc e) (ce_cp e n)) ctx req) (\<lambda>_. Ret ())"
| "cluster_serve e (Query n ctx q) = graph_serve (admin_resolver (ce_rfc e) (ce_cp e n) (ce_prov e) (ce_query e) (ce_zero e)) ctx q"
| "cluster_serve e (Rpc n c) = control_serve (ce_rfc e) (ce_cp e n) c"
| "cluster_serve e (Reconcile n ticks) =
     Reconciler_Run (NewReconciler (rollout_driver (sv_rollout (ce_cp e n))) (ce_runs e n) read_clock) ticks"

definition cluster_ok :: "('z, 'f) cluster \<Rightarrow> bool" where
  "cluster_ok e \<longleftrightarrow>
     (\<forall>n. wired (ce_mj e) (ce_aj e) (ce_rfc e) (ce_cp e n)) \<and>
     (\<forall>n i st. keeps all_tables (ac_FindForStage (ce_runs e n) i st)) \<and>
     (\<forall>n i m st pc. keeps all_tables (ac_CreateForStage (ce_runs e n) i m st pc)) \<and>
     keeps all_tables (ce_prov e) \<and> (\<forall>ql. keeps all_tables (ce_query e ql))"

lemma cluster_serve_safe:
  assumes "cluster_ok e" "store_ok (ce_mj e) (ce_aj e) (ce_rfc e) w"
  shows "safe (store_ok (ce_mj e) (ce_aj e) (ce_rfc e)) db_grows (\<lambda>_ _. True) (cluster_serve e c) w"
proof (cases c)
  case (Command n ctx req)
  have "wired (ce_mj e) (ce_aj e) (ce_rfc e) (ce_cp e n)" using assms(1) by (simp add: cluster_ok_def)
  then show ?thesis using assms(2) Command by (auto intro!: db.safe_seqP [OF admin_grpc_safe])
next
  case (Query n ctx q)
  have "wired (ce_mj e) (ce_aj e) (ce_rfc e) (ce_cp e n)" using assms(1) by (simp add: cluster_ok_def)
  note reads = wired_control_reads [OF this]
  show ?thesis
    using assms(1) unfolding Query cluster_serve.simps
    by (intro safe_unchanged control_reads.graph_serve_unchanged [OF reads]) (auto simp: admin_resolver_sel cluster_ok_def)
next
  case (Rpc n r)
  then show ?thesis using assms by (auto simp: cluster_ok_def intro: control_serve_safe)
next
  case (Reconcile n t)
  have clk: "keeps all_tables read_clock" by (simp add: keeps_def read_clock_def)
  show ?thesis
    using assms clk unfolding Reconcile cluster_serve.simps
    by (intro Reconciler_Run_safe [of _ _ _ "ce_cp e n"]) (auto simp: cluster_ok_def NewReconciler_def)
qed

lemma cluster_store_ok:
  assumes "cluster_ok e" "conc_reaches (map (cluster_serve e) calls, w) (ps, w')" "store_ok (ce_mj e) (ce_aj e) (ce_rfc e) w"
  shows "store_ok (ce_mj e) (ce_aj e) (ce_rfc e) w' \<and> db_grows w w'"
  using db.conc_safe [OF assms(2) _ assms(3), of "\<lambda>_ _. True"] cluster_serve_safe [OF assms(1,3)] by auto

section \<open>Properties\<close>

text \<open>
  C3. The schema is a type of the database: in every interleaving of commands, queries, control-plane RPCs and reconcilers on
  any number of replicas, whatever calls fail or lose their replies, the tables stay well-formed. Primary and unique keys are
  unique, every active version, tenant and actor that is referred to exists, every rollout has one of the five stages and
  the four states the CHECK constraints allow, and it names stored versions although no foreign key asks for it.
\<close>

theorem schema_preserved:
  assumes "cluster_ok e" "conc_reaches (map (cluster_serve e) calls, w) (ps, w')"
    and "schema_ok w" "etcd_ok (ce_mj e) (ce_aj e) (ce_rfc e) w"
  shows "schema_ok w'"
  using cluster_store_ok [OF assms(1,2)] assms(3,4) by (simp add: store_ok_def)

text \<open>A cluster of replicas with the test signer and no AnalysisRuns, and its first publication.\<close>

definition demo_cluster :: "(unit, int) cluster" where
  "demo_cluster = \<lparr>
     ce_cp = (\<lambda>_. cp_services (\<lambda>k p. k @ p) (\<lambda>e. me_VersionID e) (\<lambda>e. ae_Stable e) (\<lambda>j. j \<noteq> []) (\<lambda>t. []) demo_pt),
     ce_runs = (\<lambda>_. \<lparr>ac_FindForStage = (\<lambda>i st w. (Inr None, w)), ac_CreateForStage = (\<lambda>i m st pc w. (None, w))\<rparr>),
     ce_mj = (\<lambda>e. me_VersionID e), ce_aj = (\<lambda>e. ae_Stable e), ce_rfc = (\<lambda>t. []), ce_sha = (\<lambda>t. t),
     ce_marshal = (\<lambda>v. Inr ''{}''), ce_jsonb = (\<lambda>j. j), ce_prov = (\<lambda>w. (Inr [], w)),
     ce_query = (\<lambda>ql w. (Inl (ErrorString ''down''), w)), ce_zero = 0\<rparr>"

lemma demo_cluster_ok: "cluster_ok demo_cluster"
  by (auto simp: cluster_ok_def demo_cluster_def wired_def cp_services_def cp_eval keeps_def all_tables_eq demo_pt_def FakeSecretReader_def
      FakeSigner_Sign_def FakeSigner_Verify_def draw_uuid_def read_clock_def split: list.splits option.splits)

lemma demo_admin_ok: "schema_ok demo_admin" "etcd_ok mj aj rfc demo_admin"
  by (simp_all add: schema_ok_def etcd_ok_def demo_admin_def demo_users_def)

theorem schema_preserved_witness:
  "schema_ok (snd (conc_run [0, 1, 0, 1, 2, 0, 2, 0, 0, 2, 1]
     (map (cluster_serve demo_cluster) [Command 0 (demo_ctx ''Bearer secret-a'') (PublishModelVersionRequest ''gpt'' ''{}''),
        Rpc 1 (RpcCreateRollout ''gpt'' ''v1'' ''{}''), Reconcile 2 3], demo_admin)))"
proof -
  let ?c = "(map (cluster_serve demo_cluster) [Command 0 (demo_ctx ''Bearer secret-a'') (PublishModelVersionRequest ''gpt'' ''{}''),
        Rpc 1 (RpcCreateRollout ''gpt'' ''v1'' ''{}''), Reconcile 2 3], demo_admin)"
  let ?d = "conc_run [0, 1, 0, 1, 2, 0, 2, 0, 0, 2, 1] ?c"
  have "conc_reaches ?c (fst ?d, snd ?d)" unfolding prod.collapse by (rule conc_run_reaches)
  from schema_preserved [OF demo_cluster_ok this demo_admin_ok(1) demo_admin_ok(2)] show ?thesis .
qed

text \<open>
  C8. etcd distributes only what is stored: in every such interleaving each key of etcd holds the envelope of a manifest in
  the database, with its content and its signature, or the pointer of a model whose stable version and canary are stored
  versions and whose share of traffic is that of a canary stage. A reader of etcd never meets a version that the database does not know.
\<close>

theorem etcd_holds_stored_versions:
  assumes "cluster_ok e" "conc_reaches (map (cluster_serve e) calls, w) (ps, w')"
    and "schema_ok w" "etcd_ok (ce_mj e) (ce_aj e) (ce_rfc e) w" "es_kv w' k = Some x"
  shows "(\<exists>m \<in> set (t_manifest w'). k = manifest_key (mf_ModelRef m) (mf_VersionID m) \<and> x = ce_mj e (envelope_of (ce_rfc e) m)) \<or>
    (\<exists>model p. k = active_key model \<and> x = ce_aj e p \<and> ae_Stable p \<in> versions w' \<and> ae_Canary p \<in> versions w' \<union> {[]} \<and>
       ae_CanaryPercent p \<in> {0, 1, 10, 50})"
  using cluster_store_ok [OF assms(1,2)] assms(3-5) by (simp add: store_ok_def etcd_ok_def entry_ok_def pointer_ok_def)

lemma demo_publish_etcd:
  "es_kv (snd (run (cluster_serve demo_cluster (Command 0 (demo_ctx ''Bearer secret-a'') (PublishModelVersionRequest ''gpt'' ''{}''))) demo_admin))
     (active_key ''gpt'') = Some ''v1''"
proof -
  let ?p = "demo_call ''Bearer secret-a'' (PublishModelVersionRequest ''gpt'' ''{}'')"
  have "cluster_serve demo_cluster (Command 0 (demo_ctx ''Bearer secret-a'') (PublishModelVersionRequest ''gpt'' ''{}'')) = bindP ?p (\<lambda>_. Ret ())"
    by (simp add: demo_cluster_def demo_call_def demo_admin_api_def)
  moreover have "es_kv (snd (run ?p demo_admin)) (active_key ''gpt'') = Some ''v1''"
    by (simp add: demo_run demo_admin_api_def admin_api_sel cp_publisher_def rpc_call_def rpc_next_def server_RegisterModelManifest_def
      cp_services_def RegisterModelManifest_def ActivateVersion_def demo_eval demo_admin_def demo_users_def)
  ultimately show ?thesis by (cases "run ?p demo_admin") simp
qed

theorem etcd_holds_stored_versions_witness:
  "\<exists>m \<in> set (t_manifest (snd (run (cluster_serve demo_cluster
      (Command 0 (demo_ctx ''Bearer secret-a'') (PublishModelVersionRequest ''gpt'' ''{}''))) demo_admin))). mf_VersionID m = ''v1''"
proof -
  let ?p = "cluster_serve demo_cluster (Command 0 (demo_ctx ''Bearer secret-a'') (PublishModelVersionRequest ''gpt'' ''{}''))"
  have c: "conc_reaches (map (cluster_serve demo_cluster) [Command 0 (demo_ctx ''Bearer secret-a'') (PublishModelVersionRequest ''gpt'' ''{}'')], demo_admin)
      ([Ret (fst (run ?p demo_admin))], snd (run ?p demo_admin))"
    using run_reaches [of ?p demo_admin] by (simp only: list.map)
  define w' where "w' = snd (run ?p demo_admin)"
  have n: "active_key ''gpt'' \<noteq> manifest_key (mf_ModelRef m) (mf_VersionID m)" for m by (rule manifest_key_neq_active_key [symmetric])
  from etcd_holds_stored_versions [OF demo_cluster_ok c demo_admin_ok(1) demo_admin_ok(2) demo_publish_etcd, folded w'_def]
  have "\<exists>p. ''v1'' = ce_aj demo_cluster p \<and> ae_Stable p \<in> versions w'" using n by blast
  moreover have "ce_aj demo_cluster p = ae_Stable p" for p by (simp add: demo_cluster_def)
  ultimately show ?thesis unfolding w'_def [symmetric] versions_def by auto
qed

end
