(* ===== verification/Provider_Fake.thy ===== *)
theory Provider_Fake
  imports Fake_Wire
begin

text \<open>
  The controllable provider of the test harness (\<^verbatim>\<open>services/provider-fake/main.go\<close>): an HTTP service that streams canned
  chunks, fails with a chosen status or breaks off in the middle of a chunk, as the request asks. The handler is
  defined over the JSON codec of the request and of a chunk; the codec itself is \<open>harness_decode\<close> and \<open>harness_encode\<close>, where an
  encoded chunk ends with the line feed that \<^verbatim>\<open>Encoder.Encode\<close> adds. The pauses of the mode slow are kept as events
  between the writes.
\<close>

section \<open>Model\<close>






subsection \<open>The codec\<close>






subsection \<open>The handler\<close>










section \<open>Facts\<close>




















section \<open>End to end\<close>


subsection \<open>On the wire\<close>
















section \<open>Properties\<close>





end
