(* ===== verification/Startup.thy ===== *)
theory Startup
  imports Schema Leader Provider_Fake
begin

text \<open>
  The \<^verbatim>\<open>main\<close> functions of the four services: what they read from the environment, what they connect to and in which order,
  when they exit, what they wire together, and the HTTP routes they serve. A process that comes up is a record of its
  wiring; the connections are calls of one operation \<open>bt_try\<close> that can fail.

  \<open>control_main\<close> wires control-plane with Vault as its signer, so that the results of \<open>Schema\<close> hold for the services as they are
  deployed; \<open>admin_http\<close> puts the GraphQL queries behind their authentication.
\<close>

section \<open>Model\<close>

subsection \<open>Connections\<close>

datatype boot_call =
    SqlOpen string string
  | SqlPing
  | EtcdNew "string list"
  | InClusterConfig
  | DynamicNew
  | GoElection string
  | OtlpExporter string
  | GrpcClient string
  | ListModelsProbe
  | GoRefresh string
  | NetListen string
  | GoServeGRPC string
  | ListenAndServe string

text \<open>
  \<open>bt_try\<close> performs one of them. For the calls that block while all is well (\<^verbatim>\<open>ListenAndServe\<close>) an error is their return.
\<close>

record 'w boot =
  bt_Getenv :: "string \<Rightarrow> string"
  bt_try :: "boot_call \<Rightarrow> 'w \<Rightarrow> go_error option \<times> 'w"

datatype 'a main_end = Exit int | Serving 'a

text \<open>
  A call whose failure ends the process, and one that \<^verbatim>\<open>main\<close> goes on after in any case: a probe that is only logged, or the start
  of a goroutine. How the goroutine of the election ends is \<open>election_goroutine\<close>.
\<close>

definition hard :: "'w boot \<Rightarrow> boot_call \<Rightarrow> ('w, 'a main_end) prog \<Rightarrow> ('w, 'a main_end) prog" where
  "hard b c k = bindO (act (bt_try b c)) (\<lambda>err. Ret (Exit 1)) k"

definition soft :: "'w boot \<Rightarrow> boot_call \<Rightarrow> ('w, 'a main_end) prog \<Rightarrow> ('w, 'a main_end) prog" where
  "soft b c k = bindP (act (bt_try b c)) (\<lambda>_. k)"

fun strings_Split :: "string \<Rightarrow> char \<Rightarrow> string list" where
  "strings_Split [] sep = [[]]"
| "strings_Split (x # xs) sep =
     (case strings_Split xs sep of
        [] \<Rightarrow> []
      | part # parts \<Rightarrow> if x = sep then [] # part # parts else (x # part) # parts)"

subsection \<open>control-plane\<close>

text \<open>The replicas' Vault clients, each with its cached token, beside the tables.\<close>

record cp_world = admin_tables +
  vw_clients :: "nat \<Rightarrow> vault_Client"

definition on_client ::
  "nat \<Rightarrow> (vault_Client \<times> 'z cp_world_scheme \<Rightarrow> 'r \<times> vault_Client \<times> 'z cp_world_scheme) \<Rightarrow> 'z cp_world_scheme \<Rightarrow> 'r \<times> 'z cp_world_scheme" where
  "on_client n f w =
     (case f (vw_clients w n, w) of (r, c, w1) \<Rightarrow> (r, w1\<lparr>vw_clients := (vw_clients w1)(n := c)\<rparr>))"

text \<open>The rest of the outside world: Vault's HTTP API, etcd, Kubernetes, UUIDs and the clock.\<close>

record 'w cp_outside =
  ox_vault :: "'w vault_env"
  ox_Put :: "string \<Rightarrow> string \<Rightarrow> 'w \<Rightarrow> go_error option \<times> 'w"
  ox_dynamic :: "'w k8s_dynamic"
  ox_NewUUID :: "'w \<Rightarrow> string \<times> 'w"
  ox_Now :: "'w \<Rightarrow> int \<times> 'w"
  ox_RFC3339 :: "int \<Rightarrow> string"

definition cp_dsn :: "(string \<Rightarrow> string) \<Rightarrow> string" where
  "cp_dsn Getenv =
     ''postgres://'' @ envOr Getenv ''COCKROACH_USER'' ''control_plane'' @ ''@''
       @ envOr Getenv ''COCKROACH_HOST'' ''onezox-crdb-public.default.svc.cluster.local'' @ '':''
       @ envOr Getenv ''COCKROACH_PORT'' ''26257'' @ ''/defaultdb?sslmode=disable''"

definition cp_etcdEndpoints :: "(string \<Rightarrow> string) \<Rightarrow> string list" where
  "cp_etcdEndpoints Getenv =
     strings_Split (envOr Getenv ''ETCD_ENDPOINTS'' ''http://etcd.default.svc.cluster.local:2379'') CHR '',''"

definition cp_vaultClient :: "(string \<Rightarrow> string) \<Rightarrow> vault_Client" where
  "cp_vaultClient Getenv =
     vault_New (envOr Getenv ''VAULT_ADDR'' ''http://vault-active.default.svc.cluster.local:8200'')
       (envOr Getenv ''VAULT_K8S_ROLE'' ''control-plane'')"

definition cp_providerTokenTTL :: "(string \<Rightarrow> string) \<Rightarrow> duration" where
  "cp_providerTokenTTL Getenv = wrap64 (envInt64Or Getenv ''PROVIDER_TOKEN_TTL_SECONDS'' 300 * nsPerSecond)"

definition cp_etcdCli :: "'w cp_outside \<Rightarrow> 'w etcd_Client" where
  "cp_etcdCli x =
     \<lparr>etcd_Put = ox_Put x, etcd_MarshalManifest = (\<lambda>e. Inr (manifest_text e)), etcd_MarshalActive = (\<lambda>e. Inr (active_text e))\<rparr>"

definition cp_registrySvc :: "nat \<Rightarrow> 'z cp_world_scheme cp_outside \<Rightarrow> 'z cp_world_scheme registry_Service" where
  "cp_registrySvc n x =
     \<lparr>rg_store = registry_CockroachStore,
      rg_signer = \<lparr>sg_Sign = (\<lambda>k p. on_client n (vault_Sign (ox_vault x) k p)),
                   sg_Verify = (\<lambda>k p s. on_client n (vault_Verify (ox_vault x) k p s))\<rparr>,
      rg_publisher = etcd_registry_Publisher (cp_etcdCli x), rg_json_Valid = json_Valid, rg_NewUUID = ox_NewUUID x,
      rg_Now = ox_Now x, rg_RFC3339 = ox_RFC3339 x\<rparr>"

definition cp_rolloutSvc :: "nat \<Rightarrow> 'z cp_world_scheme cp_outside \<Rightarrow> 'z cp_world_scheme rollout_Service" where
  "cp_rolloutSvc n x =
     \<lparr>rl_store = rollout_CockroachStore, rl_PublishCanaryState = etcd_PublishCanaryState (cp_etcdCli x),
      rl_GetModelManifest = GetModelManifest (cp_registrySvc n x), rl_ActivateVersion = ActivateVersion (cp_registrySvc n x),
      rl_json_Valid = json_Valid, rl_NewUUID = ox_NewUUID x, rl_Now = ox_Now x\<rparr>"

definition cp_providerTokenSvc ::
  "(string \<Rightarrow> string) \<Rightarrow> nat \<Rightarrow> 'z cp_world_scheme cp_outside \<Rightarrow> 'z cp_world_scheme providertoken_Service" where
  "cp_providerTokenSvc Getenv n x =
     \<lparr>pt_reader = (\<lambda>provider. on_client n (ReadProviderSecret (ox_vault x) provider)), pt_ttl = cp_providerTokenTTL Getenv\<rparr>"

definition cp_analysisClient :: "(string \<Rightarrow> string) \<Rightarrow> 'w cp_outside \<Rightarrow> 'w analysis_Client" where
  "cp_analysisClient Getenv x =
     K8sClient_ops
       \<lparr>kc_dyn = ox_dynamic x, kc_namespace = envOr Getenv ''ANALYSIS_NAMESPACE'' ''default'',
        kc_promAddr = envOr Getenv ''PROMETHEUS_ADDR'' ''http://prometheus-server.default.svc.cluster.local'',
        kc_NewUUID = ox_NewUUID x\<rparr>"

definition cp_main_reconciler :: "(string \<Rightarrow> string) \<Rightarrow> nat \<Rightarrow> 'z cp_world_scheme cp_outside \<Rightarrow> 'z cp_world_scheme Reconciler" where
  "cp_main_reconciler Getenv n x =
     NewReconciler (rollout_driver (cp_rolloutSvc n x)) (cp_analysisClient Getenv x) (ox_Now x)"

definition cp_wiring :: "'z cp_world_scheme boot \<Rightarrow> nat \<Rightarrow> 'z cp_world_scheme cp_outside \<Rightarrow> 'z cp_world_scheme cp_server" where
  "cp_wiring b n x =
     \<lparr>sv_registry = cp_registrySvc n x, sv_providerToken = cp_providerTokenSvc (bt_Getenv b) n x, sv_rollout = cp_rolloutSvc n x,
      sv_ping = bt_try b SqlPing\<rparr>"

text \<open>A replica that is up: its server, its reconciler and the addresses it listens on.\<close>

record 'w cp_process =
  cpp_server :: "'w cp_server"
  cpp_reconciler :: "'w Reconciler"
  cpp_grpc :: string
  cpp_http :: string

definition control_main ::
  "'z cp_world_scheme boot \<Rightarrow> nat \<Rightarrow> 'z cp_world_scheme cp_outside \<Rightarrow> ('z cp_world_scheme, 'z cp_world_scheme cp_process main_end) prog" where
  "control_main b n x =
     (let env = bt_Getenv b; grpcAddr = '':'' @ envOr env ''GRPC_PORT'' ''50051''; httpAddr = '':'' @ envOr env ''PORT'' ''8080''
      in hard b (SqlOpen ''pgx'' (cp_dsn env))
        (hard b SqlPing
        (bindP (act (\<lambda>w. ((), w\<lparr>vw_clients := (vw_clients w)(n := cp_vaultClient env)\<rparr>))) (\<lambda>_.
         hard b (EtcdNew (cp_etcdEndpoints env))
        (hard b InClusterConfig
        (hard b DynamicNew
        (soft b (GoElection (envOr env ''ANALYSIS_NAMESPACE'' ''default''))
        (hard b (NetListen grpcAddr)
        (soft b (GoServeGRPC grpcAddr)
        (hard b (ListenAndServe httpAddr)
           (Ret (Serving \<lparr>cpp_server = cp_wiring b n x, cpp_reconciler = cp_main_reconciler env n x, cpp_grpc = grpcAddr, cpp_http = httpAddr\<rparr>))))))))))))"

subsection \<open>admin-api\<close>

definition admin_dsn :: "(string \<Rightarrow> string) \<Rightarrow> string" where
  "admin_dsn Getenv =
     ''postgres://'' @ envOr Getenv ''COCKROACH_USER'' ''admin_api'' @ ''@''
       @ envOr Getenv ''COCKROACH_HOST'' ''onezox-crdb-public.default.svc.cluster.local'' @ '':''
       @ envOr Getenv ''COCKROACH_PORT'' ''26257'' @ ''/defaultdb?sslmode=disable''"

definition admin_metricsClient :: "(string \<Rightarrow> string) \<Rightarrow> promclient" where
  "admin_metricsClient Getenv = promclient_New (envOr Getenv ''PROMETHEUS_ADDR'' ''http://prometheus-server.default.svc.cluster.local'')"

text \<open>
  The routes of the HTTP server. \<^verbatim>\<open>http.ServeMux\<close> matches a method and a cleaned path, where GET stands for HEAD too; a path with
  another method gets 405. A response is its status and its body.
\<close>

datatype 'h route = Route 'h | MethodNotAllowed | NoRoute

definition mux_route :: "(string \<times> string \<times> 'h) list \<Rightarrow> string \<Rightarrow> string \<Rightarrow> 'h route" where
  "mux_route routes verb path =
     (case filter (\<lambda>(m, p, h). p = path \<and> (m = verb \<or> m = ''GET'' \<and> verb = ''HEAD'')) routes of
        (_, _, h) # _ \<Rightarrow> Route h
      | [] \<Rightarrow> if path \<in> (fst \<circ> snd) ` set routes then MethodNotAllowed else NoRoute)"

datatype admin_route = GraphqlRoute | HealthzRoute | ReadyzRoute | MetricsRoute

definition admin_mux :: "(string \<times> string \<times> admin_route) list" where
  "admin_mux =
     [(''POST'', ''/graphql'', GraphqlRoute), (''GET'', ''/healthz'', HealthzRoute), (''GET'', ''/readyz'', ReadyzRoute),
      (''GET'', ''/metrics'', MetricsRoute)]"

record http_incoming =
  in_method :: string
  in_path :: string
  in_authorization :: string
  in_body :: string

text \<open>A request has no metadata and no identity before the middleware; \<open>graphqlSrv\<close> is gqlgen's server around the resolvers.\<close>

definition http_ctx :: rpc_ctx where
  "http_ctx = \<lparr>ctx_metadata = None, ctx_identity = None\<rparr>"

definition admin_http ::
  "(string \<Rightarrow> string) \<Rightarrow> 'w authn_Store \<Rightarrow> ('w \<Rightarrow> go_error option \<times> 'w) \<Rightarrow> ('w, int \<times> string) prog
     \<Rightarrow> (rpc_ctx \<Rightarrow> string \<Rightarrow> ('w, int \<times> string) prog) \<Rightarrow> http_incoming \<Rightarrow> ('w, int \<times> string) prog" where
  "admin_http sha256_hex store ping metrics graphqlSrv req =
     (case mux_route admin_mux (in_method req) (in_path req) of
        Route GraphqlRoute \<Rightarrow> HTTPMiddleware sha256_hex store graphqlSrv (in_authorization req) http_ctx (in_body req)
      | Route HealthzRoute \<Rightarrow> Ret admin_healthz
      | Route ReadyzRoute \<Rightarrow> admin_readyz ping
      | Route MetricsRoute \<Rightarrow> metrics
      | MethodNotAllowed \<Rightarrow> Ret (405, ''Method Not Allowed'' @ [newline])
      | NoRoute \<Rightarrow> Ret (404, ''404 page not found'' @ [newline]))"

record ('w, 'f) admin_process =
  adp_server :: "'w admin_server"
  adp_resolver :: "('w, 'f) graph_Resolver"
  adp_grpc :: string
  adp_http :: string

text \<open>\<open>cp\<close> and \<open>providers\<close> are what the two connections reach.\<close>

definition admin_main ::
  "'z admin_tables_scheme boot \<Rightarrow> (string \<Rightarrow> string) \<Rightarrow> (int \<Rightarrow> string) \<Rightarrow> ('z admin_tables_scheme, 'f) prom_env \<Rightarrow> 'z admin_tables_scheme cp_server
     \<Rightarrow> ('z admin_tables_scheme \<Rightarrow> pb_ProviderStatus list result \<times> 'z admin_tables_scheme)
     \<Rightarrow> ('z admin_tables_scheme, ('z admin_tables_scheme, 'f) admin_process main_end) prog" where
  "admin_main b sha rfc prom cp providers =
     (let env = bt_Getenv b; grpcAddr = '':'' @ envOr env ''GRPC_PORT'' ''50051''; httpAddr = '':'' @ envOr env ''PORT'' ''8080''
      in hard b (SqlOpen ''pgx'' (admin_dsn env))
        (hard b SqlPing
        (hard b (GrpcClient (envOr env ''CONTROL_PLANE_ADDR'' ''control-plane.default.svc.cluster.local:50051''))
        (soft b ListModelsProbe
        (hard b (GrpcClient (envOr env ''PROVIDER_GATEWAY_ADDR'' ''provider-gateway.default.svc.cluster.local:50051''))
        (hard b (NetListen grpcAddr)
        (soft b (GoServeGRPC grpcAddr)
        (hard b (ListenAndServe httpAddr)
           (Ret (Serving \<lparr>adp_server = admin_api sha rfc cp,
              adp_resolver = admin_resolver rfc cp providers (QueryScalar prom (admin_metricsClient env)) (pe_zero prom),
              adp_grpc = grpcAddr, adp_http = httpAddr\<rparr>))))))))))"

subsection \<open>provider-gateway\<close>

definition gateway_initTracer :: "'w boot \<Rightarrow> ('w, 'a main_end) prog \<Rightarrow> ('w, 'a main_end) prog" where
  "gateway_initTracer b k =
     hard b (OtlpExporter (envOr (bt_Getenv b) ''OTEL_EXPORTER_OTLP_ENDPOINT_HOST''
       ''otel-collector-opentelemetry-collector.default.svc.cluster.local:4317'')) k"

definition gateway_redis_addr :: "(string \<Rightarrow> string) \<Rightarrow> string" where
  "gateway_redis_addr Getenv = envOr Getenv ''REDIS_HOST'' ''redis-cluster-headless.default.svc.cluster.local'' @ '':6379''"

fun go_refreshes :: "'w boot \<Rightarrow> (real_adapter Resolver \<times> duration) list \<Rightarrow> ('w, 'a main_end) prog \<Rightarrow> ('w, 'a main_end) prog" where
  "go_refreshes b [] k = k"
| "go_refreshes b ((r, wait) # rs) k = soft b (GoRefresh (rv_provider r)) (go_refreshes b rs k)"

record 'h gateway_process =
  gwp_server :: "(any_stream, 'h) server"
  gwp_resolvers :: "(real_adapter Resolver \<times> duration) list"
  gwp_redis :: string
  gwp_grpc :: string
  gwp_http :: string

text \<open>\<open>counter\<close> and \<open>store\<close> are the two clients of the Redis cluster.\<close>

definition gateway_main ::
  "'w boot \<Rightarrow> 'w TokenFetcher \<Rightarrow> gateway_json \<Rightarrow> 'h http_client \<Rightarrow> 'h quota_Counter \<Rightarrow> 'h breaker_Store
     \<Rightarrow> ('w, 'h gateway_process main_end) prog" where
  "gateway_main b fetch json client counter store =
     (let env = bt_Getenv b; grpcAddr = '':'' @ envOr env ''GRPC_PORT'' ''50051''; httpAddr = '':'' @ envOr env ''PORT'' ''8080''
      in gateway_initTracer b
        (hard b (GrpcClient (envOr env ''CONTROL_PLANE_ADDR'' ''control-plane.default.svc.cluster.local:50051''))
        (bindP (act (setup_all fetch real_providers)) (\<lambda>resolvers.
         go_refreshes b resolvers
        (hard b (NetListen grpcAddr)
        (soft b (GoServeGRPC grpcAddr)
        (hard b (ListenAndServe httpAddr)
           (Ret (Serving
              \<lparr>gwp_server = \<lparr>server.sv_registry = main_registry json client env resolvers, sv_quotaCounter = counter,
                 sv_quotaPolicy = main_quotaPolicy env, sv_breakerStore = store, sv_breakerConfig = main_breakerConfig env\<rparr>,
               gwp_resolvers = resolvers, gwp_redis = gateway_redis_addr env, gwp_grpc = grpcAddr, gwp_http = httpAddr\<rparr>)))))))))"

subsection \<open>provider-fake\<close>

definition fake_main :: "'w boot \<Rightarrow> ('w, string main_end) prog" where
  "fake_main b =
     (let port = envOr (bt_Getenv b) ''PORT'' ''8080'' in hard b (ListenAndServe ('':'' @ port)) (Ret (Serving port)))"

section \<open>Facts\<close>

subsection \<open>Failing fast\<close>

text \<open>
  \<open>fails_fast b cs V p\<close>: the program ends the process at the first hard call that fails, with code 1 and nothing done after it,
  or all hard calls of \<open>cs\<close> succeeded and it serves a process that satisfies \<open>V\<close>.
\<close>

definition fails_fast :: "'w boot \<Rightarrow> boot_call set \<Rightarrow> ('a \<Rightarrow> bool) \<Rightarrow> ('w, 'a main_end) prog \<Rightarrow> bool" where
  "fails_fast b cs V p \<longleftrightarrow> (\<forall>w r w'. run p w = (r, w') \<longrightarrow>
     (r = Exit 1 \<and> (\<exists>c \<in> cs. \<exists>u err. bt_try b c u = (Some err, w'))) \<or>
     (\<exists>s. r = Serving s \<and> V s \<and> (\<forall>c \<in> cs. \<exists>u u'. bt_try b c u = (None, u'))))"

lemma fails_fast_hard:
  assumes "fails_fast b cs V k"
  shows "fails_fast b (insert c cs) V (hard b c k)"
  unfolding fails_fast_def
proof (intro allI impI)
  fix w r w' assume r: "run (hard b c k) w = (r, w')"
  obtain out u where c: "bt_try b c w = (out, u)" by fastforce
  show "r = Exit 1 \<and> (\<exists>d \<in> insert c cs. \<exists>u err. bt_try b d u = (Some err, w')) \<or>
    (\<exists>s. r = Serving s \<and> V s \<and> (\<forall>d \<in> insert c cs. \<exists>u u'. bt_try b d u = (None, u')))"
  proof (cases out)
    case None
    with r c have "run k u = (r, w')" by (simp add: hard_def)
    with assms consider "r = Exit 1" "\<exists>d \<in> cs. \<exists>u err. bt_try b d u = (Some err, w')"
      | s where "r = Serving s" "V s" "\<forall>d \<in> cs. \<exists>u u'. bt_try b d u = (None, u')"
      unfolding fails_fast_def by blast
    then show ?thesis using c None by cases blast+
  next
    case (Some err)
    with r c have "r = Exit 1" "w' = u" by (simp_all add: hard_def)
    with c Some show ?thesis by blast
  qed
qed

lemma fails_fast_act:
  assumes "\<And>w a u. f w = (a, u) \<Longrightarrow> fails_fast b cs V (k a)"
  shows "fails_fast b cs V (bindP (act f) k)"
  unfolding fails_fast_def
proof (intro allI impI)
  fix w r w' assume r: "run (bindP (act f) k) w = (r, w')"
  obtain a u where f: "f w = (a, u)" by fastforce
  with r have "run (k a) u = (r, w')" by simp
  with assms [OF f] show "r = Exit 1 \<and> (\<exists>d \<in> cs. \<exists>u err. bt_try b d u = (Some err, w')) \<or>
    (\<exists>s. r = Serving s \<and> V s \<and> (\<forall>d \<in> cs. \<exists>u u'. bt_try b d u = (None, u')))"
    unfolding fails_fast_def by blast
qed

lemma fails_fast_soft: "fails_fast b cs V k \<Longrightarrow> fails_fast b cs V (soft b c k)"
  unfolding soft_def by (rule fails_fast_act)

lemma fails_fast_Serving: "V s \<Longrightarrow> fails_fast b {} V (Ret (Serving s))"
  by (simp add: fails_fast_def)

lemma fails_fast_refreshes: "fails_fast b cs V k \<Longrightarrow> fails_fast b cs V (go_refreshes b rs k)"
  by (induction rs) (auto intro: fails_fast_soft)

lemmas fails_fast_rules = fails_fast_hard fails_fast_soft fails_fast_act fails_fast_Serving fails_fast_refreshes

text \<open>The four mains.\<close>

definition cp_hard_calls :: "(string \<Rightarrow> string) \<Rightarrow> boot_call set" where
  "cp_hard_calls env = {SqlOpen ''pgx'' (cp_dsn env), SqlPing, EtcdNew (cp_etcdEndpoints env), InClusterConfig, DynamicNew,
     NetListen ('':'' @ envOr env ''GRPC_PORT'' ''50051''), ListenAndServe ('':'' @ envOr env ''PORT'' ''8080'')}"

lemma control_main_fails_fast:
  "fails_fast b (cp_hard_calls (bt_Getenv b)) (\<lambda>p. cpp_server p = cp_wiring b n x \<and> cpp_reconciler p = cp_main_reconciler (bt_Getenv b) n x)
     (control_main b n x)"
  unfolding control_main_def Let_def cp_hard_calls_def by (intro fails_fast_rules) simp

lemma admin_main_fails_fast:
  "fails_fast b {SqlOpen ''pgx'' (admin_dsn (bt_Getenv b)), SqlPing,
     GrpcClient (envOr (bt_Getenv b) ''CONTROL_PLANE_ADDR'' ''control-plane.default.svc.cluster.local:50051''),
     GrpcClient (envOr (bt_Getenv b) ''PROVIDER_GATEWAY_ADDR'' ''provider-gateway.default.svc.cluster.local:50051''),
     NetListen ('':'' @ envOr (bt_Getenv b) ''GRPC_PORT'' ''50051''), ListenAndServe ('':'' @ envOr (bt_Getenv b) ''PORT'' ''8080'')}
     (\<lambda>p. adp_server p = admin_api sha rfc cp \<and>
       adp_resolver p = admin_resolver rfc cp providers (QueryScalar prom (admin_metricsClient (bt_Getenv b))) (pe_zero prom))
     (admin_main b sha rfc prom cp providers)"
  unfolding admin_main_def Let_def by (intro fails_fast_rules) simp

lemma gateway_main_fails_fast:
  "fails_fast b {OtlpExporter (envOr (bt_Getenv b) ''OTEL_EXPORTER_OTLP_ENDPOINT_HOST'' ''otel-collector-opentelemetry-collector.default.svc.cluster.local:4317''),
     GrpcClient (envOr (bt_Getenv b) ''CONTROL_PLANE_ADDR'' ''control-plane.default.svc.cluster.local:50051''),
     NetListen ('':'' @ envOr (bt_Getenv b) ''GRPC_PORT'' ''50051''), ListenAndServe ('':'' @ envOr (bt_Getenv b) ''PORT'' ''8080'')}
     (\<lambda>p. (\<exists>w w'. setup_all fetch real_providers w = (gwp_resolvers p, w')) \<and>
        server.sv_registry (gwp_server p) = main_registry json client (bt_Getenv b) (gwp_resolvers p) \<and>
        sv_quotaPolicy (gwp_server p) = main_quotaPolicy (bt_Getenv b) \<and> sv_breakerConfig (gwp_server p) = main_breakerConfig (bt_Getenv b))
     (gateway_main b fetch json client counter store)"
  unfolding gateway_main_def gateway_initTracer_def Let_def by (intro fails_fast_rules) auto

lemma fake_main_fails_fast:
  "fails_fast b {ListenAndServe ('':'' @ envOr (bt_Getenv b) ''PORT'' ''8080'')} (\<lambda>port. port = envOr (bt_Getenv b) ''PORT'' ''8080'') (fake_main b)"
  unfolding fake_main_def Let_def by (intro fails_fast_rules) simp

subsection \<open>The wiring\<close>

text \<open>What is outside leaves the tables and etcd alone, except for etcd's own client.\<close>

definition outside_ok :: "'z cp_world_scheme boot \<Rightarrow> 'z cp_world_scheme cp_outside \<Rightarrow> bool" where
  "outside_ok b x \<longleftrightarrow>
     (\<forall>p. keeps all_tables (ve_ReadFile (ox_vault x) p)) \<and> (\<forall>q. keeps all_tables (ve_Do (ox_vault x) q)) \<and>
     keeps all_tables (ve_Now (ox_vault x)) \<and> (\<forall>ns sel. keeps all_tables (dyn_List (ox_dynamic x) ns sel)) \<and>
     (\<forall>ns r. keeps all_tables (dyn_Create (ox_dynamic x) ns r)) \<and> keeps all_tables (ox_NewUUID x) \<and> keeps all_tables (ox_Now x) \<and>
     keeps all_tables (bt_try b SqlPing)"

lemma exchange_keeps:
  assumes "\<forall>q. keeps obs (ve_Do env q)"
  shows "keeps obs (vault_exchange env bm cm rm req)"
  using assms by (auto simp: keeps_def vault_exchange_def split: option.splits prod.splits sum.splits) (metis snd_conv)+

lemma vault_login_keeps:
  assumes "\<forall>p. keeps obs (ve_ReadFile env p)" "\<forall>q. keeps obs (ve_Do env q)" "keeps obs (ve_Now env)"
    and "vault_login env (c, w) = (r, c', w')"
  shows "obs w' = obs w"
proof -
  note k = keepsD [OF assms(1) [rule_format]] keepsD [OF exchange_keeps [OF assms(2)]] keepsD [OF assms(3)]
  from assms(4) show ?thesis
    by (auto simp: vault_login_def split: prod.splits sum.splits if_splits dest!: k)
qed

lemma ensureToken_keeps:
  assumes "\<forall>p. keeps obs (ve_ReadFile env p)" "\<forall>q. keeps obs (ve_Do env q)" "keeps obs (ve_Now env)"
    and "ensureToken env (c, w) = (r, c', w')"
  shows "obs w' = obs w"
proof -
  note k = vault_login_keeps [OF assms(1-3)] keepsD [OF assms(3)]
  from assms(4) show ?thesis
    by (auto simp: ensureToken_def split: prod.splits option.splits if_splits dest!: k)
qed

lemma vault_ops_keep:
  assumes "\<forall>p. keeps obs (ve_ReadFile env p)" "\<forall>q. keeps obs (ve_Do env q)" "keeps obs (ve_Now env)"
  shows "vault_Sign env kn pl (c, w) = (rs, c', w') \<Longrightarrow> obs w' = obs w"
    "vault_Verify env kn pl sg (c, w) = (rv, c', w') \<Longrightarrow> obs w' = obs w"
    "ReadProviderSecret env provider (c, w) = (rp, c', w') \<Longrightarrow> obs w' = obs w"
proof -
  note k = ensureToken_keeps [OF assms] keepsD [OF exchange_keeps [OF assms(2)]]
  show "vault_Sign env kn pl (c, w) = (rs, c', w') \<Longrightarrow> obs w' = obs w"
    by (auto simp: vault_Sign_def split: prod.splits sum.splits if_splits dest!: k)
  show "vault_Verify env kn pl sg (c, w) = (rv, c', w') \<Longrightarrow> obs w' = obs w"
    by (auto simp: vault_Verify_def split: prod.splits sum.splits if_splits dest!: k)
  show "ReadProviderSecret env provider (c, w) = (rp, c', w') \<Longrightarrow> obs w' = obs w"
    by (auto simp: ReadProviderSecret_def split: prod.splits sum.splits option.splits if_splits dest!: k)
qed

lemma on_client_keeps:
  assumes "\<And>c w r c' w'. f (c, w) = (r, c', w') \<Longrightarrow> all_tables w' = all_tables w"
  shows "keeps all_tables (on_client n f)"
  unfolding keeps_def on_client_def using assms by (auto simp: all_tables_eq split: prod.splits)

lemma cp_etcdCli_kv: "ox_Put x = kv_Put \<Longrightarrow> cp_etcdCli x = kv_client manifest_text active_text"
  by (simp add: cp_etcdCli_def kv_client_def)

text \<open>The services of a replica as \<^verbatim>\<open>main\<close> wires them are wired in the sense of \<open>Schema\<close>, with Vault as the signer.\<close>

lemma cp_wiring_wired:
  assumes "outside_ok b x" "ox_Put x = kv_Put"
  shows "wired manifest_text active_text (ox_RFC3339 x) (cp_wiring b n x)"
proof -
  have v: "\<forall>p. keeps all_tables (ve_ReadFile (ox_vault x) p)" "\<forall>q. keeps all_tables (ve_Do (ox_vault x) q)" "keeps all_tables (ve_Now (ox_vault x))"
    using assms(1) by (simp_all add: outside_ok_def)
  have k: "keeps all_tables (on_client n (vault_Sign (ox_vault x) kn pl))" "keeps all_tables (on_client n (vault_Verify (ox_vault x) kn pl sg))"
    "keeps all_tables (on_client n (ReadProviderSecret (ox_vault x) provider))" for kn pl sg provider
    by (rule on_client_keeps, erule vault_ops_keep [OF v])+
  show ?thesis
    using assms k by (simp add: wired_def cp_wiring_def cp_etcdCli_kv cp_registrySvc_def cp_rolloutSvc_def cp_providerTokenSvc_def outside_ok_def)
qed

lemma cp_analysisClient_keeps:
  assumes "outside_ok b x"
  shows "keeps all_tables (ac_FindForStage (cp_analysisClient Getenv x) i st)"
    "keeps all_tables (ac_CreateForStage (cp_analysisClient Getenv x) i m st pc)"
proof -
  have k: "\<And>ns sel. keeps all_tables (dyn_List (ox_dynamic x) ns sel)" "\<And>ns r. keeps all_tables (dyn_Create (ox_dynamic x) ns r)"
    "keeps all_tables (ox_NewUUID x)" using assms by (simp_all add: outside_ok_def)
  note d = keepsD [OF k(1)] keepsD [OF k(2)] keepsD [OF k(3)]
  show "keeps all_tables (ac_FindForStage (cp_analysisClient Getenv x) i st)"
    by (auto simp: keeps_def cp_analysisClient_def K8sClient_ops_def K8s_FindForStage_def split: prod.splits sum.splits list.splits dest!: d)
  show "keeps all_tables (ac_CreateForStage (cp_analysisClient Getenv x) i m st pc)"
    by (auto simp: keeps_def cp_analysisClient_def K8sClient_ops_def K8s_CreateForStage_def split: prod.splits option.splits dest!: d)
qed

subsection \<open>The deployed system\<close>

text \<open>Any number of replicas as \<^verbatim>\<open>main\<close> wires them, and admin-api in front of them, as a cluster in the sense of \<open>Schema\<close>.\<close>

definition deployed ::
  "(nat \<Rightarrow> 'z cp_world_scheme boot) \<Rightarrow> 'z cp_world_scheme cp_outside \<Rightarrow> (string \<Rightarrow> string) \<Rightarrow> (string \<Rightarrow> string)
     \<Rightarrow> ('z cp_world_scheme \<Rightarrow> pb_ProviderStatus list result \<times> 'z cp_world_scheme)
     \<Rightarrow> (string \<Rightarrow> 'z cp_world_scheme \<Rightarrow> 'f result \<times> 'z cp_world_scheme) \<Rightarrow> 'f \<Rightarrow> ('z cp_world_ext, 'f) cluster" where
  "deployed b x sha jsonb prov query zero =
     \<lparr>ce_cp = (\<lambda>n. cp_wiring (b n) n x), ce_runs = (\<lambda>n. cp_analysisClient (bt_Getenv (b n)) x), ce_mj = manifest_text, ce_aj = active_text,
      ce_rfc = ox_RFC3339 x, ce_sha = sha, ce_marshal = audit_marshal, ce_jsonb = jsonb, ce_prov = prov, ce_query = query, ce_zero = zero\<rparr>"

lemma deployed_ok:
  assumes "\<forall>n. outside_ok (b n) x" "ox_Put x = kv_Put" "keeps all_tables prov" "\<forall>q. keeps all_tables (query q)"
  shows "cluster_ok (deployed b x sha jsonb prov query zero)"
  using assms cp_wiring_wired [OF assms(1) [rule_format] assms(2)] cp_analysisClient_keeps [OF assms(1) [rule_format]]
  by (simp add: cluster_ok_def deployed_def)

subsection \<open>The token of a provider, from Vault to the adapter\<close>

definition real_key :: "real_adapter \<Rightarrow> string" where
  "real_key a = (case a of RA_openai x \<Rightarrow> oa_apiKey x | RA_anthropic x \<Rightarrow> an_apiKey x)"

lemma real_key_SetAPIKey [simp]: "real_key (real_SetAPIKey key a) = key"
  by (cases a) (simp_all add: real_key_def openai_SetAPIKey_def anthropic_SetAPIKey_def)

text \<open>The connection of provider-gateway to a replica of control-plane.\<close>

definition token_rpc :: "'w cp_server \<Rightarrow> 'w TokenFetcher" where
  "token_rpc s = GRPCFetcher_FetchToken (\<lambda>provider scope. run (server_IssueProviderToken s provider scope))"

lemma vault_addr_keeps:
  "vault_login env (c, w) = (e, c', w') \<Longrightarrow> vc_addr c' = vc_addr c"
  "ensureToken env (c, w) = (t, c', w') \<Longrightarrow> vc_addr c' = vc_addr c"
  "ReadProviderSecret env provider (c, w) = (r, c', w') \<Longrightarrow> vc_addr c' = vc_addr c"
proof -
  show login: "vault_login env (c, w) = (e, c', w') \<Longrightarrow> vc_addr c' = vc_addr c" for c w e c' w'
    by (auto simp: vault_login_def split: prod.splits sum.splits if_splits)
  show ensure: "ensureToken env (c, w) = (t, c', w') \<Longrightarrow> vc_addr c' = vc_addr c" for c w t c' w'
    by (auto simp: ensureToken_def split: prod.splits option.splits if_splits dest: login)
  show "ReadProviderSecret env provider (c, w) = (r, c', w') \<Longrightarrow> vc_addr c' = vc_addr c"
    by (auto simp: ReadProviderSecret_def split: prod.splits sum.splits option.splits if_splits dest!: ensure)
qed

text \<open>What Vault holds for a provider, according to an answer to the request that its path names.\<close>

definition vault_holds :: "'w vault_env \<Rightarrow> string \<Rightarrow> string \<Rightarrow> string \<Rightarrow> bool" where
  "vault_holds env addr provider key \<longleftrightarrow>
     (\<exists>req w1 w2 body resp. ve_Do env req w1 = (Inr (200, Inr body), w2) \<and> hq_method req = ''GET'' \<and>
        hq_url req = addr @ ''/v1/secret/data/provider/'' @ provider \<and>
        vault_UnmarshalKV env body = Inr resp \<and> kv_api_key resp = Some key)"

lemma token_rpc_Inr:
  assumes "token_rpc (cp_wiring b n x) provider scope w = (Inr (tok, ttl), w')"
  shows "tok \<noteq> [] \<and> vault_holds (ox_vault x) (vc_addr (vw_clients w n)) provider tok \<and>
    ttl = wrap64 (wholeSeconds (cp_providerTokenTTL (bt_Getenv b)) * nsPerSecond)"
proof -
  obtain r c v where read: "ReadProviderSecret (ox_vault x) provider (vw_clients w n, w) = (r, c, v)" by (metis prod.collapse)
  then have "r = Inr tok \<and> ttl = wrap64 (wholeSeconds (cp_providerTokenTTL (bt_Getenv b)) * nsPerSecond)"
    using assms
    by (auto simp: token_rpc_def GRPCFetcher_FetchToken_def server_IssueProviderToken_def IssueToken_def cp_wiring_def cp_providerTokenSvc_def
        on_client_def split: sum.splits if_splits)
  with ReadProviderSecret_Inr [of "ox_vault x" provider "(vw_clients w n, w)" tok "(c, v)"] read vault_addr_keeps(3) [OF read]
  show ?thesis by (auto simp: vault_holds_def)
qed

lemma token_rpc_addr:
  assumes "token_rpc (cp_wiring b n x) provider scope w = (ans, w')"
  shows "vc_addr (vw_clients w' n) = vc_addr (vw_clients w n)"
proof -
  obtain r c v where read: "ReadProviderSecret (ox_vault x) provider (vw_clients w n, w) = (r, c, v)" by (metis prod.collapse)
  have "w' = w \<or> w' = v\<lparr>vw_clients := (vw_clients v)(n := c)\<rparr>"
    using assms read
    by (auto simp: token_rpc_def GRPCFetcher_FetchToken_def server_IssueProviderToken_def IssueToken_def cp_wiring_def cp_providerTokenSvc_def
        on_client_def split: sum.splits if_splits)
  with vault_addr_keeps(3) [OF read] show ?thesis by auto
qed

text \<open>Every resolver that start-up keeps has got its key in one of its calls.\<close>

lemma setup_all_fetched:
  assumes "setup_all fetch ps w = (rs, w')" "(r, wait) \<in> set rs" "P w"
    and "\<forall>p u ans u'. P u \<longrightarrow> fetch p ''invoke'' u = (ans, u') \<longrightarrow> P u'"
  shows "\<exists>u u' tok ttl. P u \<and> fetch (rv_provider r) ''invoke'' u = (Inr (tok, ttl), u') \<and> tok \<noteq> [] \<and> real_key (rv_adapter r) = tok \<and>
    rv_provider r \<in> fst ` set ps \<and>
    wait = (if 0 < wrap64 (ttl - refreshBuffer) then wrap64 (ttl - refreshBuffer) else if 0 < ttl then ttl else errorRetryInterval)"
  using assms(1-3)
proof (induction ps arbitrary: w rs w')
  case (Cons p ps)
  obtain ans w1 where f: "fetch (fst p) ''invoke'' w = (ans, w1)" by fastforce
  obtain rs2 w2 where s: "setup_all fetch ps w1 = (rs2, w2)" by fastforce
  have P1: "P w1" using assms(4) Cons.prems(3) f by blast
  note eval = setupCredential_def Resolver_Refresh_def NewResolver_def Let_def
  show ?case
  proof (cases "(r, wait) \<in> set rs2")
    case True
    from Cons.IH [OF s True P1] show ?thesis by (simp only: list.set image_insert insert_iff) blast
  next
    case False
    then obtain tok ttl where "ans = Inr (tok, ttl)" "tok \<noteq> []"
      using Cons.prems(1,2) f s by (auto simp: eval split: sum.splits if_splits prod.splits)
    with False Cons.prems f s show ?thesis
      by (intro exI [of _ w] exI [of _ w1] exI [of _ tok] exI [of _ ttl]) (auto simp: eval split: if_splits)
  qed
qed simp

text \<open>A gateway that is up did its setup in a state with control-plane's client as it was before.\<close>

lemma gateway_main_setup:
  assumes "run (gateway_main b fetch json client counter store) w = (Serving p, w')" "\<forall>c. keeps obs (bt_try b c)"
  shows "\<exists>u u'. obs u = obs w \<and> setup_all fetch real_providers u = (gwp_resolvers p, u')"
proof -
  define serve where "serve rs = go_refreshes b rs
     (hard b (NetListen ('':'' @ envOr (bt_Getenv b) ''GRPC_PORT'' ''50051''))
     (soft b (GoServeGRPC ('':'' @ envOr (bt_Getenv b) ''GRPC_PORT'' ''50051''))
     (hard b (ListenAndServe ('':'' @ envOr (bt_Getenv b) ''PORT'' ''8080''))
        (Ret (Serving
           \<lparr>gwp_server = \<lparr>server.sv_registry = main_registry json client (bt_Getenv b) rs, sv_quotaCounter = counter,
              sv_quotaPolicy = main_quotaPolicy (bt_Getenv b), sv_breakerStore = store, sv_breakerConfig = main_breakerConfig (bt_Getenv b)\<rparr>,
            gwp_resolvers = rs, gwp_redis = gateway_redis_addr (bt_Getenv b), gwp_grpc = '':'' @ envOr (bt_Getenv b) ''GRPC_PORT'' ''50051'',
            gwp_http = '':'' @ envOr (bt_Getenv b) ''PORT'' ''8080''\<rparr>)))))" for rs
  have v: "\<exists>cs. fails_fast b cs (\<lambda>p. gwp_resolvers p = rs) (serve rs)" for rs
    unfolding serve_def
    by (rule exI, rule fails_fast_refreshes, rule fails_fast_hard, rule fails_fast_soft, rule fails_fast_hard, rule fails_fast_Serving) simp
  obtain o1 u1 where t: "bt_try b (OtlpExporter (envOr (bt_Getenv b) ''OTEL_EXPORTER_OTLP_ENDPOINT_HOST''
    ''otel-collector-opentelemetry-collector.default.svc.cluster.local:4317'')) w = (o1, u1)" by fastforce
  obtain o2 u where c: "bt_try b (GrpcClient (envOr (bt_Getenv b) ''CONTROL_PLANE_ADDR'' ''control-plane.default.svc.cluster.local:50051'')) u1 = (o2, u)"
    by fastforce
  obtain rs u' where s: "setup_all fetch real_providers u = (rs, u')" by fastforce
  have "run (gateway_main b fetch json client counter store) w =
    (case o1 of Some _ \<Rightarrow> (Exit 1, u1) | None \<Rightarrow> (case o2 of Some _ \<Rightarrow> (Exit 1, u) | None \<Rightarrow> run (serve rs) u'))"
    using t c s by (simp add: gateway_main_def gateway_initTracer_def hard_def serve_def Let_def split: option.splits)
  with assms(1) have "run (serve rs) u' = (Serving p, w')" by (simp split: option.splits)
  with v [of rs] have "gwp_resolvers p = rs" unfolding fails_fast_def by blast
  moreover have "obs u = obs w" using keepsD [OF assms(2) [rule_format] t] keepsD [OF assms(2) [rule_format] c] by simp
  ultimately show ?thesis using s by blast
qed

lemma gateway_tokens:
  assumes "run (gateway_main b (token_rpc (cp_wiring b2 n x)) json client counter store) w = (Serving p, w')"
    and "\<forall>c. keeps vw_clients (bt_try b c)" "(r, wait) \<in> set (gwp_resolvers p)"
  shows "rv_provider r \<in> fst ` set real_providers \<and> real_key (rv_adapter r) \<noteq> [] \<and>
    vault_holds (ox_vault x) (vc_addr (vw_clients w n)) (rv_provider r) (real_key (rv_adapter r)) \<and>
    (let ttl = wrap64 (wholeSeconds (cp_providerTokenTTL (bt_Getenv b2)) * nsPerSecond) in
     wait = (if 0 < wrap64 (ttl - refreshBuffer) then wrap64 (ttl - refreshBuffer) else if 0 < ttl then ttl else errorRetryInterval))"
proof -
  let ?P = "\<lambda>u. vc_addr (vw_clients u n) = vc_addr (vw_clients w n)"
  from gateway_main_setup [OF assms(1,2)] obtain u u' where
    u: "vw_clients u = vw_clients w" and s: "setup_all (token_rpc (cp_wiring b2 n x)) real_providers u = (gwp_resolvers p, u')" by blast
  have step: "\<forall>q v ans v'. ?P v \<longrightarrow> token_rpc (cp_wiring b2 n x) q ''invoke'' v = (ans, v') \<longrightarrow> ?P v'"
    using token_rpc_addr by metis
  have "?P u" using u by simp
  from setup_all_fetched [where P = ?P, OF s assms(3) this step] obtain v v' tok ttl where
    v: "?P v" "token_rpc (cp_wiring b2 n x) (rv_provider r) ''invoke'' v = (Inr (tok, ttl), v')" "real_key (rv_adapter r) = tok"
      "rv_provider r \<in> fst ` set real_providers"
      "wait = (if 0 < wrap64 (ttl - refreshBuffer) then wrap64 (ttl - refreshBuffer) else if 0 < ttl then ttl else errorRetryInterval)"
    by (elim exE conjE) (rule that, assumption+)
  with token_rpc_Inr [OF v(2)] show ?thesis by (simp add: Let_def)
qed

lemma Authenticate_tables: "keeps all_tables (Authenticate sha Cockroach_LookupByHash tok)"
  by (rule Lookup_keeps) (simp add: all_tables_updates)

lemma admin_mux_graphql: "mux_route admin_mux m p = Route GraphqlRoute \<longleftrightarrow> m = ''POST'' \<and> p = ''/graphql''"
  by (auto simp: mux_route_def admin_mux_def)

text \<open>The reconciler of a replica, and its RPCs, keep the stores.\<close>

lemma cp_process_safe:
  assumes "outside_ok b x" "ox_Put x = kv_Put" "store_ok manifest_text active_text (ox_RFC3339 x) w"
  shows "safe (store_ok manifest_text active_text (ox_RFC3339 x)) db_grows (\<lambda>_ _. True) (control_serve rfc3 (cp_wiring b n x) c) w"
    and "safe (store_ok manifest_text active_text (ox_RFC3339 x)) db_grows (\<lambda>_ _. True) (Reconciler_Run (cp_main_reconciler env n x) ticks) w"
proof -
  note wired = cp_wiring_wired [OF assms(1,2), of n]
  show "safe (store_ok manifest_text active_text (ox_RFC3339 x)) db_grows (\<lambda>_ _. True) (control_serve rfc3 (cp_wiring b n x) c) w"
    by (rule control_serve_safe [OF wired assms(3)])
  have "keeps all_tables (ox_Now x)" using assms(1) by (simp add: outside_ok_def)
  then show "safe (store_ok manifest_text active_text (ox_RFC3339 x)) db_grows (\<lambda>_ _. True) (Reconciler_Run (cp_main_reconciler env n x) ticks) w"
    using cp_analysisClient_keeps [OF assms(1)]
    by (intro Reconciler_Run_safe [OF wired assms(3)]) (simp_all add: cp_main_reconciler_def NewReconciler_def cp_wiring_def)
qed

text \<open>A deployment whose connections all work, with a Vault that holds the key \<^verbatim>\<open>sk\<close> for every provider.\<close>

definition demo_boot :: "cp_world boot" where
  "demo_boot = \<lparr>bt_Getenv = (\<lambda>_. []), bt_try = (\<lambda>c w. (None, w))\<rparr>"

definition demo_outside :: "cp_world cp_outside" where
  "demo_outside =
     \<lparr>ox_vault =
        \<lparr>ve_ReadFile = (\<lambda>p w. (Inr ''jwt'', w)), ve_NewRequest = (\<lambda>_. None),
         ve_Do = (\<lambda>req w. (Inr (200, Inr (json_print (demo_answer 900))), w)), ve_Now = (\<lambda>w. (0, w)), ve_fitsFloat64 = (\<lambda>_. True)\<rparr>,
      ox_Put = kv_Put, ox_dynamic = \<lparr>dyn_List = (\<lambda>ns sel w. (Inr [], w)), dyn_Create = (\<lambda>ns r w. (None, w))\<rparr>,
      ox_NewUUID = draw_uuid, ox_Now = read_clock, ox_RFC3339 = (\<lambda>t. [])\<rparr>"

definition demo_deployment :: cp_world where
  "demo_deployment = admin_tables.extend demo_admin (cp_world.fields (\<lambda>_. vault_New ''http://v'' ''cp''))"

lemma demo_outside_ok: "outside_ok demo_boot demo_outside"
  by (auto simp: outside_ok_def demo_boot_def demo_outside_def keeps_def draw_uuid_def read_clock_def all_tables_eq split: list.splits)

section \<open>Properties\<close>

text \<open>
  C18. Control-plane comes up completely or not at all. \<^verbatim>\<open>main\<close> ends with code 1 right after the first of its connections that fails,
  or it serves with all of them made. What it serves is the wiring the other results are about: RPCs and reconcilers of the
  replica, with Vault as the signer and in any interleaving, keep database and etcd well-formed.
\<close>

theorem control_main_starts:
  assumes "outside_ok b x" "ox_Put x = kv_Put" "run (control_main b n x) w = (r, w')"
  shows "(r = Exit 1 \<and> (\<exists>c \<in> cp_hard_calls (bt_Getenv b). \<exists>u err. bt_try b c u = (Some err, w'))) \<or>
    (\<exists>p. r = Serving p \<and> (\<forall>c \<in> cp_hard_calls (bt_Getenv b). \<exists>u u'. bt_try b c u = (None, u')) \<and>
       wired manifest_text active_text (ox_RFC3339 x) (cpp_server p) \<and>
       (\<forall>rpcs ticks u ps u'. store_ok manifest_text active_text (ox_RFC3339 x) u \<longrightarrow>
          conc_reaches (map (control_serve (ox_RFC3339 x) (cpp_server p)) rpcs @ map (Reconciler_Run (cpp_reconciler p)) ticks, u) (ps, u') \<longrightarrow>
          store_ok manifest_text active_text (ox_RFC3339 x) u'))"
proof -
  consider "r = Exit 1" "\<exists>c \<in> cp_hard_calls (bt_Getenv b). \<exists>u err. bt_try b c u = (Some err, w')"
    | p where "r = Serving p" "cpp_server p = cp_wiring b n x" "cpp_reconciler p = cp_main_reconciler (bt_Getenv b) n x"
        "\<forall>c \<in> cp_hard_calls (bt_Getenv b). \<exists>u u'. bt_try b c u = (None, u')"
    using control_main_fails_fast [of b n x] assms(3) unfolding fails_fast_def by blast
  then show ?thesis
  proof cases
    case 2
    have "store_ok manifest_text active_text (ox_RFC3339 x) u'"
      if "store_ok manifest_text active_text (ox_RFC3339 x) u"
        "conc_reaches (map (control_serve (ox_RFC3339 x) (cpp_server p)) rpcs @ map (Reconciler_Run (cpp_reconciler p)) ticks, u) (ps, u')"
      for rpcs ticks u ps u'
    proof -
      have "\<forall>q \<in> set (map (control_serve (ox_RFC3339 x) (cpp_server p)) rpcs @ map (Reconciler_Run (cpp_reconciler p)) ticks).
          safe (store_ok manifest_text active_text (ox_RFC3339 x)) db_grows (\<lambda>_ _. True) q u"
        using cp_process_safe [OF assms(1,2) that(1)] 2(2,3) by auto
      from db.conc_safe [OF that(2) this that(1)] show ?thesis by blast
    qed
    with 2 cp_wiring_wired [OF assms(1,2)] show ?thesis by auto
  qed blast
qed

theorem control_main_starts_witness:
  "\<exists>p. fst (run (control_main demo_boot 0 demo_outside) demo_deployment) = Serving p \<and> wired manifest_text active_text (\<lambda>t. []) (cpp_server p)"
proof -
  let ?r = "run (control_main demo_boot 0 demo_outside) demo_deployment"
  have o: "ox_Put demo_outside = kv_Put" "ox_RFC3339 demo_outside = (\<lambda>t. [])" by (simp_all add: demo_outside_def)
  have "fst ?r \<noteq> Exit 1" by (simp add: control_main_def Let_def hard_def soft_def demo_boot_def)
  with control_main_starts [OF demo_outside_ok o(1), of 0 demo_deployment "fst ?r" "snd ?r"] show ?thesis by (auto simp: o)
qed

text \<open>
  C14. GraphQL is behind the credential. Whatever the resolvers are, a request to admin-api's HTTP server reaches them only as a POST to
  \<^verbatim>\<open>/graphql\<close> whose bearer token belongs to an unrevoked user, and then under that user's identity and with the stores as they were.
  Every other request has the same answer for all resolvers; a POST to \<^verbatim>\<open>/graphql\<close> gets 401 and changes no table.
\<close>

theorem admin_http_gate:
  assumes "run (admin_http sha Cockroach_LookupByHash ping metrics graphqlSrv req) w = (r, w')"
  shows "(\<exists>i w1. in_method req = ''POST'' \<and> in_path req = ''/graphql'' \<and>
      verified sha w (bearerTokenFromHeader (in_authorization req)) = Some i \<and> all_tables w1 = all_tables w \<and>
      run (graphqlSrv (WithIdentity http_ctx i) (in_body req)) w1 = (r, w')) \<or>
    (\<forall>srv. run (admin_http sha Cockroach_LookupByHash ping metrics srv req) w = (r, w')) \<and>
    (in_method req = ''POST'' \<and> in_path req = ''/graphql'' \<longrightarrow> r = writeUnauthorized \<and> all_tables w' = all_tables w)"
proof (cases "mux_route admin_mux (in_method req) (in_path req) = Route GraphqlRoute")
  case True
  obtain a w1 where a: "Authenticate sha Cockroach_LookupByHash (bearerTokenFromHeader (in_authorization req)) w = (a, w1)" by fastforce
  have t: "all_tables w1 = all_tables w" using keepsD [OF Authenticate_tables a] .
  show ?thesis
  proof (cases a)
    case (Inl e)
    with assms True a t show ?thesis by (auto simp: admin_http_def HTTPMiddleware_def)
  next
    case (Inr i)
    with assms True a t Authenticate_verified [OF a [unfolded Inr]] admin_mux_graphql [of "in_method req" "in_path req"] show ?thesis
      by (intro disjI1 exI [of _ i] exI [of _ w1]) (auto simp: admin_http_def HTTPMiddleware_def)
  qed
next
  case False
  with assms admin_mux_graphql [of "in_method req" "in_path req"] show ?thesis
    by (auto simp: admin_http_def split: route.splits admin_route.splits)
qed

definition demo_graphql :: "string \<Rightarrow> http_incoming" where
  "demo_graphql auth = \<lparr>in_method = ''POST'', in_path = ''/graphql'', in_authorization = auth, in_body = ''{}''\<rparr>"

theorem admin_http_gate_witness:
  "all_tables (snd (run (admin_http (\<lambda>t. t) Cockroach_LookupByHash (\<lambda>w. (None, w)) (Ret (200, [])) (\<lambda>ctx body. act (\<lambda>w. ((200, body), w\<lparr>adm_users := []\<rparr>)))
     (demo_graphql ''Bearer wrong'')) demo_admin)) = all_tables demo_admin"
proof -
  let ?p = "admin_http (\<lambda>t. t) Cockroach_LookupByHash (\<lambda>w. (None, w)) (Ret (200, [])) (\<lambda>ctx body. act (\<lambda>w. ((200, body), w\<lparr>adm_users := []\<rparr>)))
     (demo_graphql ''Bearer wrong'')"
  obtain r w' where r: "run ?p demo_admin = (r, w')" by fastforce
  have "bearerTokenFromHeader ''Bearer wrong'' = ''wrong''" by code_simp
  then have "verified (\<lambda>t. t) demo_admin (bearerTokenFromHeader (in_authorization (demo_graphql ''Bearer wrong''))) = None"
    by (simp add: demo_graphql_def verified_def credential_def demo_admin_def demo_users_def)
  with admin_http_gate [OF r] r show ?thesis by (simp add: demo_graphql_def)
qed


lemmas demo_gateway_eval =
  real_providers_def setupCredential_def Resolver_Refresh_def NewResolver_def token_rpc_def GRPCFetcher_FetchToken_def
  server_IssueProviderToken_def IssueToken_def cp_wiring_def cp_providerTokenSvc_def on_client_def ReadProviderSecret_def ensureToken_def
  vault_login_def vault_exchange_def Let_def demo_vault_eval

definition demo_client :: "demo_world http_client" where
  "demo_client = \<lparr>http_ParseURL = (\<lambda>_. None), http_Do = (\<lambda>_ w. (Inl EOF, w))\<rparr>"

definition demo_resolver :: "real_adapter Resolver" where
  "demo_resolver = \<lparr>rv_provider = ''openai'', rv_adapter = RA_openai (openai_SetAPIKey ''sk'' (openai_New [] [])), rv_source = SourceVault\<rparr>"

lemma demo_gateway_up:
  "\<exists>p w' wait. run (gateway_main demo_boot (token_rpc (cp_wiring demo_boot 0 demo_outside)) demo_json demo_client demo_counter demo_store)
       demo_deployment = (Serving p, w') \<and> (demo_resolver, wait) \<in> set (gwp_resolvers p)"
proof -
  have t: "cp_providerTokenTTL (\<lambda>_. []) = 300 * nsPerSecond" by (simp add: cp_providerTokenTTL_def envInt64Or_def nsPerSecond_def wrap64_def)
  then have "wrap64 (wholeSeconds (cp_providerTokenTTL (\<lambda>_. [])) * nsPerSecond) = 300 * nsPerSecond"
    by (simp add: wholeSeconds_def nsPerSecond_def signed_divide_int_def wrap64_def)
  moreover have "wrap64 (300 * nsPerSecond - refreshBuffer) = 270 * nsPerSecond" by (simp add: refreshBuffer_def nsPerSecond_def wrap64_def)
  moreover have "0 < nsPerSecond" by (simp add: nsPerSecond_def)
  ultimately show ?thesis
    by (simp add: gateway_main_def gateway_initTracer_def hard_def soft_def demo_boot_def demo_gateway_eval demo_outside_def demo_deployment_def
      admin_tables.extend_def cp_world.fields_def vault_New_def demo_resolver_def)
qed


text \<open>
  When a credential is renewed. \<open>m\<close> being the configured PROVIDER_TOKEN_TTL_SECONDS, as long as it fits into a duration, the first
  refresh after start-up comes 30 seconds before the token ends, at its end if it lives no longer than that, and after 30
  seconds if the setting is not positive: the loop never waits past the token's end, and never for less than a second.
\<close>

theorem gateway_refresh_schedule:
  assumes "run (gateway_main b (token_rpc (cp_wiring b2 n x)) json client counter store) w = (Serving p, w')"
    and "\<forall>c. keeps vw_clients (bt_try b c)" "(r, wait) \<in> set (gwp_resolvers p)"
    and "envInt64Or (bt_Getenv b2) ''PROVIDER_TOKEN_TTL_SECONDS'' 300 = m" "- 9223372006 \<le> m" "m \<le> 9223372036"
  shows "wait = (if 30 < m then m - 30 else if 0 < m then m else 30) * nsPerSecond"
proof -
  have t: "wrap64 (m * nsPerSecond) = m * nsPerSecond"
    using assms(5,6) by (intro wrap64_id) (auto simp: in_int64_def nsPerSecond_def)
  have q: "wholeSeconds (m * nsPerSecond) = m" by (simp add: wholeSeconds_def nsPerSecond_def signed_divide_int_def sgn_mult abs_mult sgn_mult_abs)
  have b: "wrap64 (m * nsPerSecond - refreshBuffer) = (m - 30) * nsPerSecond" if "0 < m"
    using that assms(5,6) by (subst wrap64_id) (auto simp: in_int64_def nsPerSecond_def refreshBuffer_def)
  have c: "wrap64 (m * nsPerSecond - refreshBuffer) \<le> 0" if "m \<le> 0"
    using that assms(5,6) by (subst wrap64_id) (auto simp: in_int64_def nsPerSecond_def refreshBuffer_def)
  have "wait = (if 0 < wrap64 (m * nsPerSecond - refreshBuffer) then wrap64 (m * nsPerSecond - refreshBuffer)
      else if 0 < m * nsPerSecond then m * nsPerSecond else errorRetryInterval)"
    using gateway_tokens [OF assms(1-3)] by (simp add: cp_providerTokenTTL_def assms(4) t q Let_def)
  with b c show ?thesis by (cases "0 < m") (auto simp: nsPerSecond_def errorRetryInterval_def)
qed

theorem gateway_refresh_schedule_witness:
  "\<exists>p w'. run (gateway_main demo_boot (token_rpc (cp_wiring demo_boot 0 demo_outside)) demo_json demo_client demo_counter demo_store)
       demo_deployment = (Serving p, w') \<and> (demo_resolver, 270 * nsPerSecond) \<in> set (gwp_resolvers p)"
proof -
  obtain p w' wait where
    g: "run (gateway_main demo_boot (token_rpc (cp_wiring demo_boot 0 demo_outside)) demo_json demo_client demo_counter demo_store)
       demo_deployment = (Serving p, w')" and r: "(demo_resolver, wait) \<in> set (gwp_resolvers p)"
    using demo_gateway_up by blast
  have "\<forall>c. keeps vw_clients (bt_try demo_boot c)" by (simp add: demo_boot_def keeps_def)
  moreover have "envInt64Or (bt_Getenv demo_boot) ''PROVIDER_TOKEN_TTL_SECONDS'' 300 = 300" by (simp add: demo_boot_def envInt64Or_def)
  ultimately have "wait = 270 * nsPerSecond" using gateway_refresh_schedule [OF g _ r, of 300] by simp
  with g r show ?thesis by blast
qed

text \<open>
  C9. What readers of etcd see, end to end. In every interleaving of commands, queries, RPCs and reconcilers on any number of
  deployed replicas, the text under an active key is JSON that decodes to exactly a stable version that is stored, a canary
  that is stored or empty, and a share of 0, 1, 10 or 50 percent. Versions are UUIDs, so valid UTF-8.
\<close>

theorem etcd_pointers_decode:
  assumes "\<forall>n. outside_ok (b n) x" "ox_Put x = kv_Put" "keeps all_tables prov" "\<forall>q. keeps all_tables (query q)"
    and "conc_reaches (map (cluster_serve (deployed b x sha jsonb prov query zero)) calls, w) (ps, w')"
    and "schema_ok w" "etcd_ok manifest_text active_text (ox_RFC3339 x) w"
    and "es_kv w' (active_key model) = Some t" "\<forall>v \<in> versions w'. utf8_valid v"
  shows "\<exists>v c pct.
    json_parse t = Some (JsonObj [(''stable'', JsonStr v), (''canary'', JsonStr c), (''canary_percent'', JsonNum (show_int pct))]) \<and>
    v \<in> versions w' \<and> c \<in> insert [] (versions w') \<and> pct \<in> {0, 1, 10, 50}"
proof -
  let ?e = "deployed b x sha jsonb prov query zero"
  have f: "ce_mj ?e = manifest_text" "ce_aj ?e = active_text" "ce_rfc ?e = ox_RFC3339 x" by (simp_all add: deployed_def)
  have "etcd_ok manifest_text active_text (ox_RFC3339 x) w'"
    using cluster_store_ok [OF deployed_ok [OF assms(1-4)] assms(5)] assms(6,7) by (simp add: f store_ok_def)
  with assms(8) have "entry_ok manifest_text active_text (ox_RFC3339 x) w' (active_key model) t" unfolding etcd_ok_def by blast
  then obtain e where e: "t = active_text e" "pointer_ok (versions w') e"
    using manifest_key_neq_active_key by (auto simp: entry_ok_def) metis
  then have "utf8_valid (ae_Stable e)" "utf8_valid (ae_Canary e)" using assms(9) by (auto simp: pointer_ok_def)
  from active_text_roundtrip [OF this] e show ?thesis by (auto simp: active_json_def pointer_ok_def)
qed

abbreviation demo_deployed :: "(unit cp_world_ext, int) cluster" where
  "demo_deployed \<equiv> deployed (\<lambda>_. demo_boot) demo_outside (\<lambda>t. t) (\<lambda>j. j) (\<lambda>w. (Inr [], w)) (\<lambda>q w. (Inl (ErrorString ''down''), w)) 0"

lemma demo_deployment_ok: "schema_ok demo_deployment" "etcd_ok mj aj rfc demo_deployment"
  by (simp_all add: schema_ok_def etcd_ok_def demo_deployment_def demo_admin_def demo_users_def admin_tables.extend_def)

lemma demo_registered:
  "\<exists>w'. run (cluster_serve demo_deployed (Rpc 0 (RpcRegisterModelManifest ''gpt'' ''{}'' ''alice''))) demo_deployment = ((), w') \<and>
     es_kv w' (active_key ''gpt'') = Some (active_text \<lparr>ae_Stable = ''v1'', ae_Canary = [], ae_CanaryPercent = 0\<rparr>) \<and> versions w' = {''v1''}"
proof -
  have j: "json_Valid ''{}''" by code_simp
  show ?thesis
    by (simp add: deployed_def server_RegisterModelManifest_def RegisterModelManifest_def ActivateVersion_def cp_wiring_def cp_registrySvc_def
      cp_etcdCli_def j demo_eval versions_def demo_boot_def demo_outside_def demo_deployment_def demo_admin_def demo_users_def admin_tables.extend_def
      cp_world.fields_def vault_New_def on_client_def vault_Sign_def ensureToken_def vault_login_def vault_exchange_def demo_vault_eval)
qed

theorem etcd_pointers_decode_witness:
  "\<exists>v c pct. json_parse (active_text \<lparr>ae_Stable = ''v1'', ae_Canary = [], ae_CanaryPercent = 0\<rparr>) =
     Some (JsonObj [(''stable'', JsonStr v), (''canary'', JsonStr c), (''canary_percent'', JsonNum (show_int pct))]) \<and> v = ''v1''"
proof -
  let ?p = "cluster_serve demo_deployed (Rpc 0 (RpcRegisterModelManifest ''gpt'' ''{}'' ''alice''))"
  obtain w' where r: "run ?p demo_deployment = ((), w')" and kv: "es_kv w' (active_key ''gpt'') =
      Some (active_text \<lparr>ae_Stable = ''v1'', ae_Canary = [], ae_CanaryPercent = 0\<rparr>)" and v: "versions w' = {''v1''}"
    using demo_registered by blast
  have o: "\<forall>n :: nat. outside_ok demo_boot demo_outside" "ox_Put demo_outside = kv_Put" using demo_outside_ok by (simp_all add: demo_outside_def)
  have k: "keeps all_tables (\<lambda>w :: cp_world. (Inr [] :: pb_ProviderStatus list result, w))"
    "\<forall>q :: string. keeps all_tables (\<lambda>w :: cp_world. (Inl (ErrorString ''down'') :: int result, w))" by (simp_all add: keeps_def)
  have c: "conc_reaches (map (cluster_serve demo_deployed) [Rpc 0 (RpcRegisterModelManifest ''gpt'' ''{}'' ''alice'')], demo_deployment) ([Ret ()], w')"
    using run_reaches [of ?p demo_deployment] r by (simp only: list.map fst_conv snd_conv)
  have u: "\<forall>v \<in> versions w'. utf8_valid v" unfolding v by simp code_simp
  from etcd_pointers_decode [OF o k c demo_deployment_ok(1) demo_deployment_ok(2) kv u] v show ?thesis by blast
qed

end
