(* ===== verification/Spec2Isabelle.thy ===== *)
theory Spec2Isabelle
  imports Latest Startup
begin

text \<open>
  The verification library of OneZox, a control plane and gateway for language models. It models the Go services under
  \<^verbatim>\<open>src/services\<close> as executable definitions over explicit worlds and proves what makes them correct.

  \<^bold>\<open>The program.\<close> Requests for completions reach \<^verbatim>\<open>provider-gateway\<close>, which guards every provider with a fleet-wide
  quota and a circuit breaker in Redis, merges identical calls in flight, translates to the wire format of the provider and
  relays its stream. \<^verbatim>\<open>control-plane\<close> keeps the signed manifests of models, the pointer to the active version of each, and
  staged canary rollouts between versions; it distributes them through etcd, signs with Vault, and drives rollouts by a
  reconciler that reads the verdicts of analyses in Kubernetes. \<^verbatim>\<open>admin-api\<close> is the only door to its commands: it
  authenticates, authorizes and audits every command, and serves the queries of the panel. \<^verbatim>\<open>provider-fake\<close> is a
  controllable provider for tests.

  \<^bold>\<open>How the code is modelled.\<close> \<open>OZ_Prelude\<close> holds the Go vocabulary: 64-bit integers with their wrap-around, errors with
  wrapping, the functions of the package strings, calls that can panic. External services are records of operations over a world
  that the caller threads, or arguments. The services of control-plane and admin-api run concurrently in several
  replicas, so their operations are programs of \<open>Resumption\<close>: sequences of atomic calls that other programs interleave
  with. Their world has the tables of CockroachDB and the keys of etcd as lists and maps, and lists of what will happen to
  the calls to come: a call is carried out, refused, or carried out with its reply lost. Theorems that do not ask for a world
  without faults hold for all such lists.

  The package \<^verbatim>\<open>encoding/json\<close> is modelled in \<open>Json\<close> and \<open>Json_Codec\<close>: printing, parsing, UTF-8, the decoding of structs, and that reading what was
  written gives it back. Decoders are combinators, one per kind of Go type, and the struct tags of a message become a list of fields. The records
  in Redis, the envelopes in etcd, \<^verbatim>\<open>json.Valid\<close>, the exchanges with Vault and the wire formats of all adapters use it;
  \<open>Base64\<close> is the encoding of what Vault signs. The text of a floating-point number, and with it
  the payload of pricing, is an argument.

  \<^bold>\<open>The theories\<close>, each with its part of the code, and what its lemmas show:
  \<^item> \<open>Breaker\<close> (\<^verbatim>\<open>provider-gateway/internal/breaker\<close>): the three-state breaker over a key-value store; it refines an
    abstract circuit machine.
  \<^item> \<open>Quota\<close> (\<^verbatim>\<open>internal/quota\<close>): the fixed-window governor; a window admits exactly its limit.
  \<^item> \<open>Adapters\<close>, \<open>Sse\<close>, \<open>Openai\<close>, \<open>Anthropic\<close>, \<open>Google\<close>, \<open>Fake_Adapter\<close> (\<^verbatim>\<open>internal/adapters\<close>): requests, the SSE scanner,
    and the streams of the providers, which end with one final item or an error and close their bodies.
  \<^item> \<open>Wire\<close>, \<open>Openai_Wire\<close>, \<open>Anthropic_Wire\<close>, \<open>Google_Wire\<close>, \<open>Fake_Wire\<close> (the same files): the JSON that the adapters write and read.
    From the bytes a provider sends to the items of the stream: every text arrives unchanged and in order, with the finish reason and the
    usage wherever the provider puts them.
  \<^item> \<open>Coalesce\<close> (\<^verbatim>\<open>internal/coalesce\<close>): leaders and subscribers as interleaved events; at most one call per key is in
    flight, all subscribers see the same stream, and none is left behind.
  \<^item> \<open>Relay\<close>, \<open>Credentials\<close> (\<^verbatim>\<open>internal/stream\<close>, \<^verbatim>\<open>internal/credentials\<close>): forwarding of a stream; refresh of provider keys.
  \<^item> \<open>Gateway\<close> (\<^verbatim>\<open>provider-gateway/main.go\<close>): \<^verbatim>\<open>Invoke\<close> and \<^verbatim>\<open>ProviderHealth\<close> composed of the above; delivery, outcome
    reports, declined calls, termination.
  \<^item> \<open>Etcd\<close>, \<open>Registry\<close>, \<open>Vault\<close> (\<^verbatim>\<open>control-plane/internal/etcdclient\<close>, \<^verbatim>\<open>registry\<close>, \<^verbatim>\<open>vaultclient\<close>, \<^verbatim>\<open>providertoken\<close>): manifests
    are immutable in every interleaving and are served only when Vault declares them valid.
  \<^item> \<open>Rollout\<close>, \<open>Analysis\<close> (\<^verbatim>\<open>rollout\<close>, \<^verbatim>\<open>analysis\<close>): rollouts only move forward, once per verdict, in every interleaving
    of operators, reconcilers and replicas; what each operation does to rows, pointers and etcd.
  \<^item> \<open>Latest\<close> (\<^verbatim>\<open>pricing\<close>, \<^verbatim>\<open>policy\<close>): append-only settings; the SQL stores and the in-memory ones agree.
  \<^item> \<open>Control_Server\<close> (\<^verbatim>\<open>control-plane/main.go\<close>): the gRPC handlers and their status codes.
  \<^item> \<open>Admin_Auth\<close>, \<open>Admin_Server\<close>, \<open>Admin_Chain\<close> (\<^verbatim>\<open>admin-api\<close>: \<^verbatim>\<open>internal/authn\<close>, \<^verbatim>\<open>authz\<close>, \<^verbatim>\<open>audit\<close>, \<^verbatim>\<open>apikeys\<close>, \<^verbatim>\<open>server.go\<close>,
    \<^verbatim>\<open>audit_interceptor.go\<close>): only unrevoked admins get in, a reported success is in the log under its caller, the log and
    the keys only grow, a publication reaches control-plane's tables with its author.
  \<^item> \<open>Prometheus\<close>, \<open>Admin_Graph\<close> (\<^verbatim>\<open>admin-api/internal/promclient\<close>, \<^verbatim>\<open>graph\<close>): an instant query over the wire; queries change nothing and show
    what is stored.
  \<^item> \<open>Provider_Fake\<close> (\<^verbatim>\<open>provider-fake/main.go\<close>): the harness and its adapter, end to end over the wire.
  \<^item> \<open>Leader\<close> (\<^verbatim>\<open>control-plane/internal/analysis/leader.go\<close>): the election in front of the reconciler; the terms of two replicas
    do not overlap, and a process leads only once in its life.
  \<^item> \<open>Rely\<close>, \<open>Schema\<close>: a rely/guarantee rule for interleaved programs, and with it the invariant of all processes together on the
    database and etcd: the tables satisfy the schema of \<^verbatim>\<open>src/data\<close>, and etcd holds only what the tables hold.
  \<^item> \<open>Startup\<close> (the four \<^verbatim>\<open>main.go\<close>): environment, connections, wiring and routes; a process comes up completely or exits, what it
    wires satisfies the hypotheses of the other theories, the GraphQL route is behind the credential, and the keys of the
    adapters are those that Vault holds.

  The interfaces between components are locales (\<open>breaker_kv\<close>, \<open>quota_counter\<close>, \<open>closing_stream\<close>, \<open>registry_service\<close>,
  \<open>rollout_service\<close>, \<open>credential_store\<close>, \<open>audit_log\<close>, \<open>key_store\<close>, \<open>control_reads\<close>, \<open>rely\<close> and others), each interpreted on the code's production
  store and, where there is one, on its test double.

  \<^bold>\<open>Bounds.\<close> No theorem is limited by fuel: streams are drained by a function into options that is proved to return, the
  reconciler's loop takes its number of ticks, which is universally quantified, and the schedules of interleavings are
  arbitrary. Text columns of type UUID hold any text.

  \<^bold>\<open>Not modelled.\<close> Generated code (\<^verbatim>\<open>internal/pb\<close>, \<^verbatim>\<open>graph/generated.go\<close>) appears as the fields its users read, and gqlgen's server
  as an argument. Tracing, metrics and log lines feed nothing back. The lease protocol of leader election belongs to
  client-go; what its documentation promises is a hypothesis of the two theorems about leaders, and all others hold
  without it, for any number of acting replicas. A process that is up is not stopped again by the model: the exits of the
  serving goroutines end it like a crash, which the interleavings cover. The Rust services \<^verbatim>\<open>edge-gateway\<close> and \<^verbatim>\<open>data-plane\<close>, the panel,
  the SQL migrations and the deployment are outside the Go code; the constraints of the tables are part of the modelled
  statements and of \<open>Schema\<close>.
\<close>

section \<open>The provider console\<close>

text \<open>
  The call from admin-api to provider-gateway. A quota window below one second makes \<^verbatim>\<open>Headroom\<close> divide by zero; the
  call then fails.
\<close>

definition provider_rpc :: "('st, 'w) server \<Rightarrow> call_times \<Rightarrow> 'w \<Rightarrow> pb_ProviderStatus list result \<times> 'w" where
  "provider_rpc s ct w =
     (case ProviderHealth s ct [] w of
        None \<Rightarrow> (Inl (StatusError Unavailable ''connection closed''), w)
      | Some (statuses, w1) \<Rightarrow> (Inr statuses, w1))"

lemma breakerStateName_closed:
  "breakerStateName (breakerStateToPb st) = ''closed'' \<longleftrightarrow> st = Closed"
  "breakerStateToPb st = BREAKER_STATE_CLOSED \<longleftrightarrow> st = Closed"
  by (simp_all add: breakerStateToPb_def breakerStateName_def)

text \<open>
  C22. What the console shows of a provider, from the resolver of admin-api through provider-gateway to the record in
  Redis: every registered provider once and in order, healthy exactly when the effective state of its breaker at the time
  of the call is closed, and with a headroom between 0 and 1. Looking changes neither breakers nor quotas.
\<close>

theorem console_shows_breakers:
  assumes "rv_Providers r = provider_rpc s ct"
    and "breaker_kv (sv_breakerStore s) lookup ok" "quota_counter (sv_quotaCounter s) used" "ok w"
    and "\<forall>p. windowKey p (Window (sv_quotaPolicy s)) (ct_quota ct) \<noteq> None" "0 < Limit (sv_quotaPolicy s)" "in_int64 (Limit (sv_quotaPolicy s))"
    and "\<forall>k. 0 \<le> used w k \<and> in_int64 (used w k)"
  shows "\<exists>l. run (resolver_ProviderHealth r) w = (Inr l, w) \<and> map gp_Provider l = Names (server.sv_registry s) \<and>
    (\<forall>h \<in> set l. 0 \<le> gp_QuotaHeadroom h \<and> gp_QuotaHeadroom h \<le> 1 \<and> (gp_Healthy h \<longleftrightarrow> gp_BreakerState h = ''closed'') \<and>
       (gp_Healthy h \<longleftrightarrow> effectiveState (lookup w (breaker_key (gp_Provider h))) (ct_breaker ct)
          (OpenDuration (sv_breakerConfig s)) = Closed))"
proof -
  from gateway_health_reads_only [OF assms(2-8), of "[]"] obtain sts where
    sts: "ProviderHealth s ct [] w = Some (sts, w)" "map ps_Provider sts = Names (server.sv_registry s)"
      "\<forall>st \<in> set sts. 0 \<le> ps_QuotaHeadroom st \<and> ps_QuotaHeadroom st \<le> 1 \<and>
         ps_BreakerState st = breakerStateToPb (effectiveState (lookup w (breaker_key (ps_Provider st))) (ct_breaker ct)
            (OpenDuration (sv_breakerConfig s)))"
    by auto
  then show ?thesis
    by (auto simp: resolver_ProviderHealth_def assms(1) provider_rpc_def breakerStateName_closed o_def)
qed

text \<open>A resolver that has only the provider console.\<close>

definition console :: "('w \<Rightarrow> pb_ProviderStatus list result \<times> 'w) \<Rightarrow> ('w, int) graph_Resolver" where
  "console providers =
     (\<lparr>rv_Keys = \<lparr>keys_Create = (\<lambda>_ _ _ w. (Inl (StatusError Unavailable ''down''), w)), keys_Revoke = (\<lambda>_ w. (Inl (StatusError Unavailable ''down''), w)),
            keys_List = (\<lambda>w. (Inl (StatusError Unavailable ''down''), w))\<rparr>,
          rv_Control = \<lparr>cr_ListModels = Ret (Inl (StatusError Unavailable ''down'')),
            cr_GetModelManifest = (\<lambda>_ _. Ret (Inl (StatusError Unavailable ''down''))),
            cr_GetRolloutStatus = (\<lambda>_ _. Ret (Inl (StatusError Unavailable ''down''))),
            cr_ListRollouts = (\<lambda>_ _. Ret (Inl (StatusError Unavailable ''down'')))\<rparr>,
          rv_Providers = providers, rv_Audit = (\<lambda>_ _ _ w. (Inl (StatusError Unavailable ''down''), w)),
          rv_QueryScalar = (\<lambda>_ w. (Inl (StatusError Unavailable ''down''), w)), rv_zero = 0\<rparr>)"

theorem console_shows_breakers_witness:
  "\<exists>l. run (resolver_ProviderHealth (console (provider_rpc (Gateway.demo_server (Inr [])) demo_times))) demo_empty = (Inr l, demo_empty) \<and>
     map gp_Provider l = [''p'']"
proof -
  have "\<forall>p. windowKey p (Window (sv_quotaPolicy (Gateway.demo_server (Inr [])))) (ct_quota demo_times) \<noteq> None"
    by (simp add: windowKey_def Gateway.demo_server_def wholeSeconds_def nsPerSecond_def signed_divide_int_def)
  moreover have "rv_Providers (console (provider_rpc (Gateway.demo_server (Inr [])) demo_times)) = provider_rpc (Gateway.demo_server (Inr [])) demo_times"
    by (simp add: console_def)
  ultimately show ?thesis
    using console_shows_breakers [of "console (provider_rpc (Gateway.demo_server (Inr [])) demo_times)" "Gateway.demo_server (Inr [])"
        demo_times fst "\<lambda>w. \<forall>k r. fst w k = Some r \<longrightarrow> record_ok r" snd demo_empty] demo_store_kv demo_counter_laws
    by (auto simp: Gateway.demo_server_def demo_empty_def in_int64_def Names_def)
qed

end
